(* ===== verification/Prelude.thy ===== *)
theory Prelude
  imports Main "HOL-Library.Word"
begin

text \<open>
  Shared vocabulary of the development: the machine integers of the Rust sources, results
  (\<open>Result<T, E>\<close> is \<open>'e + 'a\<close>), panics, the arithmetic that can overflow, and the
  generic lemmas on results, lists and maps that the component theories use.
\<close>

section \<open>Collections of facts\<close>

named_theorems store_defs \<open>definitions of the operations of the node store\<close>
named_theorems handler_defs \<open>definitions of the operations the event handler calls\<close>
named_theorems node_defs \<open>definitions of the operations of the node\<close>
named_theorems outcome_simps \<open>equations of results and panics\<close>

section \<open>Machine integers and byte strings\<close>

type_synonym u8 = "8 word"
type_synonym u16 = "16 word"
type_synonym u32 = "32 word"
type_synonym u64 = "64 word"
type_synonym u128 = "128 word"
type_synonym bytes = "u8 list"

section \<open>Results\<close>

text \<open>\<open>Inl\<close> is \<open>Err\<close>, \<open>Inr\<close> is \<open>Ok\<close>; \<open>and_then\<close> is what the \<open>?\<close> operator does.\<close>

type_synonym ('a, 'e) result = "'e + 'a"

definition and_then :: "('a, 'e) result \<Rightarrow> ('a \<Rightarrow> ('b, 'e) result) \<Rightarrow> ('b, 'e) result" where
  "and_then r f = (case r of Inl e \<Rightarrow> Inl e | Inr x \<Rightarrow> f x)"

definition map_err :: "('e \<Rightarrow> 'f) \<Rightarrow> ('a, 'e) result \<Rightarrow> ('a, 'f) result" where
  "map_err g r = (case r of Inl e \<Rightarrow> Inl (g e) | Inr x \<Rightarrow> Inr x)"

definition ok_or :: "'a option \<Rightarrow> 'e \<Rightarrow> ('a, 'e) result" where
  "ok_or x e = (case x of None \<Rightarrow> Inl e | Some v \<Rightarrow> Inr v)"

definition result_ok :: "('a, 'e) result \<Rightarrow> 'a option" where
  "result_ok r = (case r of Inl _ \<Rightarrow> None | Inr x \<Rightarrow> Some x)"

definition option_or :: "'a option \<Rightarrow> 'a option \<Rightarrow> 'a option" where
  "option_or x y = (case x of None \<Rightarrow> y | Some v \<Rightarrow> Some v)"

lemma and_then_simps [simp, outcome_simps]:
  "and_then (Inl e) f = Inl e" "and_then (Inr x) f = f x"
  by (simp_all add: and_then_def)

lemma map_err_simps [simp, outcome_simps]:
  "map_err g (Inl e) = Inl (g e)" "map_err g (Inr x) = Inr x"
  by (simp_all add: map_err_def)

lemma ok_or_simps [simp, outcome_simps]:
  "ok_or None e = Inl e" "ok_or (Some v) e = Inr v"
  by (simp_all add: ok_or_def)

lemma result_ok_simps [simp, outcome_simps]:
  "result_ok (Inl e) = None" "result_ok (Inr x) = Some x"
  by (simp_all add: result_ok_def)

lemma option_or_simps [simp, outcome_simps]:
  "option_or None y = y" "option_or (Some v) y = Some v"
  by (simp_all add: option_or_def)

lemma and_then_Inr_iff: "and_then r f = Inr y \<longleftrightarrow> (\<exists>x. r = Inr x \<and> f x = Inr y)"
  by (cases r) simp_all

lemma map_err_Inr_iff [simp]: "map_err g r = Inr y \<longleftrightarrow> r = Inr y"
  by (cases r) simp_all

lemma result_ok_Some_iff [simp]: "result_ok r = Some x \<longleftrightarrow> r = Inr x"
  by (cases r) simp_all

lemma result_ok_map_err [simp]: "result_ok (map_err g r) = result_ok r"
  by (cases r) simp_all

section \<open>Panics\<close>

text \<open>
  A Rust computation either returns or panics (an \<open>unwrap\<close> of \<open>None\<close> or \<open>Err\<close>, an
  \<open>expect\<close>, an arithmetic overflow in a build with overflow checks). What it did to
  its state before the panic stays done, so stateful operations return the outcome and the state.
\<close>

datatype 'a outcome = Return 'a | Panic string

definition bind_outcome :: "'a outcome \<Rightarrow> ('a \<Rightarrow> 'b outcome) \<Rightarrow> 'b outcome" where
  "bind_outcome r f = (case r of Return x \<Rightarrow> f x | Panic m \<Rightarrow> Panic m)"

definition unwrap :: "'a option \<Rightarrow> 'a outcome" where
  "unwrap x = (case x of None \<Rightarrow> Panic ''called Option::unwrap() on a None value'' | Some v \<Rightarrow> Return v)"

definition unwrap_result :: "('a, 'e) result \<Rightarrow> 'a outcome" where
  "unwrap_result r =
     (case r of Inl _ \<Rightarrow> Panic ''called Result::unwrap() on an Err value'' | Inr v \<Rightarrow> Return v)"

definition panics :: "'a outcome \<Rightarrow> bool" where
  "panics r = (case r of Return _ \<Rightarrow> False | Panic _ \<Rightarrow> True)"

lemma bind_outcome_simps [simp, outcome_simps]:
  "bind_outcome (Return x) f = f x" "bind_outcome (Panic m) f = Panic m"
  by (simp_all add: bind_outcome_def)

lemma unwrap_simps [simp, outcome_simps]:
  "unwrap (Some v) = Return v"
  "unwrap (None :: 'a option) = Panic ''called Option::unwrap() on a None value''"
  by (simp_all add: unwrap_def)

lemma unwrap_result_simps [simp, outcome_simps]:
  "unwrap_result (Inr v) = Return v"
  "unwrap_result (Inl e) = Panic ''called Result::unwrap() on an Err value''"
  by (simp_all add: unwrap_result_def)

lemma panics_simps [simp, outcome_simps]:
  "panics (Return x) = False" "panics (Panic m) = True"
  by (simp_all add: panics_def)

lemma bind_outcome_Return_iff:
  "bind_outcome r f = Return y \<longleftrightarrow> (\<exists>x. r = Return x \<and> f x = Return y)"
  by (cases r) simp_all

lemma not_panics_iff: "\<not> panics r \<longleftrightarrow> (\<exists>x. r = Return x)"
  by (cases r) simp_all

lemma unwrap_Return_iff [simp]: "unwrap x = Return v \<longleftrightarrow> x = Some v"
  by (cases x) simp_all

lemma unwrap_result_Return_iff [simp]: "unwrap_result r = Return v \<longleftrightarrow> r = Inr v"
  by (cases r) simp_all

text \<open>
  The macros of the \<open>log\<close> crate evaluate their arguments only when the level is enabled
  (\<open>lnnode\<close> enables \<open>info\<close> unless \<open>RUST_LOG\<close> says otherwise), so an \<open>unwrap\<close> among the
  arguments panics only then. \<open>args\<close> is the outcome of evaluating them.
\<close>

definition log_info :: "bool \<Rightarrow> unit outcome \<Rightarrow> unit outcome" where
  "log_info enabled args = (if enabled then args else Return ())"

lemma log_info_simps [simp, outcome_simps]:
  "log_info True args = args" "log_info False args = Return ()"
  by (simp_all add: log_info_def)

lemma log_info_panics [simp]: "panics (log_info b args) \<longleftrightarrow> b \<and> panics args"
  by (simp add: log_info_def)

definition evaluate :: "'a outcome \<Rightarrow> unit outcome" where
  "evaluate x = bind_outcome x (\<lambda>_. Return ())"

lemma evaluate_simps [simp, outcome_simps]:
  "evaluate (Return x) = Return ()" "evaluate (Panic m) = Panic m"
  by (simp_all add: evaluate_def)

section \<open>Locks\<close>

text \<open>
  \<open>std::sync::Mutex\<close>: a panic while the guard is held poisons the lock, and every later
  \<open>lock().unwrap()\<close> panics without touching the content.
\<close>

record 'a mutex =
  guarded :: 'a
  poisoned :: bool

definition unlocked :: "'a \<Rightarrow> 'a mutex" where
  "unlocked a = \<lparr>guarded = a, poisoned = False\<rparr>"

definition poison_error :: string where
  "poison_error = ''called Result::unwrap() on an Err value: PoisonError''"

text \<open>\<open>lock().unwrap()\<close> followed by a computation on the content, or by one that only reads it.\<close>

definition with_lock :: "('a \<Rightarrow> 'b outcome \<times> 'a) \<Rightarrow> 'a mutex \<Rightarrow> 'b outcome \<times> 'a mutex" where
  "with_lock f m =
     (if poisoned m then (Panic poison_error, m)
      else case f (guarded m) of (r, a) \<Rightarrow> (r, \<lparr>guarded = a, poisoned = panics r\<rparr>))"

definition read_lock :: "('a \<Rightarrow> 'b) \<Rightarrow> 'a mutex \<Rightarrow> 'b outcome" where
  "read_lock f m = (if poisoned m then Panic poison_error else Return (f (guarded m)))"

lemma read_lock_Panic: "read_lock f m = Panic msg \<Longrightarrow> msg = poison_error \<and> poisoned m"
  by (simp add: read_lock_def split: if_splits)

lemma unlocked_simps [simp]: "guarded (unlocked a) = a" "\<not> poisoned (unlocked a)"
  by (simp_all add: unlocked_def)

lemma with_lock_unlocked:
  "with_lock f (unlocked a) = (fst (f a), \<lparr>guarded = snd (f a), poisoned = panics (fst (f a))\<rparr>)"
  by (simp add: with_lock_def split: prod.split)

lemma with_lock_poisoned: "poisoned m \<Longrightarrow> panics (fst (with_lock f m)) \<and> snd (with_lock f m) = m"
  by (simp add: with_lock_def)

text \<open>A lock is poisoned exactly by a panic.\<close>

lemma with_lock_panics_iff: "panics (fst (with_lock f m)) \<longleftrightarrow> poisoned (snd (with_lock f m))"
  by (cases "f (guarded m)") (simp add: with_lock_def)

section \<open>Arithmetic that can overflow\<close>

text \<open>
  Rust's \<open>+\<close>, \<open>*\<close> and \<open>sum\<close> on \<open>u64\<close> panic on overflow when the build has overflow checks
  (the default of debug builds) and wrap without them: \<open>checks\<close> is that build setting.
\<close>

definition add_u64 :: "bool \<Rightarrow> u64 \<Rightarrow> u64 \<Rightarrow> u64 outcome" where
  "add_u64 checks a b =
     (if checks \<and> 2 ^ 64 \<le> unat a + unat b then Panic ''attempt to add with overflow''
      else Return (a + b))"

definition mul_u64 :: "bool \<Rightarrow> u64 \<Rightarrow> u64 \<Rightarrow> u64 outcome" where
  "mul_u64 checks a b =
     (if checks \<and> 2 ^ 64 \<le> unat a * unat b then Panic ''attempt to multiply with overflow''
      else Return (a * b))"

fun sum_u64_from :: "bool \<Rightarrow> u64 \<Rightarrow> u64 list \<Rightarrow> u64 outcome" where
  "sum_u64_from checks acc [] = Return acc"
| "sum_u64_from checks acc (x # xs) =
     bind_outcome (add_u64 checks acc x) (\<lambda>acc'. sum_u64_from checks acc' xs)"

definition sum_u64 :: "bool \<Rightarrow> u64 list \<Rightarrow> u64 outcome" where
  "sum_u64 checks xs = sum_u64_from checks 0 xs"

definition saturating_add_u32 :: "u32 \<Rightarrow> u32 \<Rightarrow> u32" where
  "saturating_add_u32 a b = (if unat a + unat b < 2 ^ 32 then a + b else - 1)"

lemma unat_u64_bound: "unat (a :: u64) < 2 ^ 64"
proof -
  have "unat a < 2 ^ LENGTH(64)" by (rule unsigned_less)
  then show ?thesis by simp
qed

lemma unat_u32_bound: "unat (a :: u32) < 2 ^ 32"
proof -
  have "unat a < 2 ^ LENGTH(32)" by (rule unsigned_less)
  then show ?thesis by simp
qed

lemma unat_saturating_add_u32:
  "unat (saturating_add_u32 a b) = min (unat a + unat b) (2 ^ 32 - 1)"
proof (cases "unat a + unat b < 2 ^ 32")
  case True
  then have "unat (a + b) = unat a + unat b"
    by (simp add: unat_add_lem [THEN iffD1])
  with True show ?thesis by (simp add: saturating_add_u32_def)
next
  case False
  then show ?thesis by (simp add: saturating_add_u32_def unsigned_minus_1_eq_mask mask_eq_exp_minus_1)
qed

lemma unat_add_u64_Return:
  "unat a + unat b < 2 ^ 64 \<Longrightarrow> add_u64 c a b = Return (a + b) \<and> unat (a + b) = unat a + unat b"
  by (simp add: add_u64_def unat_add_lem [THEN iffD1])

lemma unat_mul_u64_Return:
  "unat a * unat b < 2 ^ 64 \<Longrightarrow> mul_u64 c a b = Return (a * b) \<and> unat (a * b) = unat a * unat b"
  by (simp add: mul_u64_def unat_mult_lem [THEN iffD1])

text \<open>The sum is exact, in either build, when the mathematical sum fits.\<close>

lemma sum_u64_from_exact:
  "unat acc + sum_list (map unat xs) < 2 ^ 64 \<Longrightarrow>
     \<exists>r. sum_u64_from checks acc xs = Return r \<and> unat r = unat acc + sum_list (map unat xs)"
proof (induction xs arbitrary: acc)
  case Nil
  then show ?case by simp
next
  case (Cons x xs)
  then have "unat acc + unat x < 2 ^ 64" by simp
  from unat_add_u64_Return [OF this, of checks] Cons.prems Cons.IH [of "acc + x"]
  show ?case by (simp add: add.assoc)
qed

lemma sum_u64_exact:
  "sum_list (map unat xs) < 2 ^ 64 \<Longrightarrow>
     \<exists>r. sum_u64 checks xs = Return r \<and> unat r = sum_list (map unat xs)"
  using sum_u64_from_exact [of 0 xs checks] by (simp add: sum_u64_def)

text \<open>With overflow checks, a sum that does not fit panics.\<close>

lemma sum_u64_from_panics:
  "2 ^ 64 \<le> unat acc + sum_list (map unat xs) \<Longrightarrow> panics (sum_u64_from True acc xs)"
proof (induction xs arbitrary: acc)
  case Nil
  then show ?case using unat_u64_bound [of acc] by simp
next
  case (Cons x xs)
  show ?case
  proof (cases "2 ^ 64 \<le> unat acc + unat x")
    case True
    then show ?thesis by (simp add: add_u64_def)
  next
    case False
    then have "unat acc + unat x < 2 ^ 64" by simp
    from unat_add_u64_Return [OF this, of True] Cons.prems Cons.IH [of "acc + x"]
    show ?thesis by (simp add: add.assoc)
  qed
qed

section \<open>Lists, options and maps\<close>

lemma find_Some_iff_set: "List.find P xs = Some x \<Longrightarrow> x \<in> set xs \<and> P x"
  by (auto simp: find_Some_iff)

lemma find_not_None_iff: "List.find P xs = None \<longleftrightarrow> (\<forall>x \<in> set xs. \<not> P x)"
  by (auto simp: find_None_iff)

lemma fun_upd_other_key: "k \<noteq> k' \<Longrightarrow> (m(k \<mapsto> v)) k' = m k'"
  by simp

lemma split_pair_eq: "(case p of (a, b) \<Rightarrow> f a b) = f (fst p) (snd p)"
  by (cases p) simp

lemma eq_pair_iff: "p = (a, b) \<longleftrightarrow> fst p = a \<and> snd p = b"
  by (cases p) auto

text \<open>Looking an element up by a key that tells the elements apart.\<close>

lemma find_distinct:
  assumes "distinct (map f xs)" and "x \<in> set xs"
  shows "List.find (\<lambda>y. f y = f x) xs = Some x"
  using assms by (induction xs) auto

end
