(* ===== verification/Float64.thy ===== *)
theory Float64
  imports Complex_Main Prelude "HOL-Library.Log_Nat"
begin

text \<open>
  The \<open>f64\<close> arithmetic of \<open>fetch_fee_estimate\<close> (\<open>src/bitcoind_client.rs\<close>): binary64 values,
  multiplication and division by four rounded to nearest with ties to even, and Rust's saturating
  \<open>as u32\<close>. A finite value is \<open>m * 2 ^ e\<close>; the two zeros are not told apart, since no
  operation of the program does. The bound at the end says how far the computed product can be
  from the exact one.
\<close>

section \<open>Values and rounding\<close>

datatype f64 = Finite int int | Infinite bool | NotANumber

text \<open>\<open>shift_rne a k\<close> is \<open>a / 2 ^ k\<close> rounded to the nearest integer, ties to even.\<close>

definition shift_rne :: "int \<Rightarrow> nat \<Rightarrow> int" where
  "shift_rne a k =
     (let q = a div 2 ^ k; r = a mod 2 ^ k
      in if 2 ^ k < 2 * r \<or> (2 ^ k = 2 * r \<and> odd q) then q + 1 else q)"

definition pack_f64 :: "int \<Rightarrow> int \<Rightarrow> f64" where
  "pack_f64 m e = (if 1024 < bitlen \<bar>m\<bar> + e then Infinite (m < 0) else Finite m e)"

definition round_f64 :: "int \<Rightarrow> int \<Rightarrow> f64" where
  "round_f64 m e =
     (let e' = max (e + bitlen \<bar>m\<bar> - 53) (- 1074)
      in if e' \<le> e then pack_f64 m e
         else pack_f64 (sgn m * shift_rne \<bar>m\<bar> (nat (e' - e))) e')"

definition f64_of_int :: "int \<Rightarrow> f64" where
  "f64_of_int n = round_f64 n 0"

fun mul_f64 :: "f64 \<Rightarrow> f64 \<Rightarrow> f64" where
  "mul_f64 (Finite m e) (Finite n f) = round_f64 (m * n) (e + f)"
| "mul_f64 (Finite m e) (Infinite s) =
     (if m = 0 then NotANumber else Infinite ((m < 0) \<noteq> s))"
| "mul_f64 (Infinite s) (Finite n f) =
     (if n = 0 then NotANumber else Infinite (s \<noteq> (n < 0)))"
| "mul_f64 (Infinite s) (Infinite t) = Infinite (s \<noteq> t)"
| "mul_f64 NotANumber _ = NotANumber"
| "mul_f64 _ NotANumber = NotANumber"

text \<open>Division by \<open>4.0\<close> is exact but for the rounding of subnormal results.\<close>

fun quarter_f64 :: "f64 \<Rightarrow> f64" where
  "quarter_f64 (Finite m e) = round_f64 m (e - 2)"
| "quarter_f64 (Infinite s) = Infinite s"
| "quarter_f64 NotANumber = NotANumber"

text \<open>\<open>as u32\<close> truncates towards zero and saturates; \<open>NaN\<close> becomes zero.\<close>

definition trunc_pow2 :: "int \<Rightarrow> int \<Rightarrow> int" where
  "trunc_pow2 m e =
     (if 0 \<le> e then m * 2 ^ nat e else sgn m * (\<bar>m\<bar> div 2 ^ nat (- e)))"

fun f64_as_u32 :: "f64 \<Rightarrow> u32" where
  "f64_as_u32 (Finite m e) = word_of_int (max 0 (min (trunc_pow2 m e) (2 ^ 32 - 1)))"
| "f64_as_u32 (Infinite negative) = (if negative then 0 else - 1)"
| "f64_as_u32 NotANumber = 0"

section \<open>How far rounding can be off\<close>

lemma shift_rne_near:
  assumes "0 \<le> a"
  shows "2 * \<bar>shift_rne a k * 2 ^ k - a\<bar> \<le> 2 ^ k" and "0 \<le> shift_rne a k"
    and "shift_rne a k \<le> a div 2 ^ k + 1"
proof -
  define q r where "q = a div 2 ^ k" and "r = a mod 2 ^ k"
  have a: "a = q * 2 ^ k + r" by (simp only: q_def r_def div_mult_mod_eq)
  have r: "0 \<le> r" "r < 2 ^ k" by (simp_all add: r_def)
  have q: "0 \<le> q" using assms by (simp add: q_def pos_imp_zdiv_nonneg_iff)
  have s: "shift_rne a k = (if 2 ^ k < 2 * r \<or> (2 ^ k = 2 * r \<and> odd q) then q + 1 else q)"
    by (simp add: shift_rne_def Let_def q_def r_def)
  consider "shift_rne a k = q + 1" "2 ^ k \<le> 2 * r" | "shift_rne a k = q" "2 * r \<le> 2 ^ k"
    by (cases "2 ^ k < 2 * r \<or> (2 ^ k = 2 * r \<and> odd q)") (auto simp: s)
  then show "2 * \<bar>shift_rne a k * 2 ^ k - a\<bar> \<le> 2 ^ k"
  proof cases
    case 1
    then have "shift_rne a k * 2 ^ k - a = 2 ^ k - r" by (simp add: a algebra_simps)
    with 1 r show ?thesis by simp
  next
    case 2
    then have "shift_rne a k * 2 ^ k - a = - r" by (simp add: a)
    with 2 r show ?thesis by simp
  qed
  show "0 \<le> shift_rne a k" "shift_rne a k \<le> a div 2 ^ k + 1"
    using q by (simp_all add: s q_def [symmetric])
qed

lemma shift_rne_exact: "0 < k \<Longrightarrow> shift_rne (a * 2 ^ k) k = a"
  by (simp add: shift_rne_def Let_def)

lemma div_less_of_less_mult:
  fixes a b n :: int
  assumes "0 < n" and "a < b * n"
  shows "a div n < b"
proof (rule ccontr)
  assume "\<not> a div n < b"
  then have "b * n \<le> (a div n) * n" using assms(1) by (intro mult_right_mono) auto
  moreover have "(a div n) * n \<le> a"
    using div_mult_mod_eq [of a n] pos_mod_sign [OF assms(1), of a] by linarith
  ultimately show False using assms(2) by simp
qed

lemma bitlen_upper: "0 \<le> a \<Longrightarrow> a < 2 ^ nat (bitlen a)"
  using bitlen_bounds [of a] by (cases "a = 0") simp_all

lemma bitlen_le_of_less:
  assumes "0 \<le> a" and "a < 2 ^ n"
  shows "bitlen a \<le> int n"
  using assms by (simp add: bitlen_le_iff_power)

text \<open>
  Rounding a non-negative integer multiple of a power of two that is neither subnormal nor huge
  gives a finite value, off by at most half a unit in the last place, and exact up to \<open>2 ^ 53\<close>.
\<close>

lemma round_f64_near:
  assumes "0 \<le> p" and "- 1021 \<le> e" and "bitlen p + e \<le> 900"
  obtains q e' where "round_f64 p e = Finite q e'" and "0 \<le> q" and "q \<le> 2 ^ 53" and "e \<le> e'"
    and "2 * \<bar>q * 2 ^ nat (e' - e) - p\<bar> \<le> 2 ^ nat (e' - e)"
    and "p \<le> 2 ^ 53 \<Longrightarrow> q * 2 ^ nat (e' - e) = p"
    and "e' \<le> e + bitlen p" and "e < e' \<Longrightarrow> 2 ^ (52 + nat (e' - e)) \<le> p"
proof -
  define l d where "l = bitlen p" and "d = nat (l - 53)"
  have lower: "- 1074 \<le> e + l - 53" using assms(2) bitlen_nonneg [of p] by (simp add: l_def)
  show thesis
  proof (cases "l \<le> 53")
    case True
    have "p < 2 ^ nat l" using bitlen_upper [OF assms(1)] by (simp add: l_def)
    also have "\<dots> \<le> 2 ^ 53" using True by (intro power_increasing) auto
    finally have "p \<le> 2 ^ 53" by simp
    moreover have "round_f64 p e = Finite p e"
      using True lower assms by (simp add: round_f64_def pack_f64_def l_def Let_def max_def)
    ultimately show thesis
      using assms(1) bitlen_nonneg [of p] by (intro that [of p e]) simp_all
  next
    case False
    define q where "q = shift_rne p d"
    note near = shift_rne_near [OF assms(1), of d, folded q_def]
    have "p < 2 ^ nat l" using bitlen_upper [OF assms(1)] by (simp add: l_def)
    also have "nat l = 53 + d" using False by (simp add: d_def)
    also have "(2::int) ^ (53 + d) = 2 ^ 53 * 2 ^ d" by (simp only: power_add)
    finally have "p div 2 ^ d < 2 ^ 53" by (intro div_less_of_less_mult) auto
    with near(3) have q: "q \<le> 2 ^ 53" by simp
    then have "q < 2 ^ 54" by simp
    from bitlen_le_of_less [OF near(2) this] have "bitlen q + (e + l - 53) \<le> 1024"
      using assms(3) by (simp add: l_def)
    then have "pack_f64 q (e + l - 53) = Finite q (e + l - 53)"
      using near(2) by (simp add: pack_f64_def)
    moreover have sgn: "sgn p = 1" "\<bar>p\<bar> = p"
      using assms(1) False by (auto simp: l_def sgn_if)
    moreover have "max (e + l - 53) (- 1074) = e + l - 53" "nat (e + l - 53 - e) = d"
      using lower by (simp_all add: d_def)
    ultimately have rounded: "round_f64 p e = Finite q (e + l - 53)"
      using False by (simp add: round_f64_def l_def [symmetric] q_def [symmetric] Let_def)
    have shift: "nat (e + l - 53 - e) = d" by (simp add: d_def)
    show thesis
    proof (rule that [OF rounded near(2) q])
      show "e \<le> e + l - 53" using False by simp
      show "2 * \<bar>q * 2 ^ nat (e + l - 53 - e) - p\<bar> \<le> 2 ^ nat (e + l - 53 - e)"
        unfolding shift by (rule near(1))
      assume "p \<le> 2 ^ 53"
      moreover from False have "\<not> p < 2 ^ 53"
        using bitlen_le_of_less [OF assms(1), of 53] by (auto simp: l_def)
      ultimately have p: "p = 2 ^ 53" by simp
      have "bitlen (2 ^ 53 :: int) = 54" by code_simp
      with p have "d = 1" by (simp add: d_def l_def)
      with p show "q * 2 ^ nat (e + l - 53 - e) = p"
        unfolding shift using shift_rne_exact [of 1 "2 ^ 52"] by (simp add: q_def)
    next
      show "e + l - 53 \<le> e + bitlen p" by (simp add: l_def)
      have "nat (l - 1) = 52 + d" using False by (simp add: d_def)
      moreover have "0 < p" using sgn by (simp add: sgn_if split: if_splits)
      ultimately show "2 ^ (52 + nat (e + l - 53 - e)) \<le> p"
        unfolding shift using bitlen_bounds [of p] by (simp add: l_def)
    qed
  qed
qed

text \<open>Truncation of a non-negative value, on a common scale.\<close>

lemma trunc_pow2_scaled:
  assumes "0 \<le> m" and "0 \<le> e + int n"
  shows "trunc_pow2 m e = (m * 2 ^ nat (e + int n)) div 2 ^ n"
proof (cases "0 \<le> e")
  case True
  then have "nat (e + int n) = nat e + n" by simp
  with True show ?thesis by (simp add: trunc_pow2_def power_add)
next
  case False
  define i where "i = nat (- e)"
  have "n = i + nat (e + int n)" using False assms(2) by (simp add: i_def)
  then have "(2::int) ^ n = 2 ^ i * 2 ^ nat (e + int n)" by (metis power_add)
  moreover have "sgn m * (\<bar>m\<bar> div 2 ^ i) = m div 2 ^ i"
    using assms(1) by (cases "m = 0") simp_all
  ultimately show ?thesis using False by (simp add: trunc_pow2_def i_def)
qed

lemma div_near:
  fixes a b n :: int
  assumes "0 < n" and "\<bar>a - b\<bar> \<le> n"
  shows "\<bar>a div n - b div n\<bar> \<le> 1"
proof -
  have "a div n \<le> (b + n) div n" using assms by (intro zdiv_mono1) auto
  moreover have "b div n \<le> (a + n) div n" using assms by (intro zdiv_mono1) auto
  ultimately show ?thesis using assms(1) by simp
qed

text \<open>
  The conversion of \<open>fetch_fee_estimate\<close>, a product with an integer constant \<open>c\<close> and a division by
  four, truncated: within one of the exact quotient, on either side of the saturation bound.
\<close>

lemma clamped_u32:
  "0 \<le> a \<Longrightarrow> uint (word_of_int (max 0 (min a (2 ^ 32 - 1))) :: u32) = min a (2 ^ 32 - 1)"
  by (simp add: uint_word_of_int_eq take_bit_eq_mod)

lemma min_near: "\<bar>a - b\<bar> \<le> 1 \<Longrightarrow> \<bar>min a c - min b c\<bar> \<le> 1" for a b c :: int
  by linarith

lemma near_lower:
  fixes p x n :: int
  assumes "2 ^ 52 * n \<le> p" and "2 * \<bar>x - p\<bar> \<le> n" and "0 < n"
  shows "2 ^ 40 * n \<le> x"
proof -
  have "2 * p - n \<le> 2 * x" using assms(2) abs_ge_minus_self [of "x - p"] by simp
  with assms(1,3) show ?thesis by simp
qed

lemma rounded_div_near:
  fixes p q :: int
  assumes "0 \<le> p" and "0 \<le> q" and near: "2 * \<bar>q * 2 ^ d - p\<bar> \<le> 2 ^ d"
    and big: "0 < d \<Longrightarrow> 2 ^ (52 + d) \<le> p"
  shows "\<bar>min ((q * 2 ^ d) div 2 ^ n) (2 ^ 32 - 1) - min (p div 2 ^ n) (2 ^ 32 - 1)\<bar> \<le> 1"
proof (cases "d \<le> n")
  case True
  then have "(2::int) ^ d \<le> 2 ^ n" by (intro power_increasing) auto
  moreover have "\<bar>q * 2 ^ d - p\<bar> \<le> 2 * \<bar>q * 2 ^ d - p\<bar>" by simp
  ultimately have "\<bar>q * 2 ^ d - p\<bar> \<le> 2 ^ n" using near by (meson order_trans)
  from div_near [OF _ this] show ?thesis by (intro min_near) simp
next
  case False
  then have big': "2 ^ (52 + d) \<le> p" and "(2::int) ^ n \<le> 2 ^ d"
    by (simp_all add: big power_increasing)
  have *: "2 ^ 32 - 1 \<le> x div 2 ^ n" if "2 ^ 40 * 2 ^ d \<le> x" for x :: int
  proof -
    have "2 ^ 40 * 2 ^ n \<le> 2 ^ 40 * (2::int) ^ d"
      using \<open>2 ^ n \<le> 2 ^ d\<close> by (rule mult_left_mono) simp
    then have "2 ^ 40 * 2 ^ n \<le> x" using that by (rule order_trans)
    then have "(2 ^ 40 * 2 ^ n) div 2 ^ n \<le> x div 2 ^ n" by (rule zdiv_mono1) simp
    then show ?thesis by simp
  qed
  have "(2::int) ^ (52 + d) = 2 ^ 52 * 2 ^ d" by (simp only: power_add)
  with big' have p: "2 ^ 52 * 2 ^ d \<le> p" by simp
  then have "2 ^ 40 * 2 ^ d \<le> p" by (rule order_trans [rotated]) simp
  moreover have "2 ^ 40 * 2 ^ d \<le> q * 2 ^ d"
    by (rule near_lower [OF p near]) simp
  ultimately show ?thesis using * by simp
qed

lemma scaled_quarter_near:
  assumes "0 \<le> m" and "0 < c" and "m * c < 2 ^ 100" and "k \<le> 1000"
  shows "\<bar>uint (f64_as_u32 (quarter_f64 (round_f64 (m * c) (- int k))))
          - min ((m * c) div 2 ^ (k + 2)) (2 ^ 32 - 1)\<bar> \<le> 1"
proof -
  define p where "p = m * c"
  have p: "0 \<le> p" using assms(1,2) by (simp add: p_def)
  have len: "bitlen p \<le> 100" using bitlen_le_of_less [OF p, of 100] assms(3) by (simp add: p_def)
  obtain q e where q: "round_f64 p (- int k) = Finite q e" "0 \<le> q" "q \<le> 2 ^ 53" "- int k \<le> e"
      "2 * \<bar>q * 2 ^ nat (e + int k) - p\<bar> \<le> 2 ^ nat (e + int k)" "e \<le> - int k + bitlen p"
      "- int k < e \<Longrightarrow> 2 ^ (52 + nat (e + int k)) \<le> p"
    by (rule round_f64_near [OF p, of "- int k"]) (use assms(4) len in simp_all)
  have "bitlen q \<le> 54" using bitlen_le_of_less [OF q(2), of 54] q(3) by simp
  obtain q' e' where q': "round_f64 q (e - 2) = Finite q' e'" "0 \<le> q'" "e - 2 \<le> e'"
      "q' * 2 ^ nat (e' - (e - 2)) = q"
    by (rule round_f64_near [OF q(2), of "e - 2"]) (use q(3,4,6) len assms(4) \<open>bitlen q \<le> 54\<close> in simp_all)
  have "nat (e' + int (k + 2)) = nat (e' - (e - 2)) + nat (e + int k)"
    using q(4) q'(3) by simp
  then have trunc: "trunc_pow2 q' e' = (q * 2 ^ nat (e + int k)) div 2 ^ (k + 2)"
    using trunc_pow2_scaled [OF q'(2), of e' "k + 2"] q'(3,4) q(4)
    by (simp add: power_add mult.assoc [symmetric])
  have nonneg: "0 \<le> (q * 2 ^ nat (e + int k)) div 2 ^ (k + 2)"
    using q(2) by (simp add: pos_imp_zdiv_nonneg_iff)
  have near: "\<bar>min ((q * 2 ^ nat (e + int k)) div 2 ^ (k + 2)) (2 ^ 32 - 1)
      - min (p div 2 ^ (k + 2)) (2 ^ 32 - 1)\<bar> \<le> 1"
    by (rule rounded_div_near [OF p q(2,5)]) (use q(7) in simp)
  show ?thesis
    unfolding p_def [symmetric] q(1) quarter_f64.simps q'(1) f64_as_u32.simps trunc
      clamped_u32 [OF nonneg] by (rule near)
qed

end
