(* ===== verification/Json.thy ===== *)
theory Json
  imports Float64
begin

text \<open>
  JSON values as the program sees them through \<open>serde_json::Value\<close>: the data type with its three
  kinds of numbers, and the accessors the sources call (\<open>get\<close>, indexing by a field name,
  \<open>as_str\<close>, \<open>as_u64\<close>, \<open>as_f64\<close>) with their documented results. Parsing and printing of
  JSON text are not here: they are parameters of the definitions that use them.
\<close>

datatype json_number = PosInt u64 | NegInt u64 | Float f64

datatype json =
    JNull
  | JBool bool
  | JNumber json_number
  | JString string
  | JArray "json list"
  | JObject "(string \<times> json) list"

fun json_get :: "json \<Rightarrow> string \<Rightarrow> json option" where
  "json_get (JObject members) k = map_of members k"
| "json_get _ k = None"

text \<open>Indexing \<open>v["k"]\<close> gives \<open>Null\<close> where \<open>get\<close> gives \<open>None\<close>.\<close>

definition json_index :: "json \<Rightarrow> string \<Rightarrow> json" where
  "json_index v k = (case json_get v k of None \<Rightarrow> JNull | Some x \<Rightarrow> x)"

fun json_as_str :: "json \<Rightarrow> string option" where
  "json_as_str (JString s) = Some s"
| "json_as_str _ = None"

fun json_as_u64 :: "json \<Rightarrow> u64 option" where
  "json_as_u64 (JNumber (PosInt n)) = Some n"
| "json_as_u64 _ = None"

fun json_as_f64 :: "json \<Rightarrow> f64 option" where
  "json_as_f64 (JNumber (PosInt n)) = Some (f64_of_int (uint n))"
| "json_as_f64 (JNumber (NegInt n)) = Some (f64_of_int (sint n))"
| "json_as_f64 (JNumber (Float f)) = Some f"
| "json_as_f64 _ = None"

definition json_u64 :: "u64 \<Rightarrow> json" where
  "json_u64 n = JNumber (PosInt n)"

definition json_bytes :: "bytes \<Rightarrow> json" where
  "json_bytes bs = JArray (map (\<lambda>b. json_u64 (ucast b)) bs)"

definition json_option :: "('a \<Rightarrow> json) \<Rightarrow> 'a option \<Rightarrow> json" where
  "json_option f x = (case x of None \<Rightarrow> JNull | Some v \<Rightarrow> f v)"

lemma json_index_object [simp]:
  "json_index (JObject members) k = (case map_of members k of None \<Rightarrow> JNull | Some x \<Rightarrow> x)"
  by (simp add: json_index_def)

lemma json_as_u64_json_u64 [simp]: "json_as_u64 (json_u64 n) = Some n"
  by (simp add: json_u64_def)

end
