(* ===== verification/External.thy ===== *)
theory External
  imports Json
begin

text \<open>
  The third-party code the program calls (LDK, BDK, the \<open>hex\<close> crate, the RPC client), which is
  not part of the repository. Its data types are given by the constructors and fields the sources
  name; its operations are records of functions, which the definitions that call them take as an
  argument; what the program relies on is a predicate over such a record, a named hypothesis of
  the theorems that need it. No theorem assumes more of that code than these predicates say.
\<close>

section \<open>Data\<close>

datatype payment_id = PaymentId (payment_id_bytes: bytes)
datatype payment_hash = PaymentHash (payment_hash_bytes: bytes)
datatype payment_preimage = PaymentPreimage (payment_preimage_bytes: bytes)
datatype channel_id = ChannelId (channel_id_bytes: bytes)

text \<open>A public key is known by its serialisation.\<close>

datatype public_key = PublicKey (serialize_pubkey: bytes)

lemma newtype_inject [simp]:
  "payment_id_bytes i = payment_id_bytes j \<longleftrightarrow> i = j"
  "payment_hash_bytes h = payment_hash_bytes g \<longleftrightarrow> h = g"
  "payment_preimage_bytes x = payment_preimage_bytes y \<longleftrightarrow> x = y"
  "channel_id_bytes c = channel_id_bytes d \<longleftrightarrow> c = d"
  "serialize_pubkey k = serialize_pubkey l \<longleftrightarrow> k = l"
  by (auto intro: payment_id.expand payment_hash.expand payment_preimage.expand channel_id.expand
      public_key.expand)

datatype network = Bitcoin | Testnet | Testnet4 | Signet | Regtest

datatype socket_address =
    TcpIpV4 bytes u16
  | TcpIpV6 bytes u16
  | OtherAddress bytes

datatype error_kind = NotFound | InvalidData | OtherKind
datatype io_error = IoError (kind: error_kind) (message: string)

datatype decode_error = InvalidValue | UnknownRequiredFeature | OtherDecodeError

datatype api_error =
    APIMisuseError string
  | ChannelUnavailable string
  | OtherAPIError string

text \<open>A transaction: its consensus encoding and its outputs (script and amount).\<close>

type_synonym script = bytes

record transaction =
  tx_encoding :: bytes
  tx_outputs :: "(script \<times> u64) list"

text \<open>The two accessors of a BOLT 11 invoice the program reads, and its text form.\<close>

record bolt11_invoice =
  amount_milli_satoshis :: "u64 option"
  invoice_payment_hash :: bytes
  invoice_text :: string

section \<open>Hexadecimal text and the TLV codec\<close>

text \<open>
  \<open>tlv_write\<close> is LDK's \<open>write_tlv_fields!\<close> on a list of (type, encoded value) fields;
  \<open>tlv_read\<close> is the reading side, told the types it knows and returning the value bytes of the
  fields it found. The other operations are the \<open>Writeable\<close> and \<open>Readable\<close>
  implementations of the field types: 32-byte arrays, optional 32-byte arrays, optional
  \<open>u64\<close>, the variant number of an enum, public keys and socket addresses.
\<close>

record codec =
  hex_encode :: "bytes \<Rightarrow> string"
  hex_decode :: "string \<Rightarrow> string + bytes"
  tlv_write :: "(nat \<times> bytes) list \<Rightarrow> bytes"
  tlv_read :: "nat list \<Rightarrow> bytes \<Rightarrow> decode_error + (nat \<Rightarrow> bytes option)"
  ser_array :: "bytes \<Rightarrow> bytes"
  de_array :: "bytes \<Rightarrow> decode_error + bytes"
  ser_opt_array :: "bytes option \<Rightarrow> bytes"
  de_opt_array :: "bytes \<Rightarrow> decode_error + bytes option"
  ser_opt_u64 :: "u64 option \<Rightarrow> bytes"
  de_opt_u64 :: "bytes \<Rightarrow> decode_error + u64 option"
  ser_variant :: "nat \<Rightarrow> bytes"
  de_variant :: "bytes \<Rightarrow> decode_error + nat"
  ser_pubkey :: "public_key \<Rightarrow> bytes"
  de_pubkey :: "bytes \<Rightarrow> decode_error + public_key"
  ser_address :: "socket_address \<Rightarrow> bytes"
  de_address :: "bytes \<Rightarrow> decode_error + socket_address"

text \<open>Decoding undoes encoding, field by field and for a stream of fields in increasing order.\<close>

definition roundtrips :: "('a \<Rightarrow> 'b) \<Rightarrow> ('b \<Rightarrow> 'e + 'a) \<Rightarrow> bool" where
  "roundtrips enc dec \<longleftrightarrow> (\<forall>x. dec (enc x) = Inr x)"

definition tlv_roundtrips :: "codec \<Rightarrow> bool" where
  "tlv_roundtrips C \<longleftrightarrow>
     (\<forall>fs. sorted_wrt (<) (map fst fs) \<longrightarrow> tlv_read C (map fst fs) (tlv_write C fs) = Inr (map_of fs))"

definition codec_laws :: "codec \<Rightarrow> bool" where
  "codec_laws C \<longleftrightarrow>
     roundtrips (hex_encode C) (hex_decode C) \<and>
     tlv_roundtrips C \<and>
     roundtrips (ser_array C) (de_array C) \<and>
     roundtrips (ser_opt_array C) (de_opt_array C) \<and>
     roundtrips (ser_opt_u64 C) (de_opt_u64 C) \<and>
     roundtrips (ser_variant C) (de_variant C) \<and>
     roundtrips (ser_pubkey C) (de_pubkey C) \<and>
     roundtrips (ser_address C) (de_address C)"

lemma tlv_roundtripsD:
  "tlv_roundtrips C \<Longrightarrow> ts = map fst fs \<Longrightarrow> sorted_wrt (<) ts \<Longrightarrow>
     tlv_read C ts (tlv_write C fs) = Inr (map_of fs)"
  unfolding tlv_roundtrips_def by blast

lemma codec_lawsD:
  assumes "codec_laws C"
  shows "hex_decode C (hex_encode C b) = Inr b"
    and "tlv_roundtrips C"
    and "de_array C (ser_array C b) = Inr b"
    and "de_opt_array C (ser_opt_array C ob) = Inr ob"
    and "de_opt_u64 C (ser_opt_u64 C n) = Inr n"
    and "de_variant C (ser_variant C v) = Inr v"
    and "de_pubkey C (ser_pubkey C k) = Inr k"
    and "de_address C (ser_address C a) = Inr a"
  using assms by (simp_all add: codec_laws_def roundtrips_def)

lemma hex_encode_inject:
  assumes "codec_laws C"
  shows "hex_encode C a = hex_encode C b \<longleftrightarrow> a = b"
  using codec_lawsD(1) [OF assms] by (metis sum.inject(2))

section \<open>The key-value store\<close>

text \<open>
  LDK's \<open>KVStoreSync\<close> (implemented by \<open>FilesystemStore\<close>): values under a primary
  namespace, a secondary namespace and a key.
\<close>

record 'kv kv_ops =
  kv_read :: "'kv \<Rightarrow> string \<Rightarrow> string \<Rightarrow> string \<Rightarrow> io_error + bytes"
  kv_write :: "'kv \<Rightarrow> string \<Rightarrow> string \<Rightarrow> string \<Rightarrow> bytes \<Rightarrow> (io_error + unit) \<times> 'kv"
  kv_remove :: "'kv \<Rightarrow> string \<Rightarrow> string \<Rightarrow> string \<Rightarrow> bool \<Rightarrow> (io_error + unit) \<times> 'kv"
  kv_list :: "'kv \<Rightarrow> string \<Rightarrow> string \<Rightarrow> io_error + string list"

text \<open>
  What its documentation promises: a successful write is read back, a write or a removal changes no
  other key, a removed key reads as not found, and \<open>list\<close> returns every key that holds a
  value. It may also return a key whose lazy removal is pending, and nothing is promised of the
  written key when a write fails: neither is assumed away here.
\<close>

definition kv_write_read :: "'kv kv_ops \<Rightarrow> bool" where
  "kv_write_read K \<longleftrightarrow>
     (\<forall>s p n k v s'. kv_write K s p n k v = (Inr (), s') \<longrightarrow> kv_read K s' p n k = Inr v)"

definition kv_write_frame :: "'kv kv_ops \<Rightarrow> bool" where
  "kv_write_frame K \<longleftrightarrow>
     (\<forall>s p n k v p' n' k'. (p', n', k') \<noteq> (p, n, k) \<longrightarrow>
        kv_read K (snd (kv_write K s p n k v)) p' n' k' = kv_read K s p' n' k')"

definition kv_remove_read :: "'kv kv_ops \<Rightarrow> bool" where
  "kv_remove_read K \<longleftrightarrow>
     (\<forall>s p n k l s'. kv_remove K s p n k l = (Inr (), s') \<longrightarrow>
        (\<exists>m. kv_read K s' p n k = Inl (IoError NotFound m)))"

definition kv_remove_frame :: "'kv kv_ops \<Rightarrow> bool" where
  "kv_remove_frame K \<longleftrightarrow>
     (\<forall>s p n k l p' n' k'. (p', n', k') \<noteq> (p, n, k) \<longrightarrow>
        kv_read K (snd (kv_remove K s p n k l)) p' n' k' = kv_read K s p' n' k')"

definition kv_list_complete :: "'kv kv_ops \<Rightarrow> bool" where
  "kv_list_complete K \<longleftrightarrow>
     (\<forall>s p n ks k v. kv_list K s p n = Inr ks \<longrightarrow> kv_read K s p n k = Inr v \<longrightarrow> k \<in> set ks)"

definition kv_laws :: "'kv kv_ops \<Rightarrow> bool" where
  "kv_laws K \<longleftrightarrow>
     kv_write_read K \<and> kv_write_frame K \<and> kv_remove_read K \<and> kv_remove_frame K \<and>
     kv_list_complete K"

text \<open>
  A failed write leaves every value as it was. This is not among the laws: \<open>FilesystemStore\<close> renames a temporary file, so
  that it holds of a write that fails before the renaming, and not of one that fails after it.
\<close>

definition kv_write_atomic :: "'kv kv_ops \<Rightarrow> bool" where
  "kv_write_atomic K \<longleftrightarrow> (\<forall>s p n k v e s'. kv_write K s p n k v = (Inl e, s') \<longrightarrow> kv_read K s' = kv_read K s)"

lemma kv_write_readD:
  "kv_laws K \<Longrightarrow> kv_write K s p n k v = (Inr (), s') \<Longrightarrow> kv_read K s' p n k = Inr v"
  unfolding kv_laws_def kv_write_read_def by blast

lemma kv_write_frameD:
  "kv_laws K \<Longrightarrow> kv_write K s p n k v = (r, s') \<Longrightarrow> (p', n', k') \<noteq> (p, n, k) \<Longrightarrow>
     kv_read K s' p' n' k' = kv_read K s p' n' k'"
  unfolding kv_laws_def kv_write_frame_def by (metis snd_conv)

lemma kv_remove_readD:
  "kv_laws K \<Longrightarrow> kv_remove K s p n k l = (Inr (), s') \<Longrightarrow>
     \<exists>m. kv_read K s' p n k = Inl (IoError NotFound m)"
  unfolding kv_laws_def kv_remove_read_def by blast

lemma kv_remove_frameD:
  "kv_laws K \<Longrightarrow> kv_remove K s p n k l = (r, s') \<Longrightarrow> (p', n', k') \<noteq> (p, n, k) \<Longrightarrow>
     kv_read K s' p' n' k' = kv_read K s p' n' k'"
  unfolding kv_laws_def kv_remove_frame_def by (metis snd_conv)

lemma kv_list_completeD:
  "kv_laws K \<Longrightarrow> kv_list K s p n = Inr ks \<Longrightarrow> kv_read K s p n k = Inr v \<Longrightarrow> k \<in> set ks"
  unfolding kv_laws_def kv_list_complete_def by blast

text \<open>The node store works over a codec and a key-value store.\<close>

record 'kv store_env =
  the_codec :: codec
  the_kv :: "'kv kv_ops"

definition store_laws :: "'kv store_env \<Rightarrow> bool" where
  "store_laws E \<longleftrightarrow> codec_laws (the_codec E) \<and> kv_laws (the_kv E)"

lemma store_lawsD:
  assumes "store_laws E"
  shows "codec_laws (the_codec E)" and "kv_laws (the_kv E)"
  using assms by (simp_all add: store_laws_def)

end
