(* ===== verification/Namespaces.thy ===== *)
theory Namespaces
  imports External
begin

text \<open>
  Records of one kind kept in one namespace of the key-value store, each under the key its
  identifier gives. The node store keeps two such namespaces, payments and peers; what is common to
  both is proved here once, for any encoding that round-trips and any injective key function.
\<close>

definition ns_view :: "'kv kv_ops \<Rightarrow> string \<Rightarrow> string \<Rightarrow> ('k \<Rightarrow> string) \<Rightarrow> (bytes \<Rightarrow> 'e + 'r) \<Rightarrow>
    'kv \<Rightarrow> 'k \<Rightarrow> 'r option" where
  "ns_view K p n kf dec s k =
     (case kv_read K s p n (kf k) of Inl _ \<Rightarrow> None | Inr data \<Rightarrow> result_ok (dec data))"

definition ns_wf :: "'kv kv_ops \<Rightarrow> string \<Rightarrow> string \<Rightarrow> ('k \<Rightarrow> string) \<Rightarrow> (bytes \<Rightarrow> 'e + 'r) \<Rightarrow>
    ('r \<Rightarrow> 'k) \<Rightarrow> 'kv \<Rightarrow> bool" where
  "ns_wf K p n kf dec idf s \<longleftrightarrow>
     (\<forall>k data. kv_read K s p n k = Inr data \<longrightarrow> (\<exists>r. dec data = Inr r \<and> k = kf (idf r)))"

text \<open>The records a list of keys leads to.\<close>

definition ns_read_set :: "'kv kv_ops \<Rightarrow> string \<Rightarrow> string \<Rightarrow> (bytes \<Rightarrow> 'e + 'r) \<Rightarrow> 'kv \<Rightarrow>
    string list \<Rightarrow> 'r set" where
  "ns_read_set K p n dec s ks =
     {r. \<exists>k \<in> set ks. \<exists>data. kv_read K s p n k = Inr data \<and> dec data = Inr r}"

lemma ns_wfI:
  assumes "\<And>k data. kv_read K s p n k = Inr data \<Longrightarrow> \<exists>r. dec data = Inr r \<and> k = kf (idf r)"
  shows "ns_wf K p n kf dec idf s"
  using assms unfolding ns_wf_def by blast

lemma ns_wfD:
  "ns_wf K p n kf dec idf s \<Longrightarrow> kv_read K s p n k = Inr data \<Longrightarrow>
     \<exists>r. dec data = Inr r \<and> k = kf (idf r)"
  unfolding ns_wf_def by blast

section \<open>Writing\<close>

lemma ns_write_view:
  assumes "kv_laws K" and "dec (enc r) = Inr r"
    and "kv_write K s p n (kf (idf r)) (enc r) = (Inr (), s')"
  shows "ns_view K p n kf dec s' (idf r) = Some r"
  using kv_write_readD [OF assms(1,3)] assms(2) by (simp add: ns_view_def)

lemma ns_write_frame:
  assumes "kv_laws K" and "kv_write K s p n (kf j) v = (res, s')" and "inj kf" and "k \<noteq> j"
  shows "ns_view K p n kf dec s' k = ns_view K p n kf dec s k"
proof -
  have "kf k \<noteq> kf j" using assms(3,4) by (simp add: inj_eq)
  with kv_write_frameD [OF assms(1,2)] show ?thesis by (simp add: ns_view_def)
qed

lemma ns_write_wf:
  assumes "kv_laws K" and "dec (enc r) = Inr r" and "ns_wf K p n kf dec idf s"
    and w: "kv_write K s p n (kf (idf r)) (enc r) = (Inr (), s')"
  shows "ns_wf K p n kf dec idf s'"
proof (rule ns_wfI)
  fix k data
  assume found: "kv_read K s' p n k = Inr data"
  show "\<exists>r. dec data = Inr r \<and> k = kf (idf r)"
  proof (cases "k = kf (idf r)")
    case True
    with found kv_write_readD [OF assms(1) w] assms(2) show ?thesis by auto
  next
    case False
    with found kv_write_frameD [OF assms(1) w] have "kv_read K s p n k = Inr data" by simp
    with assms(3) show ?thesis by (rule ns_wfD)
  qed
qed

text \<open>A write or a removal in another namespace is not seen here.\<close>

lemma ns_write_other:
  assumes "kv_laws K" and "kv_write K s p' n' k v = (res, s')" and "p \<noteq> p'"
  shows "ns_view K p n kf dec s' = ns_view K p n kf dec s"
    and "ns_wf K p n kf dec idf s' = ns_wf K p n kf dec idf s"
  using kv_write_frameD [OF assms(1,2), of p n] assms(3)
  by (simp_all add: ns_view_def ns_wf_def fun_eq_iff)

lemma ns_remove_other:
  assumes "kv_laws K" and "kv_remove K s p' n' k l = (res, s')" and "p \<noteq> p'"
  shows "ns_view K p n kf dec s' = ns_view K p n kf dec s"
    and "ns_wf K p n kf dec idf s' = ns_wf K p n kf dec idf s"
  using kv_remove_frameD [OF assms(1,2), of p n] assms(3)
  by (simp_all add: ns_view_def ns_wf_def fun_eq_iff)

section \<open>Removing\<close>

lemma ns_remove_view:
  assumes "kv_laws K" and "kv_remove K s p n (kf k) l = (Inr (), s')"
  shows "ns_view K p n kf dec s' k = None"
  using kv_remove_readD [OF assms] by (auto simp: ns_view_def)

lemma ns_remove_frame:
  assumes "kv_laws K" and "kv_remove K s p n (kf j) l = (res, s')" and "inj kf" and "k \<noteq> j"
  shows "ns_view K p n kf dec s' k = ns_view K p n kf dec s k"
proof -
  have "kf k \<noteq> kf j" using assms(3,4) by (simp add: inj_eq)
  with kv_remove_frameD [OF assms(1,2)] show ?thesis by (simp add: ns_view_def)
qed

lemma ns_remove_wf:
  assumes "kv_laws K" and "ns_wf K p n kf dec idf s"
    and rm: "kv_remove K s p n j l = (Inr (), s')"
  shows "ns_wf K p n kf dec idf s'"
proof (rule ns_wfI)
  fix k data
  assume found: "kv_read K s' p n k = Inr data"
  with kv_remove_readD [OF assms(1) rm] have "k \<noteq> j" by auto
  with found kv_remove_frameD [OF assms(1) rm] have "kv_read K s p n k = Inr data" by simp
  with assms(2) show "\<exists>r. dec data = Inr r \<and> k = kf (idf r)" by (rule ns_wfD)
qed

section \<open>Identifiers and listings\<close>

lemma ns_view_id:
  assumes "ns_wf K p n kf dec idf s" and "inj kf" and "ns_view K p n kf dec s k = Some r"
  shows "idf r = k"
  using assms by (fastforce simp: ns_view_def inj_eq dest: ns_wfD split: sum.splits)

lemma ns_view_Some_iff:
  "ns_view K p n kf dec s k = Some r \<longleftrightarrow>
     (\<exists>data. kv_read K s p n (kf k) = Inr data \<and> dec data = Inr r)"
  by (auto simp: ns_view_def split: sum.splits)

lemma ns_listing:
  assumes "kv_laws K" and "ns_wf K p n kf dec idf s" and "kv_list K s p n = Inr ks"
  shows "ns_read_set K p n dec s ks = ran (ns_view K p n kf dec s)"
proof (intro set_eqI iffI)
  fix r
  assume "r \<in> ns_read_set K p n dec s ks"
  then obtain k data where "kv_read K s p n k = Inr data" "dec data = Inr r"
    by (auto simp: ns_read_set_def)
  moreover from ns_wfD [OF assms(2) this(1)] this(2) have "k = kf (idf r)" by auto
  ultimately have "ns_view K p n kf dec s (idf r) = Some r" by (simp add: ns_view_Some_iff)
  then show "r \<in> ran (ns_view K p n kf dec s)" by (rule ranI)
next
  fix r
  assume "r \<in> ran (ns_view K p n kf dec s)"
  then obtain k data where "kv_read K s p n (kf k) = Inr data" "dec data = Inr r"
    by (auto simp: ran_def ns_view_Some_iff)
  with kv_list_completeD [OF assms(1,3)] show "r \<in> ns_read_set K p n dec s ks"
    by (auto simp: ns_read_set_def)
qed

end
