(* ===== verification/Repository.thy ===== *)
theory Repository
  imports Prelude
begin

text \<open>
  The interface between the node store and its clients (the event handler, the payment operations
  of the node, the peer list kept across restarts): a keyed collection of records whose operations
  may fail. A provider gives \<open>put\<close> together with an abstraction \<open>view\<close> of its state as a
  finite map; the laws say that \<open>put\<close> is a map update when it succeeds and touches no other
  key whatever it returns. Clients use the lemmas proved here once.
\<close>

text \<open>A loop over records that goes on after a failed write.\<close>

fun put_each :: "('e \<Rightarrow> 's \<Rightarrow> 'r \<Rightarrow> ('err + unit) \<times> 's) \<Rightarrow> 'e \<Rightarrow> 's \<Rightarrow> 'r list \<Rightarrow> 's" where
  "put_each put e s [] = s"
| "put_each put e s (r # rs) = put_each put e (snd (put e s r)) rs"

fun all_puts_ok :: "('e \<Rightarrow> 's \<Rightarrow> 'r \<Rightarrow> ('err + unit) \<times> 's) \<Rightarrow> 'e \<Rightarrow> 's \<Rightarrow> 'r list \<Rightarrow> bool" where
  "all_puts_ok put e s [] = True"
| "all_puts_ok put e s (r # rs) =
     (fst (put e s r) = Inr () \<and> all_puts_ok put e (snd (put e s r)) rs)"

locale keyed_repo =
  fixes laws :: "'e \<Rightarrow> bool"
    and wf :: "'e \<Rightarrow> 's \<Rightarrow> bool"
    and put :: "'e \<Rightarrow> 's \<Rightarrow> 'r \<Rightarrow> ('err + unit) \<times> 's"
    and view :: "'e \<Rightarrow> 's \<Rightarrow> 'k \<Rightarrow> 'r option"
    and key :: "'r \<Rightarrow> 'k"
  assumes put_view: "laws e \<Longrightarrow> put e s r = (Inr (), s') \<Longrightarrow> view e s' (key r) = Some r"
    and put_frame: "laws e \<Longrightarrow> put e s r = (res, s') \<Longrightarrow> k \<noteq> key r \<Longrightarrow> view e s' k = view e s k"
    and put_wf: "laws e \<Longrightarrow> wf e s \<Longrightarrow> put e s r = (Inr (), s') \<Longrightarrow> wf e s'"
    and view_key: "laws e \<Longrightarrow> wf e s \<Longrightarrow> view e s k = Some r \<Longrightarrow> key r = k"
begin

lemma put_refines:
  assumes "laws e" and "put e s r = (Inr (), s')"
  shows "view e s' = (view e s)(key r \<mapsto> r)"
  using put_view [OF assms] put_frame [OF assms] by (auto simp: fun_eq_iff)

text \<open>Read a record, change it but not its key, write it back.\<close>

lemma modify_refines:
  assumes "laws e" and "wf e s" and "view e s k = Some r" and "key r' = key r"
    and "put e s r' = (Inr (), s')"
  shows "view e s' = (view e s)(k \<mapsto> r')" and "wf e s'"
proof -
  from assms(1-3) have "key r = k" by (rule view_key)
  with assms(4) have "key r' = k" by simp
  with put_refines [OF assms(1,5)] show "view e s' = (view e s)(k \<mapsto> r')" by simp
  from assms(1,2,5) show "wf e s'" by (rule put_wf)
qed

lemma put_each_frame:
  "laws e \<Longrightarrow> k \<notin> key ` set rs \<Longrightarrow> view e (put_each put e s rs) k = view e s k"
proof (induction rs arbitrary: s)
  case Nil
  then show ?case by simp
next
  case (Cons r rs)
  then have "view e (snd (put e s r)) k = view e s k"
    by (intro put_frame [where res = "fst (put e s r)"]) auto
  with Cons show ?case by simp
qed

lemma put_each_refines:
  "laws e \<Longrightarrow> all_puts_ok put e s rs \<Longrightarrow>
     view e (put_each put e s rs) = view e s ++ map_of (rev (map (\<lambda>r. (key r, r)) rs))"
proof (induction rs arbitrary: s)
  case Nil
  then show ?case by simp
next
  case (Cons r rs)
  then have "put e s r = (Inr (), snd (put e s r))" by (simp add: prod_eq_iff)
  from put_refines [OF Cons.prems(1) this]
  have "view e (snd (put e s r)) = (view e s)(key r \<mapsto> r)" .
  with Cons show ?case by (simp add: map_add_def fun_eq_iff split: option.splits)
qed

lemma put_each_wf:
  "laws e \<Longrightarrow> wf e s \<Longrightarrow> all_puts_ok put e s rs \<Longrightarrow> wf e (put_each put e s rs)"
proof (induction rs arbitrary: s)
  case Nil
  then show ?case by simp
next
  case (Cons r rs)
  then have "put e s r = (Inr (), snd (put e s r))" by (simp add: prod_eq_iff)
  with Cons show ?case by (auto dest: put_wf)
qed

text \<open>With distinct keys, every record written is found under its key afterwards.\<close>

lemma put_each_found:
  assumes "laws e" and "all_puts_ok put e s rs" and "distinct (map key rs)" and "r \<in> set rs"
  shows "view e (put_each put e s rs) (key r) = Some r"
proof -
  have "distinct (map fst (rev (map (\<lambda>r. (key r, r)) rs)))"
    using assms(3) by (simp add: rev_map comp_def flip: rev_map)
  moreover have "(key r, r) \<in> set (rev (map (\<lambda>r. (key r, r)) rs))"
    using assms(4) by auto
  ultimately have "map_of (rev (map (\<lambda>r. (key r, r)) rs)) (key r) = Some r"
    by (rule map_of_is_SomeI)
  with put_each_refines [OF assms(1,2)] show ?thesis by simp
qed

end

text \<open>Removal and listing.\<close>

locale listed_repo = keyed_repo laws wf put view key
  for laws :: "'e \<Rightarrow> bool"
    and wf :: "'e \<Rightarrow> 's \<Rightarrow> bool"
    and put :: "'e \<Rightarrow> 's \<Rightarrow> 'r \<Rightarrow> ('err + unit) \<times> 's"
    and view :: "'e \<Rightarrow> 's \<Rightarrow> 'k \<Rightarrow> 'r option"
    and key :: "'r \<Rightarrow> 'k" +
  fixes del :: "'e \<Rightarrow> 's \<Rightarrow> 'k \<Rightarrow> ('err + unit) \<times> 's"
    and elems :: "'e \<Rightarrow> 's \<Rightarrow> 'err + 'r list"
  assumes del_view: "laws e \<Longrightarrow> del e s k = (Inr (), s') \<Longrightarrow> view e s' k = None"
    and del_frame: "laws e \<Longrightarrow> del e s k = (res, s') \<Longrightarrow> k' \<noteq> k \<Longrightarrow> view e s' k' = view e s k'"
    and del_wf: "laws e \<Longrightarrow> wf e s \<Longrightarrow> del e s k = (Inr (), s') \<Longrightarrow> wf e s'"
    and elems_set: "laws e \<Longrightarrow> wf e s \<Longrightarrow> elems e s = Inr rs \<Longrightarrow> set rs = ran (view e s)"
begin

lemma del_refines:
  assumes "laws e" and "del e s k = (Inr (), s')"
  shows "view e s' = (view e s)(k := None)"
  using del_view [OF assms] del_frame [OF assms] by (auto simp: fun_eq_iff)

text \<open>What was put and not removed is listed; what was removed is not.\<close>

lemma put_then_listed:
  assumes "laws e" and "wf e s" and "put e s r = (Inr (), s')" and "elems e s' = Inr rs"
  shows "r \<in> set rs"
  using elems_set [OF assms(1) put_wf [OF assms(1-3)] assms(4)] put_view [OF assms(1,3)]
  by (auto simp: ran_def)

lemma del_then_not_listed:
  assumes "laws e" and "wf e s" and "del e s k = (Inr (), s')" and "elems e s' = Inr rs"
    and "r \<in> set rs"
  shows "key r \<noteq> k"
proof
  assume "key r = k"
  have wf': "wf e s'" using assms(1-3) by (rule del_wf)
  with assms elems_set obtain k' where k': "view e s' k' = Some r"
    by (fastforce simp: ran_def)
  then have "key r = k'" using view_key [OF assms(1) wf'] by simp
  with \<open>key r = k\<close> k' del_view [OF assms(1,3)] show False by simp
qed

end

end
