(* ===== verification/Reference_Store.thy ===== *)
theory Reference_Store
  imports External
begin

text \<open>
  A concrete codec and a concrete key-value store that satisfy the hypotheses \<open>codec_laws\<close> and
  \<open>kv_laws\<close>. They are not the third-party implementations; they show that the hypotheses can
  hold, and the witnesses of the theorems are evaluated on them. The store has two switches for
  the behaviours its documentation leaves open: writes can fail, and a lazily removed key can still be
  listed.
\<close>

section \<open>Hexadecimal text\<close>

definition hex_digit :: "nat \<Rightarrow> char" where
  "hex_digit n = (if n < 10 then char_of (48 + n) else char_of (87 + n))"

definition hex_value :: "char \<Rightarrow> nat option" where
  "hex_value c =
     (let n = of_char c :: nat in
      if 48 \<le> n \<and> n < 58 then Some (n - 48)
      else if 97 \<le> n \<and> n < 103 then Some (n - 87) else None)"

fun ref_hex_encode :: "bytes \<Rightarrow> string" where
  "ref_hex_encode [] = []"
| "ref_hex_encode (b # bs) =
     hex_digit (unat b div 16) # hex_digit (unat b mod 16) # ref_hex_encode bs"

fun ref_hex_decode :: "string \<Rightarrow> string + bytes" where
  "ref_hex_decode [] = Inr []"
| "ref_hex_decode [c] = Inl ''Odd number of digits''"
| "ref_hex_decode (c # d # cs) =
     (case (hex_value c, hex_value d) of
        (Some h, Some l) \<Rightarrow> and_then (ref_hex_decode cs) (\<lambda>bs. Inr (of_nat (16 * h + l) # bs))
      | _ \<Rightarrow> Inl ''Invalid character'')"

lemma hex_value_digit: "n < 16 \<Longrightarrow> hex_value (hex_digit n) = Some n"
  by (auto simp: hex_value_def hex_digit_def Let_def)

lemma unat_u8_bound: "unat (b :: u8) < 256"
proof -
  have "unat b < 2 ^ LENGTH(8)" by (rule unsigned_less)
  then show ?thesis by simp
qed

lemma ref_hex_roundtrip: "ref_hex_decode (ref_hex_encode bs) = Inr bs"
proof (induction bs)
  case Nil
  then show ?case by simp
next
  case (Cons b bs)
  have "unat b div 16 < 16" using unat_u8_bound [of b] by linarith
  moreover have "unat b mod 16 < 16" by simp
  moreover have "(of_nat (16 * (unat b div 16) + unat b mod 16) :: u8) = b"
    by (simp only: mult_div_mod_eq of_nat_unat ucast_id)
  ultimately show ?case using Cons by (simp add: hex_value_digit del: of_nat_add of_nat_mult)
qed

section \<open>Numbers and TLV streams\<close>

fun varint :: "nat \<Rightarrow> bytes" where
  "varint n = (if n < 128 then [of_nat n] else of_nat (128 + n mod 128) # varint (n div 128))"

fun unvarint :: "bytes \<Rightarrow> (nat \<times> bytes) option" where
  "unvarint [] = None"
| "unvarint (b # bs) =
     (if unat b < 128 then Some (unat b, bs)
      else map_option (\<lambda>(m, rest). (unat b - 128 + 128 * m, rest)) (unvarint bs))"

declare varint.simps [simp del]

lemma unat_of_nat_u8: "n < 256 \<Longrightarrow> unat (of_nat n :: u8) = n"
  by (simp add: unat_of_nat)

lemma unvarint_varint: "unvarint (varint n @ rest) = Some (n, rest)"
proof (induction n rule: varint.induct)
  case (1 n)
  show ?case
  proof (cases "n < 128")
    case True
    then show ?thesis by (simp add: varint.simps [of n] unat_of_nat_u8)
  next
    case False
    have "unat (of_nat (128 + n mod 128) :: u8) = 128 + n mod 128"
      by (rule unat_of_nat_u8) simp
    with 1 [OF False] False show ?thesis
      by (simp add: varint.simps [of n] mod_mult_div_eq del: of_nat_add)
  qed
qed

definition ref_number :: "bytes \<Rightarrow> decode_error + nat" where
  "ref_number b = (case unvarint b of None \<Rightarrow> Inl OtherDecodeError | Some (n, _) \<Rightarrow> Inr n)"

lemma ref_number_varint [simp]: "ref_number (varint n) = Inr n"
  using unvarint_varint [of n "[]"] by (simp add: ref_number_def)

fun ref_tlv_write :: "(nat \<times> bytes) list \<Rightarrow> bytes" where
  "ref_tlv_write [] = []"
| "ref_tlv_write ((t, v) # fs) = varint t @ varint (length v) @ v @ ref_tlv_write fs"

fun ref_tlv_parse :: "nat \<Rightarrow> bytes \<Rightarrow> (nat \<times> bytes) list option" where
  "ref_tlv_parse fuel [] = Some []"
| "ref_tlv_parse 0 (b # bs) = None"
| "ref_tlv_parse (Suc fuel) (b # bs) =
     Option.bind (unvarint (b # bs)) (\<lambda>(t, r1).
     Option.bind (unvarint r1) (\<lambda>(l, r2).
       if length r2 < l then None
       else map_option ((#) (t, take l r2)) (ref_tlv_parse fuel (drop l r2))))"

definition ref_tlv_read :: "nat list \<Rightarrow> bytes \<Rightarrow> decode_error + (nat \<Rightarrow> bytes option)" where
  "ref_tlv_read known data =
     (case ref_tlv_parse (length data) data of
        None \<Rightarrow> Inl OtherDecodeError
      | Some fs \<Rightarrow>
          if list_ex (\<lambda>(t, v). even t \<and> t \<notin> set known) fs then Inl UnknownRequiredFeature
          else Inr (map_of fs))"

lemma varint_not_Nil: "varint n \<noteq> []"
  by (simp add: varint.simps)

lemma length_ref_tlv_write: "length fs \<le> length (ref_tlv_write fs)"
proof (induction fs rule: ref_tlv_write.induct)
  case (2 t v fs)
  then show ?case using varint_not_Nil [of t] by (cases "varint t") auto
qed simp

lemma ref_tlv_parse_write: "length fs \<le> fuel \<Longrightarrow> ref_tlv_parse fuel (ref_tlv_write fs) = Some fs"
proof (induction fs arbitrary: fuel rule: ref_tlv_write.induct)
  case (2 t v fs)
  from "2.prems" obtain fuel' where fuel: "fuel = Suc fuel'" "length fs \<le> fuel'"
    by (cases fuel) auto
  obtain b bs where data: "ref_tlv_write ((t, v) # fs) = b # bs"
    using varint_not_Nil [of t] by (cases "varint t") auto
  have "unvarint (b # bs) = Some (t, varint (length v) @ v @ ref_tlv_write fs)"
    unfolding data [symmetric] by (simp add: unvarint_varint)
  then show ?case
    unfolding data fuel(1) using "2.IH" [OF fuel(2)] by (simp add: unvarint_varint del: unvarint.simps)
qed simp

lemma ref_tlv_roundtrip:
  "ref_tlv_read (map fst fs) (ref_tlv_write fs) = Inr (map_of fs)"
  using ref_tlv_parse_write [OF length_ref_tlv_write, of fs]
  by (force simp: ref_tlv_read_def list_ex_iff)

section \<open>Field encodings\<close>

fun ref_opt_array :: "bytes option \<Rightarrow> bytes" where
  "ref_opt_array None = [0]"
| "ref_opt_array (Some b) = 1 # b"

fun ref_de_opt_array :: "bytes \<Rightarrow> decode_error + bytes option" where
  "ref_de_opt_array [] = Inl OtherDecodeError"
| "ref_de_opt_array (t # b) = Inr (if t = 0 then None else Some b)"

fun ref_opt_u64 :: "u64 option \<Rightarrow> bytes" where
  "ref_opt_u64 None = [0]"
| "ref_opt_u64 (Some n) = 1 # varint (unat n)"

fun ref_de_opt_u64 :: "bytes \<Rightarrow> decode_error + u64 option" where
  "ref_de_opt_u64 [] = Inl OtherDecodeError"
| "ref_de_opt_u64 (t # b) =
     (if t = 0 then Inr None else and_then (ref_number b) (\<lambda>n. Inr (Some (of_nat n))))"

fun ref_address :: "socket_address \<Rightarrow> bytes" where
  "ref_address (TcpIpV4 a p) = 1 # varint (unat p) @ a"
| "ref_address (TcpIpV6 a p) = 2 # varint (unat p) @ a"
| "ref_address (OtherAddress b) = 3 # b"

fun ref_de_address :: "bytes \<Rightarrow> decode_error + socket_address" where
  "ref_de_address [] = Inl OtherDecodeError"
| "ref_de_address (t # b) =
     (if t = 3 then Inr (OtherAddress b)
      else case unvarint b of
        None \<Rightarrow> Inl OtherDecodeError
      | Some (p, a) \<Rightarrow> Inr (if t = 1 then TcpIpV4 a (of_nat p) else TcpIpV6 a (of_nat p)))"

definition ref_codec :: codec where
  "ref_codec =
     \<lparr>hex_encode = ref_hex_encode, hex_decode = ref_hex_decode,
      tlv_write = ref_tlv_write, tlv_read = ref_tlv_read,
      ser_array = (\<lambda>b. b), de_array = Inr,
      ser_opt_array = ref_opt_array, de_opt_array = ref_de_opt_array,
      ser_opt_u64 = ref_opt_u64, de_opt_u64 = ref_de_opt_u64,
      ser_variant = varint, de_variant = ref_number,
      ser_pubkey = serialize_pubkey, de_pubkey = (\<lambda>b. Inr (PublicKey b)),
      ser_address = ref_address, de_address = ref_de_address\<rparr>"

lemma ref_codec_laws: "codec_laws ref_codec"
proof -
  have "ref_de_opt_array (ref_opt_array b) = Inr b" for b by (cases b) simp_all
  moreover have "ref_de_opt_u64 (ref_opt_u64 n) = Inr n" for n by (cases n) simp_all
  moreover have "ref_de_address (ref_address a) = Inr a" for a
    by (cases a) (simp_all add: unvarint_varint)
  ultimately show ?thesis
    by (simp add: codec_laws_def roundtrips_def tlv_roundtrips_def ref_codec_def
        ref_hex_roundtrip ref_tlv_roundtrip)
qed

section \<open>A key-value store in memory\<close>

record mem_store =
  entries :: "((string \<times> string \<times> string) \<times> bytes) list"
  stale :: "(string \<times> string \<times> string) list"
  write_fails :: bool

definition mem_read :: "mem_store \<Rightarrow> string \<Rightarrow> string \<Rightarrow> string \<Rightarrow> io_error + bytes" where
  "mem_read s p n k =
     (case map_of (entries s) (p, n, k) of
        None \<Rightarrow> Inl (IoError NotFound ''not found'') | Some v \<Rightarrow> Inr v)"

definition mem_write :: "mem_store \<Rightarrow> string \<Rightarrow> string \<Rightarrow> string \<Rightarrow> bytes \<Rightarrow> (io_error + unit) \<times> mem_store" where
  "mem_write s p n k v =
     (if write_fails s then (Inl (IoError OtherKind ''write failed''), s)
      else (Inr (), s\<lparr>entries := ((p, n, k), v) # filter (\<lambda>e. fst e \<noteq> (p, n, k)) (entries s)\<rparr>))"

definition mem_remove :: "mem_store \<Rightarrow> string \<Rightarrow> string \<Rightarrow> string \<Rightarrow> bool \<Rightarrow> (io_error + unit) \<times> mem_store" where
  "mem_remove s p n k lazily =
     (Inr (), s\<lparr>entries := filter (\<lambda>e. fst e \<noteq> (p, n, k)) (entries s),
                stale := (if lazily then (p, n, k) # stale s else stale s)\<rparr>)"

definition mem_list :: "mem_store \<Rightarrow> string \<Rightarrow> string \<Rightarrow> io_error + string list" where
  "mem_list s p n =
     Inr (remdups (map (\<lambda>(p', n', k). k)
       (filter (\<lambda>(p', n', k). p' = p \<and> n' = n) (map fst (entries s) @ stale s))))"

definition mem_kv :: "mem_store kv_ops" where
  "mem_kv = \<lparr>kv_read = mem_read, kv_write = mem_write, kv_remove = mem_remove, kv_list = mem_list\<rparr>"

lemma map_of_filter_key:
  "map_of (filter (\<lambda>e. fst e \<noteq> k) xs) k' = (if k' = k then None else map_of xs k')"
  by (induction xs) auto

lemmas mem_defs = mem_kv_def mem_read_def mem_write_def mem_remove_def mem_list_def

lemma mem_write_read: "kv_write_read mem_kv"
  by (simp add: kv_write_read_def mem_defs)

lemma mem_write_frame: "kv_write_frame mem_kv"
  unfolding kv_write_frame_def by (intro allI impI, simp add: mem_defs map_of_filter_key, blast)

lemma mem_remove_read: "kv_remove_read mem_kv"
  unfolding kv_remove_read_def by (intro allI impI) (auto simp: mem_defs map_of_filter_key)

lemma mem_remove_frame: "kv_remove_frame mem_kv"
  unfolding kv_remove_frame_def by (intro allI impI, simp add: mem_defs map_of_filter_key, blast)

lemma mem_list_complete: "kv_list_complete mem_kv"
  unfolding kv_list_complete_def
proof (intro allI impI)
  fix s p n ks k v
  assume l: "kv_list mem_kv s p n = Inr ks" and r: "kv_read mem_kv s p n k = Inr v"
  from r have "map_of (entries s) (p, n, k) = Some v"
    by (simp add: mem_kv_def mem_read_def split: option.splits)
  then have "(p, n, k) \<in> fst ` set (entries s)"
    by (rule image_eqI [OF _ map_of_SomeD, rotated]) simp
  then have "(p, n, k) \<in> set (filter (\<lambda>(p', n', k). p' = p \<and> n' = n) (map fst (entries s) @ stale s))"
    by simp
  from imageI [OF this, of "\<lambda>(p', n', k). k"]
  have "k \<in> (\<lambda>(p', n', k). k) `
      set (filter (\<lambda>(p', n', k). p' = p \<and> n' = n) (map fst (entries s) @ stale s))"
    by (simp only: prod.case)
  moreover from l have "ks = remdups (map (\<lambda>(p', n', k). k)
      (filter (\<lambda>(p', n', k). p' = p \<and> n' = n) (map fst (entries s) @ stale s)))"
    by (simp add: mem_kv_def mem_list_def)
  ultimately show "k \<in> set ks" by (simp only: set_remdups set_map)
qed

lemma mem_kv_laws: "kv_laws mem_kv"
  by (simp add: kv_laws_def mem_write_read mem_write_frame mem_remove_read mem_remove_frame
      mem_list_complete)

definition ref_env :: "mem_store store_env" where
  "ref_env = \<lparr>the_codec = ref_codec, the_kv = mem_kv\<rparr>"

lemma ref_env_laws: "store_laws ref_env"
  by (simp add: store_laws_def ref_env_def ref_codec_laws mem_kv_laws)

definition empty_store :: mem_store where
  "empty_store = \<lparr>entries = [], stale = [], write_fails = False\<rparr>"

end
