(* ===== verification/Storage.thy ===== *)
theory Storage
  imports Namespaces Repository Reference_Store
begin

text \<open>
  \<open>src/storage.rs\<close>: payments and peers, their TLV encoding, and the node store over the
  key-value store. The store's abstraction is a pair of finite maps, from payment ids to payments
  and from public keys to peers; every operation is shown to be the corresponding map operation.
\<close>

section \<open>Data\<close>

datatype payment_direction = Inbound | Outbound
datatype payment_status = Pending | Succeeded | Failed

record payment =
  payment_id :: payment_id
  payment_hash :: payment_hash
  payment_preimage :: "payment_preimage option"
  direction :: payment_direction
  amount_msat :: "u64 option"
  fee_paid_msat :: "u64 option"
  status :: payment_status

record peer_info =
  node_id :: public_key
  address :: socket_address

definition PAYMENTS_PRIMARY_NAMESPACE :: string where
  "PAYMENTS_PRIMARY_NAMESPACE = ''payments''"

definition PAYMENTS_SECONDARY_NAMESPACE :: string where
  "PAYMENTS_SECONDARY_NAMESPACE = ''''"

definition PEERS_PRIMARY_NAMESPACE :: string where
  "PEERS_PRIMARY_NAMESPACE = ''peers''"

definition PEERS_SECONDARY_NAMESPACE :: string where
  "PEERS_SECONDARY_NAMESPACE = ''''"

lemmas namespace_defs =
  PAYMENTS_PRIMARY_NAMESPACE_def PAYMENTS_SECONDARY_NAMESPACE_def
  PEERS_PRIMARY_NAMESPACE_def PEERS_SECONDARY_NAMESPACE_def

section \<open>Encoding\<close>

text \<open>The variant numbers are those of the two \<open>impl_writeable_tlv_based_enum!\<close> uses.\<close>

fun direction_variant :: "payment_direction \<Rightarrow> nat" where
  "direction_variant Inbound = 0"
| "direction_variant Outbound = 2"

definition direction_of_variant :: "nat \<Rightarrow> decode_error + payment_direction" where
  "direction_of_variant v =
     (if v = 0 then Inr Inbound else if v = 2 then Inr Outbound else Inl UnknownRequiredFeature)"

fun status_variant :: "payment_status \<Rightarrow> nat" where
  "status_variant Pending = 0"
| "status_variant Succeeded = 2"
| "status_variant Failed = 4"

definition status_of_variant :: "nat \<Rightarrow> decode_error + payment_status" where
  "status_of_variant v =
     (if v = 0 then Inr Pending else if v = 2 then Inr Succeeded
      else if v = 4 then Inr Failed else Inl UnknownRequiredFeature)"

definition required_field :: "(nat \<Rightarrow> bytes option) \<Rightarrow> nat \<Rightarrow> (bytes \<Rightarrow> decode_error + 'a) \<Rightarrow> decode_error + 'a" where
  "required_field f t dec = and_then (ok_or (f t) InvalidValue) dec"

definition payment_write :: "codec \<Rightarrow> payment \<Rightarrow> bytes" where
  "payment_write C p = tlv_write C
     [(0, ser_array C (payment_id_bytes (payment_id p))),
      (2, ser_array C (payment_hash_bytes (payment_hash p))),
      (4, ser_opt_array C (map_option payment_preimage_bytes (payment_preimage p))),
      (6, ser_variant C (direction_variant (direction p))),
      (8, ser_opt_u64 C (amount_msat p)),
      (10, ser_opt_u64 C (fee_paid_msat p)),
      (12, ser_variant C (status_variant (status p)))]"

definition payment_read :: "codec \<Rightarrow> bytes \<Rightarrow> decode_error + payment" where
  "payment_read C data =
     and_then (tlv_read C [0, 2, 4, 6, 8, 10, 12] data) (\<lambda>f.
     and_then (required_field f 0 (de_array C)) (\<lambda>id.
     and_then (required_field f 2 (de_array C)) (\<lambda>hash.
     and_then (required_field f 4 (de_opt_array C)) (\<lambda>preimage.
     and_then (required_field f 6 (\<lambda>b. and_then (de_variant C b) direction_of_variant)) (\<lambda>dir.
     and_then (required_field f 8 (de_opt_u64 C)) (\<lambda>amount.
     and_then (required_field f 10 (de_opt_u64 C)) (\<lambda>fee.
     and_then (required_field f 12 (\<lambda>b. and_then (de_variant C b) status_of_variant)) (\<lambda>st.
     Inr \<lparr>payment_id = PaymentId id, payment_hash = PaymentHash hash,
          payment_preimage = map_option PaymentPreimage preimage, direction = dir,
          amount_msat = amount, fee_paid_msat = fee, status = st\<rparr>))))))))"

definition peer_info_write :: "codec \<Rightarrow> peer_info \<Rightarrow> bytes" where
  "peer_info_write C p =
     tlv_write C [(0, ser_pubkey C (node_id p)), (2, ser_address C (address p))]"

definition peer_info_read :: "codec \<Rightarrow> bytes \<Rightarrow> decode_error + peer_info" where
  "peer_info_read C data =
     and_then (tlv_read C [0, 2] data) (\<lambda>f.
     and_then (required_field f 0 (de_pubkey C)) (\<lambda>id.
     and_then (required_field f 2 (de_address C)) (\<lambda>addr.
     Inr \<lparr>node_id = id, address = addr\<rparr>)))"

text \<open>The JSON form of a payment that the socket server sends.\<close>

fun direction_json :: "payment_direction \<Rightarrow> json" where
  "direction_json Inbound = JString ''Inbound''"
| "direction_json Outbound = JString ''Outbound''"

fun status_json :: "payment_status \<Rightarrow> json" where
  "status_json Pending = JString ''Pending''"
| "status_json Succeeded = JString ''Succeeded''"
| "status_json Failed = JString ''Failed''"

definition payment_json :: "payment \<Rightarrow> json" where
  "payment_json p = JObject
     [(''payment_id'', json_bytes (payment_id_bytes (payment_id p))),
      (''payment_hash'', json_bytes (payment_hash_bytes (payment_hash p))),
      (''payment_preimage'', json_option json_bytes (map_option payment_preimage_bytes (payment_preimage p))),
      (''direction'', direction_json (direction p)),
      (''amount_msat'', json_option json_u64 (amount_msat p)),
      (''fee_paid_msat'', json_option json_u64 (fee_paid_msat p)),
      (''status'', status_json (status p))]"

section \<open>The node store\<close>

definition could_not_deserialize :: "string \<Rightarrow> decode_error \<Rightarrow> io_error" where
  "could_not_deserialize what _ = IoError InvalidData (''Could not deserialize '' @ what)"

definition payment_key :: "'kv store_env \<Rightarrow> payment_id \<Rightarrow> string" where
  "payment_key E i = hex_encode (the_codec E) (payment_id_bytes i)"

definition peer_key :: "'kv store_env \<Rightarrow> public_key \<Rightarrow> string" where
  "peer_key E k = hex_encode (the_codec E) (serialize_pubkey k)"

definition add_payment :: "'kv store_env \<Rightarrow> 'kv \<Rightarrow> payment \<Rightarrow> (io_error + unit) \<times> 'kv" where
  [store_defs]: "add_payment E s p =
     kv_write (the_kv E) s PAYMENTS_PRIMARY_NAMESPACE PAYMENTS_SECONDARY_NAMESPACE
       (payment_key E (payment_id p)) (payment_write (the_codec E) p)"

definition update_payment :: "'kv store_env \<Rightarrow> 'kv \<Rightarrow> payment \<Rightarrow> (io_error + unit) \<times> 'kv" where
  [store_defs]: "update_payment E s p = add_payment E s p"

definition get_payment :: "'kv store_env \<Rightarrow> 'kv \<Rightarrow> payment_id \<Rightarrow> io_error + payment" where
  [store_defs]: "get_payment E s i =
     (case kv_read (the_kv E) s PAYMENTS_PRIMARY_NAMESPACE PAYMENTS_SECONDARY_NAMESPACE (payment_key E i) of
        Inl e \<Rightarrow> Inl e
      | Inr data \<Rightarrow> map_err (could_not_deserialize ''payment'') (payment_read (the_codec E) data))"

text \<open>The loop of \<open>list_payments\<close>: a key that cannot be read is skipped, a value that cannot
  be decoded ends the listing.\<close>

fun list_payments_loop :: "'kv store_env \<Rightarrow> 'kv \<Rightarrow> string list \<Rightarrow> payment list \<Rightarrow> io_error + payment list" where
  "list_payments_loop E s [] payments = Inr payments"
| "list_payments_loop E s (k # ks) payments =
     (case kv_read (the_kv E) s PAYMENTS_PRIMARY_NAMESPACE PAYMENTS_SECONDARY_NAMESPACE k of
        Inr data \<Rightarrow>
          and_then (map_err (could_not_deserialize ''payment'') (payment_read (the_codec E) data))
            (\<lambda>payment. list_payments_loop E s ks (payments @ [payment]))
      | Inl _ \<Rightarrow> list_payments_loop E s ks payments)"

definition list_payments :: "'kv store_env \<Rightarrow> 'kv \<Rightarrow> io_error + payment list" where
  "list_payments E s =
     and_then (kv_list (the_kv E) s PAYMENTS_PRIMARY_NAMESPACE PAYMENTS_SECONDARY_NAMESPACE)
       (\<lambda>keys. list_payments_loop E s keys [])"

definition remove_payment :: "'kv store_env \<Rightarrow> 'kv \<Rightarrow> payment_id \<Rightarrow> (io_error + unit) \<times> 'kv" where
  [store_defs]: "remove_payment E s i =
     kv_remove (the_kv E) s PAYMENTS_PRIMARY_NAMESPACE PAYMENTS_SECONDARY_NAMESPACE
       (payment_key E i) True"

definition list_payments_by_status :: "'kv store_env \<Rightarrow> 'kv \<Rightarrow> payment_status \<Rightarrow> io_error + payment list" where
  "list_payments_by_status E s st =
     and_then (list_payments E s) (\<lambda>all_payments. Inr (filter (\<lambda>p. status p = st) all_payments))"

definition add_peer :: "'kv store_env \<Rightarrow> 'kv \<Rightarrow> peer_info \<Rightarrow> (io_error + unit) \<times> 'kv" where
  [store_defs]: "add_peer E s p =
     kv_write (the_kv E) s PEERS_PRIMARY_NAMESPACE PEERS_SECONDARY_NAMESPACE
       (peer_key E (node_id p)) (peer_info_write (the_codec E) p)"

definition remove_peer :: "'kv store_env \<Rightarrow> 'kv \<Rightarrow> public_key \<Rightarrow> (io_error + unit) \<times> 'kv" where
  [store_defs]: "remove_peer E s k =
     kv_remove (the_kv E) s PEERS_PRIMARY_NAMESPACE PEERS_SECONDARY_NAMESPACE (peer_key E k) True"

text \<open>The loop of \<open>list_peers\<close> ends at the first key that cannot be read.\<close>

fun list_peers_loop :: "'kv store_env \<Rightarrow> 'kv \<Rightarrow> string list \<Rightarrow> peer_info list \<Rightarrow> io_error + peer_info list" where
  "list_peers_loop E s [] peers = Inr peers"
| "list_peers_loop E s (k # ks) peers =
     (case kv_read (the_kv E) s PEERS_PRIMARY_NAMESPACE PEERS_SECONDARY_NAMESPACE k of
        Inr data \<Rightarrow>
          and_then (map_err (could_not_deserialize ''peer info'') (peer_info_read (the_codec E) data))
            (\<lambda>peer. list_peers_loop E s ks (peers @ [peer]))
      | Inl e \<Rightarrow> Inl e)"

definition list_peers :: "'kv store_env \<Rightarrow> 'kv \<Rightarrow> io_error + peer_info list" where
  "list_peers E s =
     and_then (kv_list (the_kv E) s PEERS_PRIMARY_NAMESPACE PEERS_SECONDARY_NAMESPACE)
       (\<lambda>keys. list_peers_loop E s keys [])"

section \<open>Abstraction and invariant\<close>

text \<open>
  The abstract store is a map. The invariant says that every value of a namespace decodes and sits
  under the key its record names; it is what makes the listings total and lookups consistent.
\<close>

definition payments_view :: "'kv store_env \<Rightarrow> 'kv \<Rightarrow> payment_id \<Rightarrow> payment option" where
  "payments_view E = ns_view (the_kv E) PAYMENTS_PRIMARY_NAMESPACE PAYMENTS_SECONDARY_NAMESPACE
     (payment_key E) (payment_read (the_codec E))"

definition peers_view :: "'kv store_env \<Rightarrow> 'kv \<Rightarrow> public_key \<Rightarrow> peer_info option" where
  "peers_view E = ns_view (the_kv E) PEERS_PRIMARY_NAMESPACE PEERS_SECONDARY_NAMESPACE
     (peer_key E) (peer_info_read (the_codec E))"

definition payments_wf :: "'kv store_env \<Rightarrow> 'kv \<Rightarrow> bool" where
  "payments_wf E = ns_wf (the_kv E) PAYMENTS_PRIMARY_NAMESPACE PAYMENTS_SECONDARY_NAMESPACE
     (payment_key E) (payment_read (the_codec E)) payment_id"

definition peers_wf :: "'kv store_env \<Rightarrow> 'kv \<Rightarrow> bool" where
  "peers_wf E = ns_wf (the_kv E) PEERS_PRIMARY_NAMESPACE PEERS_SECONDARY_NAMESPACE
     (peer_key E) (peer_info_read (the_codec E)) node_id"

section \<open>Round trips\<close>

lemma direction_of_variant_inverse [simp]: "direction_of_variant (direction_variant d) = Inr d"
  by (cases d) (simp_all add: direction_of_variant_def)

lemma status_of_variant_inverse [simp]: "status_of_variant (status_variant s) = Inr s"
  by (cases s) (simp_all add: status_of_variant_def)

lemma required_field_present [simp]: "f t = Some b \<Longrightarrow> required_field f t dec = dec b"
  by (simp add: required_field_def)

lemma required_field_missing [simp]: "f t = None \<Longrightarrow> required_field f t dec = Inl InvalidValue"
  by (simp add: required_field_def)

lemma map_option_wrapped [simp]:
  "map_option PaymentPreimage (map_option payment_preimage_bytes x) = x"
  by (cases x) simp_all

lemma payment_read_write:
  assumes "codec_laws C"
  shows "payment_read C (payment_write C p) = Inr p"
proof -
  note laws = codec_lawsD [OF assms]
  have tlv: "tlv_read C [0, 2, 4, 6, 8, 10, 12] (payment_write C p) = Inr (map_of
     [(0, ser_array C (payment_id_bytes (payment_id p))),
      (2, ser_array C (payment_hash_bytes (payment_hash p))),
      (4, ser_opt_array C (map_option payment_preimage_bytes (payment_preimage p))),
      (6, ser_variant C (direction_variant (direction p))),
      (8, ser_opt_u64 C (amount_msat p)),
      (10, ser_opt_u64 C (fee_paid_msat p)),
      (12, ser_variant C (status_variant (status p)))])"
    unfolding payment_write_def
    by (rule tlv_roundtripsD [OF laws(2)]) simp_all
  show ?thesis unfolding payment_read_def tlv by (simp add: laws)
qed

lemma peer_info_read_write:
  assumes "codec_laws C"
  shows "peer_info_read C (peer_info_write C p) = Inr p"
proof -
  note laws = codec_lawsD [OF assms]
  have tlv: "tlv_read C [0, 2] (peer_info_write C p) =
      Inr (map_of [(0, ser_pubkey C (node_id p)), (2, ser_address C (address p))])"
    unfolding peer_info_write_def
    by (rule tlv_roundtripsD [OF laws(2)]) simp_all
  show ?thesis unfolding peer_info_read_def tlv by (simp add: laws)
qed

section \<open>The operations refine map operations\<close>

lemma inj_payment_key: "store_laws E \<Longrightarrow> inj (payment_key E)"
  by (simp add: inj_def payment_key_def hex_encode_inject [OF store_lawsD(1)])

lemma inj_peer_key: "store_laws E \<Longrightarrow> inj (peer_key E)"
  by (simp add: inj_def peer_key_def hex_encode_inject [OF store_lawsD(1)])

text \<open>A failed write touches at most the value of its own key.\<close>

lemma failed_add_frame:
  assumes "store_laws E" and "add_payment E s p = (r, s')" and "i \<noteq> payment_id p"
  shows "payments_view E s' i = payments_view E s i"
proof -
  have "payment_key E i \<noteq> payment_key E (payment_id p)"
    using assms(3) hex_encode_inject [OF store_lawsD(1) [OF assms(1)]] by (simp add: payment_key_def)
  with kv_write_frameD [OF store_lawsD(2) [OF assms(1)] assms(2) [unfolded add_payment_def]] show ?thesis
    by (simp add: payments_view_def ns_view_def)
qed

lemma payments_view_get: "payments_view E s i = result_ok (get_payment E s i)"
  by (simp add: get_payment_def payments_view_def ns_view_def split: sum.split)

lemma get_payment_view: "get_payment E s i = Inr p \<longleftrightarrow> payments_view E s i = Some p"
  by (simp add: payments_view_get)

lemma get_payment_Inl: "(\<exists>e. get_payment E s i = Inl e) \<longleftrightarrow> payments_view E s i = None"
  by (cases "get_payment E s i") (simp_all add: payments_view_get)

lemma list_payments_loop_set:
  "list_payments_loop E s ks acc = Inr ps \<Longrightarrow>
     set ps = set acc \<union> ns_read_set (the_kv E) PAYMENTS_PRIMARY_NAMESPACE
       PAYMENTS_SECONDARY_NAMESPACE (payment_read (the_codec E)) s ks"
proof (induction ks arbitrary: acc)
  case Nil
  then show ?case by (simp add: ns_read_set_def)
next
  case (Cons k ks)
  then show ?case
    by (cases "kv_read (the_kv E) s PAYMENTS_PRIMARY_NAMESPACE PAYMENTS_SECONDARY_NAMESPACE k")
      (auto simp: ns_read_set_def and_then_Inr_iff)
qed

lemma list_peers_loop_set:
  "list_peers_loop E s ks acc = Inr ps \<Longrightarrow>
     set ps = set acc \<union> ns_read_set (the_kv E) PEERS_PRIMARY_NAMESPACE
       PEERS_SECONDARY_NAMESPACE (peer_info_read (the_codec E)) s ks"
proof (induction ks arbitrary: acc)
  case Nil
  then show ?case by (simp add: ns_read_set_def)
next
  case (Cons k ks)
  then show ?case
    by (cases "kv_read (the_kv E) s PEERS_PRIMARY_NAMESPACE PEERS_SECONDARY_NAMESPACE k")
      (auto simp: ns_read_set_def and_then_Inr_iff)
qed

lemma list_payments_ran:
  assumes "store_laws E" and "payments_wf E s" and "list_payments E s = Inr ps"
  shows "set ps = ran (payments_view E s)"
  using assms list_payments_loop_set [of E s _ "[]" ps]
  by (auto simp: list_payments_def payments_wf_def payments_view_def and_then_Inr_iff
      ns_listing [OF store_lawsD(2)])

lemma list_peers_ran:
  assumes "store_laws E" and "peers_wf E s" and "list_peers E s = Inr ps"
  shows "set ps = ran (peers_view E s)"
  using assms list_peers_loop_set [of E s _ "[]" ps]
  by (auto simp: list_peers_def peers_wf_def peers_view_def and_then_Inr_iff
      ns_listing [OF store_lawsD(2)])

text \<open>Both halves of the node store provide the repository interface.\<close>

lemmas payments_defs = payments_view_def payments_wf_def add_payment_def remove_payment_def
lemmas peers_defs = peers_view_def peers_wf_def add_peer_def remove_peer_def

interpretation payments: listed_repo store_laws payments_wf add_payment payments_view payment_id
  remove_payment list_payments
proof unfold_locales
  fix E :: "'a store_env" and s s' :: 'a and p p' :: payment and i j res ps
  assume laws: "store_laws E"
  note kv = store_lawsD(2) [OF laws] and rt = payment_read_write [OF store_lawsD(1) [OF laws]]
  note view = ns_write_view [where enc = "payment_write (the_codec E)" and
      dec = "payment_read (the_codec E)", OF kv rt]
    and wf = ns_write_wf [where enc = "payment_write (the_codec E)" and
      dec = "payment_read (the_codec E)", OF kv rt]
  show "add_payment E s p = (Inr (), s') \<Longrightarrow> payments_view E s' (payment_id p) = Some p"
    unfolding payments_defs by (rule view)
  show "add_payment E s p = (res, s') \<Longrightarrow> i \<noteq> payment_id p \<Longrightarrow> payments_view E s' i = payments_view E s i"
    unfolding payments_defs by (rule ns_write_frame [OF kv _ inj_payment_key [OF laws]])
  show "payments_wf E s \<Longrightarrow> add_payment E s p = (Inr (), s') \<Longrightarrow> payments_wf E s'"
    unfolding payments_defs by (rule wf)
  show "payments_wf E s \<Longrightarrow> payments_view E s i = Some p \<Longrightarrow> payment_id p = i"
    unfolding payments_defs by (rule ns_view_id [OF _ inj_payment_key [OF laws]])
  show "remove_payment E s i = (Inr (), s') \<Longrightarrow> payments_view E s' i = None"
    unfolding payments_defs by (rule ns_remove_view [OF kv])
  show "remove_payment E s i = (res, s') \<Longrightarrow> j \<noteq> i \<Longrightarrow> payments_view E s' j = payments_view E s j"
    unfolding payments_defs by (rule ns_remove_frame [OF kv _ inj_payment_key [OF laws]])
  show "payments_wf E s \<Longrightarrow> remove_payment E s i = (Inr (), s') \<Longrightarrow> payments_wf E s'"
    unfolding payments_defs by (rule ns_remove_wf [OF kv])
  show "payments_wf E s \<Longrightarrow> list_payments E s = Inr ps \<Longrightarrow> set ps = ran (payments_view E s)"
    by (rule list_payments_ran [OF laws])
qed

interpretation peers: listed_repo store_laws peers_wf add_peer peers_view node_id
  remove_peer list_peers
proof unfold_locales
  fix E :: "'a store_env" and s s' :: 'a and p :: peer_info and i j res ps
  assume laws: "store_laws E"
  note kv = store_lawsD(2) [OF laws] and rt = peer_info_read_write [OF store_lawsD(1) [OF laws]]
  note view = ns_write_view [where enc = "peer_info_write (the_codec E)" and
      dec = "peer_info_read (the_codec E)", OF kv rt]
    and wf = ns_write_wf [where enc = "peer_info_write (the_codec E)" and
      dec = "peer_info_read (the_codec E)", OF kv rt]
  show "add_peer E s p = (Inr (), s') \<Longrightarrow> peers_view E s' (node_id p) = Some p"
    unfolding peers_defs by (rule view)
  show "add_peer E s p = (res, s') \<Longrightarrow> i \<noteq> node_id p \<Longrightarrow> peers_view E s' i = peers_view E s i"
    unfolding peers_defs by (rule ns_write_frame [OF kv _ inj_peer_key [OF laws]])
  show "peers_wf E s \<Longrightarrow> add_peer E s p = (Inr (), s') \<Longrightarrow> peers_wf E s'"
    unfolding peers_defs by (rule wf)
  show "peers_wf E s \<Longrightarrow> peers_view E s i = Some p \<Longrightarrow> node_id p = i"
    unfolding peers_defs by (rule ns_view_id [OF _ inj_peer_key [OF laws]])
  show "remove_peer E s i = (Inr (), s') \<Longrightarrow> peers_view E s' i = None"
    unfolding peers_defs by (rule ns_remove_view [OF kv])
  show "remove_peer E s i = (res, s') \<Longrightarrow> j \<noteq> i \<Longrightarrow> peers_view E s' j = peers_view E s j"
    unfolding peers_defs by (rule ns_remove_frame [OF kv _ inj_peer_key [OF laws]])
  show "peers_wf E s \<Longrightarrow> remove_peer E s i = (Inr (), s') \<Longrightarrow> peers_wf E s'"
    unfolding peers_defs by (rule ns_remove_wf [OF kv])
  show "peers_wf E s \<Longrightarrow> list_peers E s = Inr ps \<Longrightarrow> set ps = ran (peers_view E s)"
    by (rule list_peers_ran [OF laws])
qed

section \<open>Frames between the two namespaces, and the listings' error paths\<close>

lemma namespaces_distinct [simp]:
  "PAYMENTS_PRIMARY_NAMESPACE \<noteq> PEERS_PRIMARY_NAMESPACE"
  "PEERS_PRIMARY_NAMESPACE \<noteq> PAYMENTS_PRIMARY_NAMESPACE"
  by (simp_all add: namespace_defs)

lemma add_payment_peers:
  assumes "store_laws E" and "add_payment E s p = (res, s')"
  shows "peers_view E s' = peers_view E s" and "peers_wf E s' = peers_wf E s"
  unfolding peers_view_def peers_wf_def
  by (rule ns_write_other [OF store_lawsD(2) [OF assms(1)] assms(2) [unfolded add_payment_def]], simp)+

lemma remove_payment_peers:
  assumes "store_laws E" and "remove_payment E s i = (res, s')"
  shows "peers_view E s' = peers_view E s" and "peers_wf E s' = peers_wf E s"
  unfolding peers_view_def peers_wf_def
  by (rule ns_remove_other [OF store_lawsD(2) [OF assms(1)] assms(2) [unfolded remove_payment_def]], simp)+

lemma add_peer_payments:
  assumes "store_laws E" and "add_peer E s p = (res, s')"
  shows "payments_view E s' = payments_view E s" and "payments_wf E s' = payments_wf E s"
  unfolding payments_view_def payments_wf_def
  by (rule ns_write_other [OF store_lawsD(2) [OF assms(1)] assms(2) [unfolded add_peer_def]], simp)+

lemma remove_peer_payments:
  assumes "store_laws E" and "remove_peer E s k = (res, s')"
  shows "payments_view E s' = payments_view E s" and "payments_wf E s' = payments_wf E s"
  unfolding payments_view_def payments_wf_def
  by (rule ns_remove_other [OF store_lawsD(2) [OF assms(1)] assms(2) [unfolded remove_peer_def]], simp)+

lemma list_payments_loop_total:
  assumes "payments_wf E s"
  shows "\<exists>ps. list_payments_loop E s ks acc = Inr ps"
proof (induction ks arbitrary: acc)
  case Nil
  then show ?case by simp
next
  case (Cons k ks)
  show ?case
  proof (cases "kv_read (the_kv E) s PAYMENTS_PRIMARY_NAMESPACE PAYMENTS_SECONDARY_NAMESPACE k")
    case (Inl e)
    with Cons show ?thesis by simp
  next
    case (Inr data)
    from ns_wfD [OF assms [unfolded payments_wf_def] Inr] Cons Inr show ?thesis by auto
  qed
qed

lemma list_peers_loop_fails:
  assumes "kv_read (the_kv E) s PEERS_PRIMARY_NAMESPACE PEERS_SECONDARY_NAMESPACE k = Inl e"
  shows "k \<in> set ks \<Longrightarrow> \<exists>e'. list_peers_loop E s ks acc = Inl e'"
proof (induction ks arbitrary: acc)
  case Nil
  then show ?case by simp
next
  case (Cons j ks)
  show ?case
  proof (cases "kv_read (the_kv E) s PEERS_PRIMARY_NAMESPACE PEERS_SECONDARY_NAMESPACE j")
    case (Inl e)
    then show ?thesis by simp
  next
    case (Inr data)
    with Cons assms show ?thesis by (cases "peer_info_read (the_codec E) data") auto
  qed
qed

section \<open>Sample values for the witnesses\<close>

definition sample_payment :: "u8 \<Rightarrow> payment" where
  "sample_payment b =
     \<lparr>payment_id = PaymentId [b, 1], payment_hash = PaymentHash [b, 1], payment_preimage = None,
      direction = Outbound, amount_msat = Some 50, fee_paid_msat = None, status = Pending\<rparr>"

definition sample_peer :: "u8 \<Rightarrow> peer_info" where
  "sample_peer b = \<lparr>node_id = PublicKey [2, b], address = TcpIpV4 [10, 0, 0, 1] 80\<rparr>"

lemma empty_store_wf: "payments_wf ref_env empty_store" "peers_wf ref_env empty_store"
  by (simp_all add: payments_wf_def peers_wf_def ns_wf_def ref_env_def mem_kv_def mem_read_def
      empty_store_def)

text \<open>The store after one payment has been added.\<close>

definition one_payment_store :: "payment \<Rightarrow> mem_store" where
  "one_payment_store p = snd (add_payment ref_env empty_store p)"

lemma one_payment_store_added:
  "add_payment ref_env empty_store p = (Inr (), one_payment_store p)"
  by (simp add: one_payment_store_def add_payment_def ref_env_def mem_kv_def mem_write_def
      empty_store_def)

lemma one_payment_store_facts:
  "payments_wf ref_env (one_payment_store p)"
  "payments_view ref_env (one_payment_store p) (payment_id p) = Some p"
  using payments.put_wf [OF ref_env_laws empty_store_wf(1) one_payment_store_added]
    payments.put_view [OF ref_env_laws one_payment_store_added] by simp_all

section \<open>Properties\<close>

text \<open>C15: a payment and a peer that are encoded as TLV records decode to themselves.\<close>

theorem tlv_roundtrip:
  assumes "codec_laws C"
  shows "payment_read C (payment_write C p) = Inr p \<and>
    peer_info_read C (peer_info_write C q) = Inr q"
  by (simp add: payment_read_write [OF assms] peer_info_read_write [OF assms])

theorem tlv_roundtrip_witness:
  "codec_laws ref_codec \<and>
   payment_read ref_codec (payment_write ref_codec (sample_payment 7)) = Inr (sample_payment 7) \<and>
   peer_info_read ref_codec (peer_info_write ref_codec (sample_peer 3)) = Inr (sample_peer 3)"
  using tlv_roundtrip [OF ref_codec_laws] ref_codec_laws by simp

text \<open>
  A successful \<open>add_payment\<close> is a map update of the abstract payment store: the payment is
  found under its id, every other payment and every peer is as before, and the store invariant holds
  again.
\<close>

theorem add_payment_refines_update:
  assumes "store_laws E" and "payments_wf E s" and "add_payment E s p = (Inr (), s')"
  shows "payments_wf E s' \<and> payments_view E s' = (payments_view E s)(payment_id p \<mapsto> p) \<and>
    get_payment E s' (payment_id p) = Inr p \<and> peers_view E s' = peers_view E s"
  using payments.put_wf [OF assms] payments.put_refines [OF assms(1,3)]
    add_payment_peers(1) [OF assms(1,3)]
  by (simp add: get_payment_view)

theorem add_payment_refines_update_witness:
  "store_laws ref_env \<and> payments_wf ref_env empty_store \<and>
   add_payment ref_env empty_store (sample_payment 7) = (Inr (), one_payment_store (sample_payment 7)) \<and>
   get_payment ref_env (one_payment_store (sample_payment 7)) (PaymentId [7, 1]) = Inr (sample_payment 7)"
  using add_payment_refines_update [OF ref_env_laws empty_store_wf(1) one_payment_store_added, of "sample_payment 7"]
    ref_env_laws empty_store_wf(1) one_payment_store_added [of "sample_payment 7"]
  by (simp add: sample_payment_def)

text \<open>
  C11: \<open>list_payments\<close> is total on a well-formed store whose keys can be listed, whatever stale
  keys of lazily removed payments the listing contains, and it returns exactly the payments of the
  store.
\<close>

theorem list_payments_complete:
  assumes "store_laws E" and "payments_wf E s"
    and "kv_list (the_kv E) s PAYMENTS_PRIMARY_NAMESPACE PAYMENTS_SECONDARY_NAMESPACE = Inr ks"
  shows "\<exists>ps. list_payments E s = Inr ps \<and> set ps = ran (payments_view E s)"
proof -
  obtain ps where "list_payments E s = Inr ps"
    using list_payments_loop_total [OF assms(2)] assms(3) by (auto simp: list_payments_def)
  with payments.elems_set [OF assms(1,2)] show ?thesis by blast
qed

theorem list_payments_complete_witness:
  "store_laws ref_env \<and> payments_wf ref_env (one_payment_store (sample_payment 7)) \<and>
   kv_list (the_kv ref_env) (one_payment_store (sample_payment 7)) PAYMENTS_PRIMARY_NAMESPACE
     PAYMENTS_SECONDARY_NAMESPACE = Inr [''0701''] \<and>
   (\<exists>ps. list_payments ref_env (one_payment_store (sample_payment 7)) = Inr ps \<and> sample_payment 7 \<in> set ps)"
proof -
  let ?s = "one_payment_store (sample_payment 7)"
  have keys: "kv_list (the_kv ref_env) ?s PAYMENTS_PRIMARY_NAMESPACE PAYMENTS_SECONDARY_NAMESPACE =
      Inr [''0701'']"
    by code_simp
  from list_payments_complete [OF ref_env_laws one_payment_store_facts(1) keys]
  have "\<exists>ps. list_payments ref_env ?s = Inr ps \<and> sample_payment 7 \<in> set ps"
    using one_payment_store_facts(2) [of "sample_payment 7"] by (auto intro: ranI)
  with keys ref_env_laws one_payment_store_facts(1) show ?thesis by blast
qed

text \<open>
  Removing a payment takes exactly that payment out of what \<open>list_payments\<close> and
  \<open>list_payments_by_status\<close> return; the latter returns exactly the stored payments with the
  status asked for.
\<close>

theorem remove_payment_listed:
  assumes "store_laws E" and "payments_wf E s" and "remove_payment E s i = (Inr (), s')"
    and "list_payments_by_status E s' st = Inr ps"
  shows "set ps = {p \<in> ran (payments_view E s). status p = st \<and> payment_id p \<noteq> i}"
proof -
  from assms(4) obtain qs where qs: "list_payments E s' = Inr qs" "ps = filter (\<lambda>p. status p = st) qs"
    by (auto simp: list_payments_by_status_def and_then_Inr_iff)
  have "set qs = ran ((payments_view E s)(i := None))"
    using payments.elems_set [OF assms(1) payments.del_wf [OF assms(1-3)] qs(1)]
      payments.del_refines [OF assms(1,3)] by simp
  also have "\<dots> = {p \<in> ran (payments_view E s). payment_id p \<noteq> i}"
    using payments.view_key [OF assms(1,2)] by (auto simp: ran_def)
  finally show ?thesis using qs(2) by auto
qed

definition without_payment :: "payment_id \<Rightarrow> mem_store \<Rightarrow> mem_store" where
  "without_payment i s = snd (remove_payment ref_env s i)"

theorem remove_payment_listed_witness:
  "list_payments_by_status ref_env (without_payment (PaymentId [9, 1]) (one_payment_store (sample_payment 7))) Pending
     = Inr [sample_payment 7] \<and>
   set [sample_payment 7] =
     {p \<in> ran (payments_view ref_env (one_payment_store (sample_payment 7))).
        status p = Pending \<and> payment_id p \<noteq> PaymentId [9, 1]}"
proof -
  let ?s = "one_payment_store (sample_payment 7)"
  have rm: "remove_payment ref_env ?s (PaymentId [9, 1]) = (Inr (), without_payment (PaymentId [9, 1]) ?s)"
    by (simp add: without_payment_def remove_payment_def ref_env_def mem_kv_def mem_remove_def)
  have ls: "list_payments_by_status ref_env (without_payment (PaymentId [9, 1]) ?s) Pending
      = Inr [sample_payment 7]"
    by code_simp
  from remove_payment_listed [OF ref_env_laws one_payment_store_facts(1) rm ls] ls
  show ?thesis by simp
qed

text \<open>
  \<open>list_peers\<close> does not have the tolerance \<open>list_payments\<close> has: once the listing
  holds the key of a peer that was removed (which the store's documentation allows while a lazy removal
  is pending), \<open>list_peers\<close> fails, and with it every stored peer is lost to its caller.
\<close>

theorem list_peers_fails_on_stale_key:
  assumes "store_laws E" and "remove_peer E s k = (Inr (), s')"
    and "kv_list (the_kv E) s' PEERS_PRIMARY_NAMESPACE PEERS_SECONDARY_NAMESPACE = Inr ks"
    and "peer_key E k \<in> set ks"
  shows "\<exists>e. list_peers E s' = Inl e"
proof -
  obtain m where "kv_read (the_kv E) s' PEERS_PRIMARY_NAMESPACE PEERS_SECONDARY_NAMESPACE (peer_key E k)
      = Inl (IoError NotFound m)"
    using kv_remove_readD [OF store_lawsD(2) [OF assms(1)] assms(2) [unfolded remove_peer_def]] by blast
  from list_peers_loop_fails [OF this assms(4)] assms(3) show ?thesis
    by (simp add: list_peers_def)
qed

definition two_peer_store :: mem_store where
  "two_peer_store = put_each add_peer ref_env empty_store [sample_peer 1, sample_peer 2]"

theorem list_peers_fails_on_stale_key_witness:
  "list_peers ref_env two_peer_store = Inr [sample_peer 2, sample_peer 1] \<and>
   fst (remove_peer ref_env two_peer_store (PublicKey [2, 1])) = Inr () \<and>
   (\<exists>e. list_peers ref_env (snd (remove_peer ref_env two_peer_store (PublicKey [2, 1]))) = Inl e)"
proof -
  let ?s' = "snd (remove_peer ref_env two_peer_store (PublicKey [2, 1]))"
  have rm: "fst (remove_peer ref_env two_peer_store (PublicKey [2, 1])) = Inr ()" by code_simp
  then have rm': "remove_peer ref_env two_peer_store (PublicKey [2, 1]) = (Inr (), ?s')"
    by (simp add: prod_eq_iff)
  have keys: "kv_list (the_kv ref_env) ?s' PEERS_PRIMARY_NAMESPACE PEERS_SECONDARY_NAMESPACE =
      Inr [''0202'', ''0201'']"
    by code_simp
  have key: "peer_key ref_env (PublicKey [2, 1]) \<in> set [''0202'', ''0201'']" by code_simp
  have before: "list_peers ref_env two_peer_store = Inr [sample_peer 2, sample_peer 1]" by code_simp
  from list_peers_fails_on_stale_key [OF ref_env_laws rm' keys key] before rm show ?thesis by blast
qed

text \<open>
  Whatever an operation on one half of the store returns, the other half and every other record
  of its own half are untouched.
\<close>

theorem store_frames:
  assumes "store_laws E"
  shows "peers_view E (snd (add_payment E s p)) = peers_view E s \<and>
    peers_view E (snd (remove_payment E s i)) = peers_view E s \<and>
    payments_view E (snd (add_peer E s q)) = payments_view E s \<and>
    payments_view E (snd (remove_peer E s k)) = payments_view E s \<and>
    (j \<noteq> payment_id p \<longrightarrow> payments_view E (snd (update_payment E s p)) j = payments_view E s j) \<and>
    (l \<noteq> node_id q \<longrightarrow> peers_view E (snd (add_peer E s q)) l = peers_view E s l)"
proof (intro conjI impI)
  show "peers_view E (snd (add_payment E s p)) = peers_view E s"
    by (rule add_payment_peers(1) [OF assms prod.collapse [symmetric]])
  show "peers_view E (snd (remove_payment E s i)) = peers_view E s"
    by (rule remove_payment_peers(1) [OF assms prod.collapse [symmetric]])
  show "payments_view E (snd (add_peer E s q)) = payments_view E s"
    by (rule add_peer_payments(1) [OF assms prod.collapse [symmetric]])
  show "payments_view E (snd (remove_peer E s k)) = payments_view E s"
    by (rule remove_peer_payments(1) [OF assms prod.collapse [symmetric]])
  show "payments_view E (snd (update_payment E s p)) j = payments_view E s j" if "j \<noteq> payment_id p"
    unfolding update_payment_def
    by (rule payments.put_frame [OF assms prod.collapse [symmetric] that])
  show "peers_view E (snd (add_peer E s q)) l = peers_view E s l" if "l \<noteq> node_id q"
    by (rule peers.put_frame [OF assms prod.collapse [symmetric] that])
qed

theorem store_frames_witness:
  "store_laws ref_env \<and>
   payments_view ref_env (snd (update_payment ref_env (one_payment_store (sample_payment 7)) (sample_payment 8)))
     (PaymentId [7, 1]) = Some (sample_payment 7)"
proof -
  have "PaymentId [7, 1] \<noteq> payment_id (sample_payment 8)" by (simp add: sample_payment_def)
  with store_frames [OF ref_env_laws, of "one_payment_store (sample_payment 7)" "sample_payment 8"
      "PaymentId []" "sample_peer 1" "PublicKey []" "PaymentId [7, 1]"]
  have "payments_view ref_env (snd (update_payment ref_env (one_payment_store (sample_payment 7))
      (sample_payment 8))) (PaymentId [7, 1]) =
      payments_view ref_env (one_payment_store (sample_payment 7)) (PaymentId [7, 1])"
    by blast
  moreover have "payment_id (sample_payment 7) = PaymentId [7, 1]" by (simp add: sample_payment_def)
  ultimately show ?thesis
    using one_payment_store_facts(2) [of "sample_payment 7"] ref_env_laws by simp
qed

end
