(* ===== verification/StoreRuns.thy ===== *)
theory StoreRuns
  imports Storage
begin

text \<open>
  Sequences of calls of the node store's operations that change it (\<open>src/storage.rs\<close>): the store as a
  whole against two finite maps, and what is on disk after any of them.
\<close>

section \<open>Calls\<close>

datatype store_call =
    AddPayment payment
  | UpdatePayment payment
  | RemovePayment payment_id
  | AddPeer peer_info
  | RemovePeer public_key

fun run_call :: "'kv store_env \<Rightarrow> 'kv \<Rightarrow> store_call \<Rightarrow> (io_error + unit) \<times> 'kv" where
  "run_call E s (AddPayment p) = add_payment E s p"
| "run_call E s (UpdatePayment p) = update_payment E s p"
| "run_call E s (RemovePayment i) = remove_payment E s i"
| "run_call E s (AddPeer q) = add_peer E s q"
| "run_call E s (RemovePeer k) = remove_peer E s k"

text \<open>The store after a run of calls that all succeed.\<close>

fun run_calls :: "'kv store_env \<Rightarrow> 'kv \<Rightarrow> store_call list \<Rightarrow> (io_error, 'kv) sum" where
  "run_calls E s [] = Inr s"
| "run_calls E s (c # cs) =
     (case run_call E s c of (Inl e, s') \<Rightarrow> Inl e | (Inr _, s') \<Rightarrow> run_calls E s' cs)"

section \<open>The two maps\<close>

type_synonym maps = "(payment_id \<Rightarrow> payment option) \<times> (public_key \<Rightarrow> peer_info option)"

fun apply_call :: "store_call \<Rightarrow> maps \<Rightarrow> maps" where
  "apply_call (AddPayment p) (m, n) = (m(payment_id p \<mapsto> p), n)"
| "apply_call (UpdatePayment p) (m, n) = (m(payment_id p \<mapsto> p), n)"
| "apply_call (RemovePayment i) (m, n) = (m(i := None), n)"
| "apply_call (AddPeer q) (m, n) = (m, n(node_id q \<mapsto> q))"
| "apply_call (RemovePeer k) (m, n) = (m, n(k := None))"

definition store_maps :: "'kv store_env \<Rightarrow> 'kv \<Rightarrow> maps" where
  "store_maps E s = (payments_view E s, peers_view E s)"

definition store_wf :: "'kv store_env \<Rightarrow> 'kv \<Rightarrow> bool" where
  "store_wf E s \<longleftrightarrow> payments_wf E s \<and> peers_wf E s"

lemma run_call_refines:
  assumes "store_laws E" and "run_call E s c = (Inr (), s')"
  shows "store_maps E s' = apply_call c (store_maps E s)"
proof (cases c)
  case (AddPayment p)
  with assms have run: "add_payment E s p = (Inr (), s')" by simp
  with AddPayment payments.put_refines [OF assms(1) run] add_payment_peers(1) [OF assms(1) run]
  show ?thesis by (simp add: store_maps_def)
next
  case (UpdatePayment p)
  with assms have run: "add_payment E s p = (Inr (), s')" by (simp add: update_payment_def)
  with UpdatePayment payments.put_refines [OF assms(1) run] add_payment_peers(1) [OF assms(1) run]
  show ?thesis by (simp add: store_maps_def)
next
  case (RemovePayment i)
  with assms have run: "remove_payment E s i = (Inr (), s')" by simp
  with RemovePayment payments.del_refines [OF assms(1) run] remove_payment_peers(1) [OF assms(1) run]
  show ?thesis by (simp add: store_maps_def)
next
  case (AddPeer q)
  with assms have run: "add_peer E s q = (Inr (), s')" by simp
  with AddPeer peers.put_refines [OF assms(1) run] add_peer_payments(1) [OF assms(1) run]
  show ?thesis by (simp add: store_maps_def)
next
  case (RemovePeer k)
  with assms have run: "remove_peer E s k = (Inr (), s')" by simp
  with RemovePeer peers.del_refines [OF assms(1) run] remove_peer_payments(1) [OF assms(1) run]
  show ?thesis by (simp add: store_maps_def)
qed

lemma run_call_wf:
  assumes "store_laws E" and "store_wf E s" and "run_call E s c = (Inr (), s')"
  shows "store_wf E s'"
proof -
  have wf: "payments_wf E s" "peers_wf E s" using assms(2) by (simp_all add: store_wf_def)
  from assms(3) show ?thesis
    by (cases c)
      (auto simp: store_wf_def update_payment_def
        add_payment_peers(2) [OF assms(1)] remove_payment_peers(2) [OF assms(1)]
        add_peer_payments(2) [OF assms(1)] remove_peer_payments(2) [OF assms(1)] wf
        dest: payments.put_wf [OF assms(1) wf(1)] payments.del_wf [OF assms(1) wf(1)]
          peers.put_wf [OF assms(1) wf(2)] peers.del_wf [OF assms(1) wf(2)])
qed

lemma run_calls_Cons_Inr:
  "run_calls E s (c # cs) = Inr s' \<longleftrightarrow> (\<exists>s1. run_call E s c = (Inr (), s1) \<and> run_calls E s1 cs = Inr s')"
  by (auto split: prod.splits sum.splits)

lemma run_calls_wf:
  "store_laws E \<Longrightarrow> store_wf E s \<Longrightarrow> run_calls E s cs = Inr s' \<Longrightarrow> store_wf E s'"
proof (induction cs arbitrary: s)
  case (Cons c cs)
  then show ?case unfolding run_calls_Cons_Inr using run_call_wf by metis
qed simp

lemma run_calls_refines:
  "store_laws E \<Longrightarrow> run_calls E s cs = Inr s' \<Longrightarrow> store_maps E s' = fold apply_call cs (store_maps E s)"
proof (induction cs arbitrary: s)
  case (Cons c cs)
  then obtain s1 where s1: "run_call E s c = (Inr (), s1)" "run_calls E s1 cs = Inr s'"
    unfolding run_calls_Cons_Inr by blast
  with Cons run_call_refines [OF Cons.prems(1) s1(1)] show ?case by simp
qed simp

lemma list_by_status_set:
  assumes "store_laws E" and "payments_wf E s" and "list_payments_by_status E s st = Inr ps"
  shows "set ps = {p \<in> ran (payments_view E s). status p = st}"
  using assms(3) payments.elems_set [OF assms(1,2)]
  by (auto simp: list_payments_by_status_def and_then_Inr_iff)

lemma payment_on_disk:
  assumes "payments_wf E s"
    and "kv_read (the_kv E) s PAYMENTS_PRIMARY_NAMESPACE PAYMENTS_SECONDARY_NAMESPACE k = Inr data"
  obtains p where "payment_read (the_codec E) data = Inr p" and "k = payment_key E (payment_id p)"
    and "get_payment E s (payment_id p) = Inr p"
proof -
  from ns_wfD [OF assms(1) [unfolded payments_wf_def] assms(2)]
  obtain p where p: "payment_read (the_codec E) data = Inr p" "k = payment_key E (payment_id p)" by blast
  with assms(2) have "payments_view E s (payment_id p) = Some p"
    by (simp add: payments_view_def ns_view_def)
  with p that show thesis by (simp add: get_payment_view)
qed

lemma peer_on_disk:
  assumes "peers_wf E s"
    and "kv_read (the_kv E) s PEERS_PRIMARY_NAMESPACE PEERS_SECONDARY_NAMESPACE k = Inr data"
  obtains q where "peer_info_read (the_codec E) data = Inr q" and "k = peer_key E (node_id q)"
  using ns_wfD [OF assms(1) [unfolded peers_wf_def] assms(2)] by blast

section \<open>A run for the witnesses\<close>

definition sample_calls :: "store_call list" where
  "sample_calls =
     [AddPayment (sample_payment 7), AddPeer (sample_peer 1), AddPayment (sample_payment 8),
      UpdatePayment (sample_payment 7\<lparr>status := Succeeded\<rparr>), RemovePayment (PaymentId [8, 1])]"

definition sample_end :: mem_store where
  "sample_end = (case run_calls ref_env empty_store sample_calls of Inr s \<Rightarrow> s | Inl e \<Rightarrow> empty_store)"

lemma sample_run: "run_calls ref_env empty_store sample_calls = Inr sample_end"
proof -
  have "case run_calls ref_env empty_store sample_calls of Inr s \<Rightarrow> True | Inl e \<Rightarrow> False" by code_simp
  then show ?thesis by (simp add: sample_end_def split: sum.splits)
qed

lemma empty_store_typed: "store_wf ref_env empty_store"
  by (simp add: store_wf_def empty_store_wf)

lemma empty_maps: "store_maps ref_env empty_store = (\<lambda>_. None, \<lambda>_. None)"
  by (auto simp: store_maps_def payments_view_def peers_view_def ns_view_def ref_env_def mem_kv_def mem_read_def
      empty_store_def)

section \<open>Properties\<close>

text \<open>
  C3: the node store implements two finite maps: after any run of successful calls, whatever their order,
  lookups and listings answer as the maps do that the same calls give.
\<close>

theorem store_refines_maps:
  assumes "store_laws E" and "store_wf E s" and "run_calls E s cs = Inr s'"
    and "fold apply_call cs (store_maps E s) = (m, n)"
  shows "(\<forall>i p. get_payment E s' i = Inr p \<longleftrightarrow> m i = Some p) \<and>
    (\<forall>st ps. list_payments_by_status E s' st = Inr ps \<longrightarrow> set ps = {p \<in> ran m. status p = st}) \<and>
    (\<forall>qs. list_peers E s' = Inr qs \<longrightarrow> set qs = ran n)"
proof -
  have views: "payments_view E s' = m" "peers_view E s' = n"
    using run_calls_refines [OF assms(1,3)] assms(4) by (simp_all add: store_maps_def)
  have wf: "payments_wf E s'" "peers_wf E s'"
    using run_calls_wf [OF assms(1-3)] by (simp_all add: store_wf_def)
  show ?thesis
    using views list_by_status_set [OF assms(1) wf(1)] peers.elems_set [OF assms(1) wf(2)]
    by (auto simp: get_payment_view)
qed

theorem store_refines_maps_witness:
  "run_calls ref_env empty_store sample_calls = Inr sample_end \<and>
   get_payment ref_env sample_end (PaymentId [7, 1]) = Inr (sample_payment 7\<lparr>status := Succeeded\<rparr>) \<and>
   (\<forall>p. get_payment ref_env sample_end (PaymentId [8, 1]) \<noteq> Inr p)"
proof -
  obtain m n where maps: "fold apply_call sample_calls (store_maps ref_env empty_store) = (m, n)"
    by (cases "fold apply_call sample_calls (store_maps ref_env empty_store)")
  then have m: "m (PaymentId [7, 1]) = Some (sample_payment 7\<lparr>status := Succeeded\<rparr>)" "m (PaymentId [8, 1]) = None"
    by (auto simp: sample_calls_def empty_maps sample_payment_def)
  from store_refines_maps [OF ref_env_laws empty_store_typed sample_run maps]
  have "\<forall>i p. get_payment ref_env sample_end i = Inr p \<longleftrightarrow> m i = Some p" by blast
  with m sample_run show ?thesis by auto
qed

text \<open>
  C28: everything on disk is typed: after any run of successful calls from such a store, whatever can be read in the
  payments' namespace is the encoding of a payment, under the key of its own id, and \<open>get_payment\<close> returns
  it; what can be read in the peers' namespace is a peer under its own key.
\<close>

theorem records_on_disk_typed:
  assumes "store_laws E" and "store_wf E s" and "run_calls E s cs = Inr s'"
  shows "(\<forall>k data. kv_read (the_kv E) s' PAYMENTS_PRIMARY_NAMESPACE PAYMENTS_SECONDARY_NAMESPACE k = Inr data \<longrightarrow>
      (\<exists>p :: payment. payment_read (the_codec E) data = Inr p \<and> k = payment_key E (payment_id p) \<and>
         get_payment E s' (payment_id p) = Inr p)) \<and>
    (\<forall>k data. kv_read (the_kv E) s' PEERS_PRIMARY_NAMESPACE PEERS_SECONDARY_NAMESPACE k = Inr data \<longrightarrow>
      (\<exists>q :: peer_info. peer_info_read (the_codec E) data = Inr q \<and> k = peer_key E (node_id q)))"
proof -
  have wf: "payments_wf E s'" "peers_wf E s'"
    using run_calls_wf [OF assms] by (simp_all add: store_wf_def)
  show ?thesis
    by (metis payment_on_disk [OF wf(1)] peer_on_disk [OF wf(2)])
qed

theorem records_on_disk_typed_witness:
  "\<exists>data. kv_read (the_kv ref_env) sample_end PAYMENTS_PRIMARY_NAMESPACE PAYMENTS_SECONDARY_NAMESPACE ''0701''
      = Inr data \<and>
    (\<exists>p :: payment. payment_read ref_codec data = Inr p \<and> ''0701'' = payment_key ref_env (payment_id p))"
proof -
  have "case kv_read (the_kv ref_env) sample_end PAYMENTS_PRIMARY_NAMESPACE PAYMENTS_SECONDARY_NAMESPACE ''0701''
      of Inr d \<Rightarrow> True | Inl e \<Rightarrow> False"
    by code_simp
  then obtain data where data: "kv_read (the_kv ref_env) sample_end PAYMENTS_PRIMARY_NAMESPACE
      PAYMENTS_SECONDARY_NAMESPACE ''0701'' = Inr data"
    by (auto split: sum.splits)
  moreover have "the_codec ref_env = ref_codec" by (simp add: ref_env_def)
  ultimately show ?thesis
    using records_on_disk_typed [OF ref_env_laws empty_store_typed sample_run] by metis
qed

end
