(* ===== verification/FeeEstimation.thy ===== *)
theory FeeEstimation
  imports Json
begin

text \<open>
  What LDK's fee interface fixes: the confirmation targets, and the contract of a fee estimator as
  its clients (the on-chain wallet, LDK itself) use it. The bitcoind client provides it.
\<close>

datatype confirmation_target =
    MaximumFeeEstimate
  | UrgentOnChainSweep
  | MinAllowedAnchorChannelRemoteFee
  | MinAllowedNonAnchorChannelRemoteFee
  | AnchorChannelFee
  | NonAnchorChannelFee
  | ChannelCloseMinimum
  | OutputSpendingFee

instantiation confirmation_target :: enum
begin

definition enum_confirmation_target :: "confirmation_target list" where
  "enum_confirmation_target =
     [MaximumFeeEstimate, UrgentOnChainSweep, MinAllowedAnchorChannelRemoteFee,
      MinAllowedNonAnchorChannelRemoteFee, AnchorChannelFee, NonAnchorChannelFee,
      ChannelCloseMinimum, OutputSpendingFee]"

definition enum_all_confirmation_target :: "(confirmation_target \<Rightarrow> bool) \<Rightarrow> bool" where
  "enum_all_confirmation_target P \<longleftrightarrow> list_all P (enum_class.enum :: confirmation_target list)"

definition enum_ex_confirmation_target :: "(confirmation_target \<Rightarrow> bool) \<Rightarrow> bool" where
  "enum_ex_confirmation_target P \<longleftrightarrow> list_ex P (enum_class.enum :: confirmation_target list)"

instance
proof
  have all: "set (enum_class.enum :: confirmation_target list) = UNIV"
    by (auto simp: enum_confirmation_target_def intro: confirmation_target.exhaust)
  then show "UNIV = set (enum_class.enum :: confirmation_target list)" ..
  show "distinct (enum_class.enum :: confirmation_target list)"
    by (simp add: enum_confirmation_target_def)
  fix P :: "confirmation_target \<Rightarrow> bool"
  show "enum_class.enum_all P \<longleftrightarrow> Ball UNIV P"
    by (simp add: enum_all_confirmation_target_def list_all_iff all)
  show "enum_class.enum_ex P \<longleftrightarrow> Bex UNIV P"
    by (simp add: enum_ex_confirmation_target_def list_ex_iff all)
qed

end

text \<open>
  The contract: in a ready state an estimate is there for every target, never below the 253 sat
  per 1000 weight units of the relay minimum, and the state stays ready while it is refreshed.
\<close>

locale fee_source =
  fixes ready :: "'c \<Rightarrow> bool"
    and estimate :: "'c \<Rightarrow> confirmation_target \<Rightarrow> u32 outcome"
    and refresh :: "'x \<Rightarrow> 'c \<Rightarrow> 'c"
  assumes ready_estimate: "ready c \<Longrightarrow> \<exists>r. estimate c t = Return r \<and> 253 \<le> unat r"
    and ready_refresh: "ready c \<Longrightarrow> ready (refresh x c)"
begin

lemma estimate_never_panics: "ready c \<Longrightarrow> \<not> panics (estimate c t)"
  using ready_estimate [of c t] by auto

lemma ready_fold: "ready c \<Longrightarrow> ready (fold refresh xs c)"
  by (induction xs arbitrary: c) (simp_all add: ready_refresh)

lemma estimate_after_refreshes:
  "ready c \<Longrightarrow> \<exists>r. estimate (fold refresh xs c) t = Return r \<and> 253 \<le> unat r"
  by (rule ready_estimate [OF ready_fold])

text \<open>What a client that asks for an estimate goes on with.\<close>

lemma bind_estimate:
  assumes "ready c"
  obtains r where "estimate c t = Return r" and "253 \<le> unat r"
    and "bind_outcome (estimate c t) f = f r"
  using ready_estimate [OF assms, of t] by auto

end

end
