(* ===== verification/BitcoindClient.thy ===== *)
theory BitcoindClient
  imports FeeEstimation External
begin

text \<open>
  \<open>src/bitcoind_client.rs\<close>, the RPC client: the fee cache and the task that refreshes it, the
  best-block query and the transaction broadcaster. The RPC connection is a parameter: each call
  takes its state and returns a reply, an error or a JSON value, and the next state.
\<close>

section \<open>The client\<close>

record 'r rpc_ops =
  call_method :: "'r \<Rightarrow> string \<Rightarrow> json list \<Rightarrow> (string + json) \<times> 'r"

record 'r bitcoind_client =
  rpc_client :: 'r
  fee_cache :: "confirmation_target \<Rightarrow> u32 option"

definition CONF_TARGETS :: "confirmation_target list" where
  "CONF_TARGETS =
     [MaximumFeeEstimate, UrgentOnChainSweep, MinAllowedAnchorChannelRemoteFee,
      MinAllowedNonAnchorChannelRemoteFee, AnchorChannelFee, NonAnchorChannelFee,
      ChannelCloseMinimum, OutputSpendingFee]"

fun get_fallback_fee :: "confirmation_target \<Rightarrow> u32" where
  "get_fallback_fee MaximumFeeEstimate = 10000"
| "get_fallback_fee UrgentOnChainSweep = 5000"
| "get_fallback_fee OutputSpendingFee = 4000"
| "get_fallback_fee MinAllowedAnchorChannelRemoteFee = 253"
| "get_fallback_fee MinAllowedNonAnchorChannelRemoteFee = 1000"
| "get_fallback_fee AnchorChannelFee = 253"
| "get_fallback_fee NonAnchorChannelFee = 3000"
| "get_fallback_fee ChannelCloseMinimum = 1000"

definition new_bitcoind_client :: "'r \<Rightarrow> 'r bitcoind_client" where
  "new_bitcoind_client r =
     \<lparr>rpc_client = r, fee_cache = map_of (map (\<lambda>t. (t, get_fallback_fee t)) CONF_TARGETS)\<rparr>"

fun confirmation_target_to_blocks :: "confirmation_target \<Rightarrow> u32" where
  "confirmation_target_to_blocks MaximumFeeEstimate = 1"
| "confirmation_target_to_blocks UrgentOnChainSweep = 1"
| "confirmation_target_to_blocks OutputSpendingFee = 6"
| "confirmation_target_to_blocks MinAllowedAnchorChannelRemoteFee = 1008"
| "confirmation_target_to_blocks MinAllowedNonAnchorChannelRemoteFee = 144"
| "confirmation_target_to_blocks AnchorChannelFee = 1008"
| "confirmation_target_to_blocks NonAnchorChannelFee = 12"
| "confirmation_target_to_blocks ChannelCloseMinimum = 144"

text \<open>The conversion from BTC per kilo-vbyte to satoshis per 1000 weight units.\<close>

definition sat_per_1000_weight :: "f64 \<Rightarrow> u32" where
  "sat_per_1000_weight fee_rate =
     f64_as_u32 (quarter_f64 (mul_f64 fee_rate (f64_of_int 100000000)))"

definition fee_of_response :: "json \<Rightarrow> string + u32" where
  "fee_of_response response =
     and_then (ok_or (Option.bind (json_get response ''feerate'') json_as_f64)
                 ''Missing or invalid feerate in response'')
       (\<lambda>fee_rate. Inr (max (sat_per_1000_weight fee_rate) 253))"

definition fetch_fee_estimate :: "'r rpc_ops \<Rightarrow> 'r \<Rightarrow> confirmation_target \<Rightarrow> (string + u32) \<times> 'r" where
  "fetch_fee_estimate R r target =
     (case call_method R r ''estimatesmartfee''
        [json_u64 (ucast (confirmation_target_to_blocks target))] of
      (response, r') \<Rightarrow>
        (and_then (map_err (\<lambda>e. ''estimatesmartfee RPC call failed: '' @ e) response) fee_of_response, r'))"

text \<open>One iteration of the loop over the targets in the closure \<open>update_fees\<close>.\<close>

definition update_fee :: "'r rpc_ops \<Rightarrow> confirmation_target \<Rightarrow> 'r bitcoind_client \<Rightarrow> 'r bitcoind_client" where
  "update_fee R target c =
     (case fetch_fee_estimate R (rpc_client c) target of
        (Inr rate, r') \<Rightarrow>
          c\<lparr>rpc_client := r',
            fee_cache := (fee_cache c)(target \<mapsto>
              (if target = MaximumFeeEstimate then saturating_add_u32 rate 2500 else rate))\<rparr>
      | (Inl e, r') \<Rightarrow> c\<lparr>rpc_client := r'\<rparr>)"

definition update_fees :: "'r rpc_ops \<Rightarrow> 'r bitcoind_client \<Rightarrow> 'r bitcoind_client" where
  "update_fees R c = fold (update_fee R) CONF_TARGETS c"

text \<open>
  The background task: what its \<open>select!\<close> sees is a list of events, the sleep of five
  minutes elapsing or the shutdown token being cancelled. The result says whether the task has ended.
\<close>

datatype fee_task_event = SleepElapsed | ShutdownCancelled

fun update_fee_loop :: "'r rpc_ops \<Rightarrow> 'r bitcoind_client \<Rightarrow> fee_task_event list \<Rightarrow> 'r bitcoind_client \<times> bool" where
  "update_fee_loop R c [] = (c, False)"
| "update_fee_loop R c (SleepElapsed # es) = update_fee_loop R (update_fees R c) es"
| "update_fee_loop R c (ShutdownCancelled # es) = (c, True)"

definition update_fee_estimates :: "'r rpc_ops \<Rightarrow> 'r bitcoind_client \<Rightarrow> fee_task_event list \<Rightarrow> 'r bitcoind_client \<times> bool" where
  "update_fee_estimates R c es = update_fee_loop R (update_fees R c) es"

definition get_est_sat_per_1000_weight :: "'r bitcoind_client \<Rightarrow> confirmation_target \<Rightarrow> u32 outcome" where
  "get_est_sat_per_1000_weight c target = unwrap (fee_cache c target)"

text \<open>
  The best-block query. \<open>from_str\<close> is the block hash parser of the \<open>bitcoin\<close> crate; a text it
  refuses is a panic (\<open>expect\<close>), and the height is cast down to 32 bits.
\<close>

definition get_best_block :: "'r rpc_ops \<Rightarrow> (string \<Rightarrow> bytes option) \<Rightarrow> 'r \<Rightarrow>
    (string + bytes \<times> u32) outcome \<times> 'r" where
  "get_best_block R from_str r =
     (case call_method R r ''getblockchaininfo'' [] of
      (response, r') \<Rightarrow>
       (case and_then (map_err (\<lambda>e. ''getblockchaininfo RPC call failed: '' @ e) response) (\<lambda>response.
             and_then (ok_or (Option.bind (json_get response ''bestblockhash'') json_as_str)
                        ''Missing or invalid bestblockhash in response'') (\<lambda>best_block_hash.
             and_then (ok_or (Option.bind (json_get response ''blocks'') json_as_u64)
                        ''Missing blocks in response'') (\<lambda>block_height.
             Inr (best_block_hash, block_height)))) of
          Inl e \<Rightarrow> Return (Inl e)
        | Inr (hash, height) \<Rightarrow>
            (case from_str hash of
               None \<Rightarrow> Panic ''Invalid block hash format''
             | Some h \<Rightarrow> Return (Inr (h, ucast height))), r'))"

text \<open>Transactions are sent one by one; a refused one is logged and the loop goes on.\<close>

fun broadcast_transactions :: "'r rpc_ops \<Rightarrow> (transaction \<Rightarrow> string) \<Rightarrow> 'r \<Rightarrow> transaction list \<Rightarrow> 'r" where
  "broadcast_transactions R serialize_hex r [] = r"
| "broadcast_transactions R serialize_hex r (tx # txs) =
     (case call_method R r ''sendrawtransaction'' [JString (serialize_hex tx)] of
        (Inr _, r') \<Rightarrow> broadcast_transactions R serialize_hex r' txs
      | (Inl _, r') \<Rightarrow> broadcast_transactions R serialize_hex r' txs)"

section \<open>The client as a source of blocks\<close>

text \<open>
  \<open>UtxoSource\<close> and \<open>BlockSource\<close>: the client hands each call of LDK's chain synchronisation and
  gossip verification to its RPC client, whose own implementation of the two traits is a parameter. Calls of
  the trait's \<open>get_best_block\<close> do not reach the method of the same name above, and an unreadable best
  block is an error there instead of a panic.
\<close>

record ('r, 'h, 'blk) source_ops =
  so_get_block_hash_by_height :: "'r \<Rightarrow> u32 \<Rightarrow> (string + bytes) \<times> 'r"
  so_is_output_unspent :: "'r \<Rightarrow> bytes \<times> u32 \<Rightarrow> (string + bool) \<times> 'r"
  so_get_header :: "'r \<Rightarrow> bytes \<Rightarrow> u32 option \<Rightarrow> (string + 'h) \<times> 'r"
  so_get_block :: "'r \<Rightarrow> bytes \<Rightarrow> (string + 'blk) \<times> 'r"
  so_get_best_block :: "'r \<Rightarrow> (string + bytes \<times> u32 option) \<times> 'r"

definition forwarded :: "('r \<Rightarrow> 'a \<times> 'r) \<Rightarrow> 'r bitcoind_client \<Rightarrow> 'a \<times> 'r bitcoind_client" where
  "forwarded f c = (case f (rpc_client c) of (x, r) \<Rightarrow> (x, c\<lparr>rpc_client := r\<rparr>))"

definition get_block_hash_by_height :: "('r, 'h, 'blk) source_ops \<Rightarrow> 'r bitcoind_client \<Rightarrow> u32 \<Rightarrow>
    (string + bytes) \<times> 'r bitcoind_client" where
  "get_block_hash_by_height S c block_height = forwarded (\<lambda>r. so_get_block_hash_by_height S r block_height) c"

definition is_output_unspent :: "('r, 'h, 'blk) source_ops \<Rightarrow> 'r bitcoind_client \<Rightarrow> bytes \<times> u32 \<Rightarrow>
    (string + bool) \<times> 'r bitcoind_client" where
  "is_output_unspent S c outpoint = forwarded (\<lambda>r. so_is_output_unspent S r outpoint) c"

definition get_header :: "('r, 'h, 'blk) source_ops \<Rightarrow> 'r bitcoind_client \<Rightarrow> bytes \<Rightarrow> u32 option \<Rightarrow>
    (string + 'h) \<times> 'r bitcoind_client" where
  "get_header S c header_hash height_hint = forwarded (\<lambda>r. so_get_header S r header_hash height_hint) c"

definition get_block :: "('r, 'h, 'blk) source_ops \<Rightarrow> 'r bitcoind_client \<Rightarrow> bytes \<Rightarrow>
    (string + 'blk) \<times> 'r bitcoind_client" where
  "get_block S c header_hash = forwarded (\<lambda>r. so_get_block S r header_hash) c"

definition source_best_block :: "('r, 'h, 'blk) source_ops \<Rightarrow> 'r bitcoind_client \<Rightarrow>
    (string + bytes \<times> u32 option) \<times> 'r bitcoind_client" where
  "source_best_block S c = forwarded (so_get_best_block S) c"

text \<open>Following the chain never changes a fee estimate.\<close>

lemma forwarded_fee_cache [simp]: "fee_cache (snd (forwarded f c)) = fee_cache c"
  by (simp add: forwarded_def split_pair_eq)

section \<open>The fee cache invariant\<close>

text \<open>The cache is total and no entry is below the relay minimum; the maximum estimate carries
  its margin of 2500 as well.\<close>

definition fee_floor :: "confirmation_target \<Rightarrow> nat" where
  "fee_floor t = (if t = MaximumFeeEstimate then 2753 else 253)"

definition fee_cache_ok :: "'r bitcoind_client \<Rightarrow> bool" where
  "fee_cache_ok c \<longleftrightarrow> (\<forall>t. \<exists>r. fee_cache c t = Some r \<and> fee_floor t \<le> unat r)"

definition adjusted_fee :: "confirmation_target \<Rightarrow> u32 \<Rightarrow> u32" where
  "adjusted_fee t rate = (if t = MaximumFeeEstimate then saturating_add_u32 rate 2500 else rate)"

lemma unat_max_word: "unat (max a b) = max (unat a) (unat b)"
  by (simp add: max_def word_le_nat_alt)

lemma fee_of_response_min: "fee_of_response v = Inr rate \<Longrightarrow> 253 \<le> unat rate"
  by (auto simp: fee_of_response_def and_then_Inr_iff unat_max_word)

lemma fetch_fee_estimate_min: "fst (fetch_fee_estimate R r t) = Inr rate \<Longrightarrow> 253 \<le> unat rate"
  by (auto simp: fetch_fee_estimate_def and_then_Inr_iff split: prod.splits dest: fee_of_response_min)

lemma adjusted_fee_floor: "253 \<le> unat rate \<Longrightarrow> fee_floor t \<le> unat (adjusted_fee t rate)"
  by (simp add: adjusted_fee_def fee_floor_def unat_saturating_add_u32)

lemma fee_cache_update_fee:
  "fee_cache (update_fee R t c) =
     (case fst (fetch_fee_estimate R (rpc_client c) t) of
        Inl _ \<Rightarrow> fee_cache c
      | Inr rate \<Rightarrow> (fee_cache c)(t \<mapsto> adjusted_fee t rate))"
  by (simp add: update_fee_def adjusted_fee_def split: prod.split sum.split)

lemma update_fee_ok:
  assumes "fee_cache_ok c"
  shows "fee_cache_ok (update_fee R t c)"
proof (cases "fst (fetch_fee_estimate R (rpc_client c) t)")
  case (Inl e)
  with assms show ?thesis by (simp add: fee_cache_ok_def fee_cache_update_fee)
next
  case (Inr rate)
  with assms adjusted_fee_floor [OF fetch_fee_estimate_min [OF Inr]] show ?thesis
    by (auto simp: fee_cache_ok_def fee_cache_update_fee)
qed

lemma fold_update_fee_ok: "fee_cache_ok c \<Longrightarrow> fee_cache_ok (fold (update_fee R) ts c)"
  by (induction ts arbitrary: c) (simp_all add: update_fee_ok)

lemma set_CONF_TARGETS: "set CONF_TARGETS = UNIV"
  using enum_UNIV [where 'a = confirmation_target]
  by (simp add: CONF_TARGETS_def enum_confirmation_target_def)

lemma distinct_CONF_TARGETS: "distinct CONF_TARGETS"
  by (simp add: CONF_TARGETS_def)

lemma new_client_ok: "fee_cache_ok (new_bitcoind_client r)"
  unfolding fee_cache_ok_def
proof
  fix t
  have "fee_cache (new_bitcoind_client r) t = Some (get_fallback_fee t)"
    using set_CONF_TARGETS by (simp add: new_bitcoind_client_def map_of_map_restrict)
  moreover have "fee_floor t \<le> unat (get_fallback_fee t)"
    by (cases t) (simp_all add: fee_floor_def)
  ultimately show "\<exists>r'. fee_cache (new_bitcoind_client r) t = Some r' \<and> fee_floor t \<le> unat r'"
    by blast
qed

lemma get_est_ok:
  "fee_cache_ok c \<Longrightarrow> \<exists>r. get_est_sat_per_1000_weight c t = Return r \<and> fee_floor t \<le> unat r"
  by (auto simp: fee_cache_ok_def get_est_sat_per_1000_weight_def)

lemma fee_floor_min: "253 \<le> fee_floor t"
  by (simp add: fee_floor_def)

text \<open>
  The client is a fee source for whole refreshes and for the single updates they consist of, so
  readers that run between two updates of one refresh are covered too.
\<close>

interpretation whole_refresh: fee_source fee_cache_ok get_est_sat_per_1000_weight update_fees
  by unfold_locales
    (use get_est_ok fee_floor_min order_trans in blast, simp add: update_fees_def fold_update_fee_ok)

interpretation single_update: fee_source fee_cache_ok get_est_sat_per_1000_weight
  "\<lambda>(R, t). update_fee R t"
  by unfold_locales
    (use get_est_ok fee_floor_min order_trans in blast, simp add: update_fee_ok split: prod.split)

lemma update_fee_loop_ok: "fee_cache_ok c \<Longrightarrow> fee_cache_ok (fst (update_fee_loop R c es))"
  by (induction R c es rule: update_fee_loop.induct) (simp_all add: whole_refresh.ready_refresh)

section \<open>What a refresh does\<close>

lemma fold_update_fee_other:
  "t \<notin> set ts \<Longrightarrow> fee_cache (fold (update_fee R) ts c) t = fee_cache c t"
  by (induction ts arbitrary: c) (auto simp: fee_cache_update_fee split: sum.split)

lemma fold_update_fee_effect:
  assumes "t \<notin> set ts" and "t \<notin> set us"
  shows "fee_cache (fold (update_fee R) (ts @ t # us) c) t =
     (case fst (fetch_fee_estimate R (rpc_client (fold (update_fee R) ts c)) t) of
        Inl _ \<Rightarrow> fee_cache c t
      | Inr rate \<Rightarrow> Some (adjusted_fee t rate))"
  using assms by (simp add: fold_update_fee_other fee_cache_update_fee split: sum.split)

lemma takeWhile_split:
  assumes "t \<in> set ts" and "distinct ts"
  obtains us where "ts = takeWhile (\<lambda>x. x \<noteq> t) ts @ t # us"
    and "t \<notin> set (takeWhile (\<lambda>x. x \<noteq> t) ts)" and "t \<notin> set us"
proof -
  from assms(1) obtain xs us where ts: "ts = xs @ t # us" by (auto dest: split_list)
  with assms(2) have "t \<notin> set xs" "t \<notin> set us" by auto
  then have "takeWhile (\<lambda>x. x \<noteq> t) ts = xs" using ts by (auto simp: takeWhile_append)
  with ts \<open>t \<notin> set xs\<close> \<open>t \<notin> set us\<close> show thesis by (intro that [of us]) auto
qed

lemma update_fees_entry:
  "fee_cache (update_fees R c) t =
     (case fst (fetch_fee_estimate R
          (rpc_client (fold (update_fee R) (takeWhile (\<lambda>x. x \<noteq> t) CONF_TARGETS) c)) t) of
        Inl _ \<Rightarrow> fee_cache c t
      | Inr rate \<Rightarrow> Some (adjusted_fee t rate))"
proof -
  obtain us where us: "CONF_TARGETS = takeWhile (\<lambda>x. x \<noteq> t) CONF_TARGETS @ t # us"
      "t \<notin> set (takeWhile (\<lambda>x. x \<noteq> t) CONF_TARGETS)" "t \<notin> set us"
    by (rule takeWhile_split [OF _ distinct_CONF_TARGETS]) (auto simp: set_CONF_TARGETS)
  from fold_update_fee_effect [OF us(2,3), of R c] us(1) show ?thesis
    by (simp add: update_fees_def)
qed

lemma update_fee_loop_runs:
  "update_fee_loop R c es =
     ((update_fees R ^^ length (takeWhile (\<lambda>e. e \<noteq> ShutdownCancelled) es)) c,
      ShutdownCancelled \<in> set es)"
  by (induction R c es rule: update_fee_loop.induct) (simp_all add: funpow_swap1)

section \<open>Concrete connections for the witnesses\<close>

text \<open>A connection that plays back a list of replies, and one whose replies depend on the call only.\<close>

definition script_rpc :: "(string + json) list rpc_ops" where
  "script_rpc =
     \<lparr>call_method = (\<lambda>r m args. case r of [] \<Rightarrow> (Inl ''connection closed'', []) | x # xs \<Rightarrow> (x, xs))\<rparr>"

definition stateless_rpc :: "(string \<Rightarrow> json list \<Rightarrow> string + json) \<Rightarrow> unit rpc_ops" where
  "stateless_rpc ans = \<lparr>call_method = (\<lambda>r m args. (ans m args, ()))\<rparr>"

definition feerate_reply :: "f64 \<Rightarrow> json" where
  "feerate_reply f = JObject [(''feerate'', JNumber (Float f)), (''blocks'', json_u64 1)]"

section \<open>Properties\<close>

text \<open>
  C18: from the start of the client and at every moment of the refresh task, whatever the RPC
  connection answers and also between two updates of one refresh, an estimate is there for every
  confirmation target (the lookup never panics) and it is at least 253 sat per 1000 weight units, for
  the maximum estimate at least 2753.
\<close>

theorem fee_estimate_always_available:
  "\<exists>x. get_est_sat_per_1000_weight
         (fold (update_fee R) ts (fst (update_fee_estimates R (new_bitcoind_client r) es))) t = Return x \<and>
       fee_floor t \<le> unat x"
  unfolding update_fee_estimates_def
  by (intro get_est_ok fold_update_fee_ok update_fee_loop_ok whole_refresh.ready_refresh new_client_ok)

text \<open>
  C20: what one refresh leaves for a target: if the reply to the target's own query carries a
  usable fee rate, the converted rate, raised to 253 and for the maximum estimate by a saturating 2500;
  otherwise (RPC error or no fee rate in the reply) the estimate that was there before.
\<close>

theorem refresh_effect:
  "get_est_sat_per_1000_weight (update_fees R c) t =
     (case fst (call_method R
          (rpc_client (fold (update_fee R) (takeWhile (\<lambda>x. x \<noteq> t) CONF_TARGETS) c))
          ''estimatesmartfee'' [json_u64 (ucast (confirmation_target_to_blocks t))]) of
        Inl _ \<Rightarrow> get_est_sat_per_1000_weight c t
      | Inr v \<Rightarrow>
          (case Option.bind (json_get v ''feerate'') json_as_f64 of
             None \<Rightarrow> get_est_sat_per_1000_weight c t
           | Some f \<Rightarrow> Return (adjusted_fee t (max (sat_per_1000_weight f) 253))))"
  unfolding get_est_sat_per_1000_weight_def update_fees_entry
  by (simp add: fetch_fee_estimate_def fee_of_response_def split: prod.split sum.split option.split)

text \<open>
  The refresh task ends exactly when the shutdown token is cancelled, and until then has
  refreshed once at the start and once for every elapsed sleep.
\<close>

theorem fee_task_ends_on_shutdown:
  "update_fee_estimates R c es =
     ((update_fees R ^^ Suc (length (takeWhile (\<lambda>e. e \<noteq> ShutdownCancelled) es))) c,
      ShutdownCancelled \<in> set es)"
  by (simp add: update_fee_estimates_def update_fee_loop_runs funpow_swap1)

text \<open>
  If bitcoind's answers depend on the query only, a refresh keeps the maximum estimate at least
  as high as the urgent one: both ask for one block.
\<close>

theorem maximum_covers_urgent:
  assumes "\<And>r m args. fst (call_method R r m args) = ans m args"
    and "get_est_sat_per_1000_weight c UrgentOnChainSweep = Return u"
    and "get_est_sat_per_1000_weight c MaximumFeeEstimate = Return m" and "unat u \<le> unat m"
  shows "\<exists>u' m'. get_est_sat_per_1000_weight (update_fees R c) UrgentOnChainSweep = Return u' \<and>
    get_est_sat_per_1000_weight (update_fees R c) MaximumFeeEstimate = Return m' \<and> unat u' \<le> unat m'"
proof -
  define res where "res = fst (fetch_fee_estimate R (rpc_client c) UrgentOnChainSweep)"
  have urgent: "fst (fetch_fee_estimate R r UrgentOnChainSweep) = res"
    and maximum: "fst (fetch_fee_estimate R r MaximumFeeEstimate) = res" for r
    by (simp_all add: res_def fetch_fee_estimate_def assms(1) split_pair_eq)
  have "unat rate \<le> unat (saturating_add_u32 rate 2500)" for rate
    using unat_u32_bound [of rate] by (simp add: unat_saturating_add_u32)
  with assms(2-4) show ?thesis
    by (cases res) (simp_all add: get_est_sat_per_1000_weight_def update_fees_entry urgent maximum
        adjusted_fee_def)
qed

theorem maximum_covers_urgent_witness:
  "get_est_sat_per_1000_weight (new_bitcoind_client ()) UrgentOnChainSweep = Return 5000 \<and>
   get_est_sat_per_1000_weight (new_bitcoind_client ()) MaximumFeeEstimate = Return 10000 \<and>
   (\<exists>u' m'. get_est_sat_per_1000_weight
        (update_fees (stateless_rpc (\<lambda>m args. Inr (feerate_reply (Finite 1 (- 10))))) (new_bitcoind_client ()))
        UrgentOnChainSweep = Return u' \<and>
      get_est_sat_per_1000_weight
        (update_fees (stateless_rpc (\<lambda>m args. Inr (feerate_reply (Finite 1 (- 10))))) (new_bitcoind_client ()))
        MaximumFeeEstimate = Return m' \<and> unat u' \<le> unat m')"
proof -
  let ?R = "stateless_rpc (\<lambda>m args. Inr (feerate_reply (Finite 1 (- 10))))"
  have u: "get_est_sat_per_1000_weight (new_bitcoind_client ()) UrgentOnChainSweep = Return 5000"
    and m: "get_est_sat_per_1000_weight (new_bitcoind_client ()) MaximumFeeEstimate = Return 10000"
    by (simp_all add: get_est_sat_per_1000_weight_def new_bitcoind_client_def CONF_TARGETS_def)
  have R: "\<And>r m args. fst (call_method ?R r m args) = Inr (feerate_reply (Finite 1 (- 10)))"
    by (simp add: stateless_rpc_def)
  from maximum_covers_urgent [OF R u m] u m show ?thesis by simp
qed

text \<open>
  Without that, it does not hold: one failed query followed by a successful one leaves the
  maximum estimate at its fallback of 10000 below the refreshed urgent estimate.
\<close>

theorem urgent_can_exceed_maximum:
  "\<exists>u m. get_est_sat_per_1000_weight
       (update_fees script_rpc (new_bitcoind_client [Inl ''timeout'', Inr (feerate_reply (Finite 1 (- 10)))]))
       UrgentOnChainSweep = Return u \<and>
     get_est_sat_per_1000_weight
       (update_fees script_rpc (new_bitcoind_client [Inl ''timeout'', Inr (feerate_reply (Finite 1 (- 10)))]))
       MaximumFeeEstimate = Return m \<and> unat m < unat u"
proof -
  have "json_get (feerate_reply (Finite 1 (- 10))) ''feerate'' = Some (JNumber (Float (Finite 1 (- 10))))"
    by (simp add: feerate_reply_def)
  moreover have "sat_per_1000_weight (Finite 1 (- 10)) = 24414" by code_simp
  ultimately show ?thesis
    by (simp add: get_est_sat_per_1000_weight_def update_fees_entry CONF_TARGETS_def
        fetch_fee_estimate_def fee_of_response_def script_rpc_def new_bitcoind_client_def
        update_fee_def adjusted_fee_def)
qed

text \<open>
  The best-block query reports the height modulo \<open>2 ^ 32\<close>, so exactly the height when it
  fits the cast; it panics exactly when both fields are there and the hash text is refused by the
  parser, and never changes its answer otherwise.
\<close>

theorem get_best_block_result:
  assumes "fst (call_method R r ''getblockchaininfo'' []) = Inr v"
    and "json_get v ''bestblockhash'' = Some (JString txt)" and "json_get v ''blocks'' = Some (json_u64 n)"
  shows "fst (get_best_block R from_str r) =
    (case from_str txt of
       None \<Rightarrow> Panic ''Invalid block hash format''
     | Some h \<Rightarrow> Return (Inr (h, ucast n))) \<and>
    unat (ucast n :: u32) = unat n mod 2 ^ 32"
  using assms
  by (simp add: get_best_block_def split_pair_eq json_u64_def unsigned_ucast_eq take_bit_eq_mod split: option.split)

theorem get_best_block_result_witness:
  "fst (get_best_block script_rpc (\<lambda>s. Some [1])
      [Inr (JObject [(''bestblockhash'', JString ''00''), (''blocks'', json_u64 4294967301)])])
     = Return (Inr ([1], 5))"
  using get_best_block_result [of script_rpc
      "[Inr (JObject [(''bestblockhash'', JString ''00''), (''blocks'', json_u64 4294967301)])]"
      "JObject [(''bestblockhash'', JString ''00''), (''blocks'', json_u64 4294967301)]" "''00''" 4294967301
      "\<lambda>s. Some [1]"]
  by (simp add: script_rpc_def)

text \<open>
  C19: the fee conversion is accurate: for a fee rate of \<open>m / 2 ^ k\<close> BTC per kilo-vbyte (every
  non-negative double below \<open>2 ^ 53\<close> that is not tiny has this form) the computed rate, with its
  two roundings and the truncating, saturating cast, is within 1 of the exact quotient clamped to 32 bits.
\<close>

theorem fee_conversion_accurate:
  assumes "0 \<le> m" and "m < 2 ^ 53" and "k \<le> 1000"
  shows "\<bar>uint (sat_per_1000_weight (Finite m (- int k)))
    - min ((m * 25000000) div 2 ^ k) (2 ^ 32 - 1)\<bar> \<le> 1"
proof -
  have c: "f64_of_int 100000000 = Finite 100000000 0" by code_simp
  have "m * 100000000 < 2 ^ 100" using assms(2) by simp
  from scaled_quarter_near [OF assms(1) _ this assms(3)]
  have "\<bar>uint (f64_as_u32 (quarter_f64 (round_f64 (m * 100000000) (- int k))))
      - min ((m * 100000000) div 2 ^ (k + 2)) (2 ^ 32 - 1)\<bar> \<le> 1" by simp
  moreover have "(m * 100000000) div 2 ^ (k + 2) = (m * 25000000) div 2 ^ k"
    using div_mult_mult1 [of 4 "m * 25000000" "2 ^ k"] by (simp add: mult.commute)
  ultimately show ?thesis by (simp only: sat_per_1000_weight_def c mul_f64.simps add_0_right)
qed

theorem fee_conversion_accurate_witness:
  "uint (sat_per_1000_weight (Finite 5 (- 20))) = 119 \<and>
   \<bar>uint (sat_per_1000_weight (Finite 5 (- 20))) - min ((5 * 25000000) div 2 ^ 20) (2 ^ 32 - 1)\<bar> \<le> 1"
proof -
  have "uint (sat_per_1000_weight (Finite 5 (- 20))) = 119" by code_simp
  with fee_conversion_accurate [of 5 20] show ?thesis by simp
qed

end
