(* ===== verification/OnchainWallet.thy ===== *)
theory OnchainWallet
  imports FeeEstimation External
begin

text \<open>
  \<open>src/onchain_wallet.rs\<close>: the wallet manager. The BDK wallet is a parameter, a record of the
  operations the manager calls, each returning the wallet's next state where it can change. The
  manager's own logic is here: the funds check and the error paths of \<open>build_transaction\<close>, which
  keychain each script handed out comes from, and the start-up sequence over the seed file and the
  wallet database.
\<close>

section \<open>The BDK wallet\<close>

datatype keychain_kind = ExternalKeychain | InternalKeychain

record bdk_balance =
  confirmed :: u64
  trusted_pending :: u64
  untrusted_pending :: u64

record local_output =
  lo_outpoint :: "bytes \<times> u32"
  lo_txout :: "script \<times> u64"
  lo_is_confirmed :: bool

record utxo =
  outpoint :: "bytes \<times> u32"
  txout :: "script \<times> u64"
  satisfaction_weight :: u64

text \<open>
  \<open>build_tx\<close> stands for the builder from \<open>build_tx\<close> to \<open>finish\<close>, given the recipients and the
  fee rate; \<open>sign\<close> returns whether the PSBT is final, with the signed PSBT; \<open>'p\<close> is a PSBT.
\<close>

record ('w, 'p) bdk_ops =
  wallet_balance :: "'w \<Rightarrow> bdk_balance"
  build_tx :: "'w \<Rightarrow> (script \<times> u64) list \<Rightarrow> u64 \<Rightarrow> (string + 'p) \<times> 'w"
  sign :: "'w \<Rightarrow> 'p \<Rightarrow> bool \<Rightarrow> string + (bool \<times> 'p)"
  extract_tx :: "'p \<Rightarrow> string + transaction"
  next_unused_address :: "'w \<Rightarrow> keychain_kind \<Rightarrow> script \<times> 'w"
  list_unspent :: "'w \<Rightarrow> local_output list"
  apply_block :: "'w \<Rightarrow> bytes \<times> transaction list \<Rightarrow> u32 \<Rightarrow> (string + unit) \<times> 'w"
  apply_block_connected_to :: "'w \<Rightarrow> (bytes \<times> transaction list) \<times> u32 \<times> bytes \<times> u32 \<Rightarrow> (string + unit) \<times> 'w"

section \<open>Building and signing transactions\<close>

definition not_enough_funds :: "(u64 \<Rightarrow> string) \<Rightarrow> u64 \<Rightarrow> string" where
  "not_enough_funds show_u64 amount =
     ''Not enough funds to create transaction for '' @ show_u64 amount @ '' sats''"

definition finish_transaction :: "('w, 'p) bdk_ops \<Rightarrow> 'w \<Rightarrow> (string + 'p) \<Rightarrow> string + transaction" where
  "finish_transaction B w psbt =
     and_then psbt (\<lambda>psbt.
     and_then (sign B w psbt False) (\<lambda>(finalized, psbt).
       if \<not> finalized then Inl ''Could not sign transaction'' else extract_tx B psbt))"

text \<open>
  \<open>estimate\<close> is the fee estimator the caller passes. The wallet check comes first, and the
  estimator is asked only when it succeeds.
\<close>

definition build_transaction :: "('w, 'p) bdk_ops \<Rightarrow> (u64 \<Rightarrow> string) \<Rightarrow> (confirmation_target \<Rightarrow> u32 outcome) \<Rightarrow>
    'w \<Rightarrow> u64 \<Rightarrow> script \<Rightarrow> (string + transaction) outcome \<times> 'w" where
  "build_transaction B show_u64 estimate w amount dest =
     (if confirmed (wallet_balance B w) < amount
      then (Return (Inl (not_enough_funds show_u64 amount)), w)
      else case estimate MaximumFeeEstimate of
        Panic m \<Rightarrow> (Panic m, w)
      | Return rate \<Rightarrow>
          (case build_tx B w [(dest, amount)] (ucast rate) of
             (psbt, w') \<Rightarrow> (Return (finish_transaction B w' psbt), w')))"

definition next_address :: "('w, 'p) bdk_ops \<Rightarrow> 'w \<Rightarrow> script \<times> 'w" where
  "next_address B w = next_unused_address B w ExternalKeychain"

section \<open>Scripts handed to LDK\<close>

text \<open>\<open>ShutdownScript::try_from\<close> is unwrapped: \<open>is_shutdown_script\<close> says which scripts it takes.\<close>

definition get_destination_script :: "('w, 'p) bdk_ops \<Rightarrow> 'w \<Rightarrow> (unit + script) \<times> 'w" where
  "get_destination_script B w =
     (case next_unused_address B w ExternalKeychain of (s, w') \<Rightarrow> (Inr s, w'))"

definition shutdown_script :: "(script \<Rightarrow> bool) \<Rightarrow> script \<Rightarrow> (unit + script) outcome" where
  "shutdown_script is_shutdown_script s =
     (if is_shutdown_script s then Return (Inr s) else Panic ''called Result::unwrap() on an Err value'')"

definition get_shutdown_scriptpubkey :: "('w, 'p) bdk_ops \<Rightarrow> (script \<Rightarrow> bool) \<Rightarrow> 'w \<Rightarrow> (unit + script) outcome \<times> 'w" where
  "get_shutdown_scriptpubkey B is_shutdown_script w =
     (case next_unused_address B w ExternalKeychain of (s, w') \<Rightarrow> (shutdown_script is_shutdown_script s, w'))"

definition get_change_script :: "('w, 'p) bdk_ops \<Rightarrow> 'w \<Rightarrow> (unit + script) \<times> 'w" where
  "get_change_script B w =
     (case next_unused_address B w InternalKeychain of (s, w') \<Rightarrow> (Inr s, w'))"

definition get_change_destination_script :: "('w, 'p) bdk_ops \<Rightarrow> 'w \<Rightarrow> (unit + script) \<times> 'w" where
  "get_change_destination_script B w =
     (case next_unused_address B w InternalKeychain of (s, w') \<Rightarrow> (Inr s, w'))"

definition utxo_of :: "local_output \<Rightarrow> utxo" where
  "utxo_of u = \<lparr>outpoint = lo_outpoint u, txout = lo_txout u, satisfaction_weight = 4 + 108\<rparr>"

definition list_confirmed_utxos :: "('w, 'p) bdk_ops \<Rightarrow> 'w \<Rightarrow> unit + utxo list" where
  "list_confirmed_utxos B w = Inr (map utxo_of (list_unspent B w))"

definition sign_psbt :: "('w, 'p) bdk_ops \<Rightarrow> 'w \<Rightarrow> 'p \<Rightarrow> unit + transaction" where
  "sign_psbt B w psbt =
     and_then (map_err (\<lambda>_. ()) (sign B w psbt True)) (\<lambda>(finalized, psbt).
       if \<not> finalized then Inl () else map_err (\<lambda>_. ()) (extract_tx B psbt))"

section \<open>Start-up\<close>

text \<open>
  The disk holds the seed file and the wallet database; it also says whether reading the seed file, opening the database
  or writing the seed file fails, and what a failed write leaves in the file. The key material is a parameter: parsing and
  printing a mnemonic, making one from entropy, the wallet's key pair of descriptors, the seed of LDK's
  keys, and BDK's loading of an existing database (\<open>Ok(None)\<close> when there is none), which checks the network, and
  creation of a new one for a network.
\<close>

record ('m, 'w) key_ops =
  parse_mnemonic :: "string \<Rightarrow> string + 'm"
  mnemonic_text :: "'m \<Rightarrow> string"
  from_entropy :: "bytes \<Rightarrow> string + 'm"
  master_key_error :: "'m \<Rightarrow> string option"
  load_wallet :: "network \<Rightarrow> 'w option \<Rightarrow> 'm \<Rightarrow> string + 'w option"
  create_wallet :: "network \<Rightarrow> 'm \<Rightarrow> string + 'w"
  ldk_seed :: "'m \<Rightarrow> string + bytes"

record 'w wallet_disk =
  seed_file :: "string option"
  seed_read_error :: "string option"
  wallet_db :: "'w option"
  db_open_error :: "string option"
  seed_write_error :: "(string \<times> string option) option"

record 'w wallet_manager =
  ldk_keys_seed :: bytes
  bdk_wallet :: 'w

definition mnemonic_from_file :: "('m, 'w) key_ops \<Rightarrow> string + string \<Rightarrow> string + 'm" where
  "mnemonic_from_file Ks content = and_then content (parse_mnemonic Ks)"

text \<open>A seed file that exists and cannot be read is an error, not a missing seed.\<close>

definition read_seed :: "'w wallet_disk \<Rightarrow> string \<Rightarrow> string + string" where
  "read_seed d content = (case seed_read_error d of Some e \<Rightarrow> Inl e | None \<Rightarrow> Inr content)"

definition choose_mnemonic :: "('m, 'w) key_ops \<Rightarrow> bytes \<Rightarrow> 'w wallet_disk \<Rightarrow> string + 'm" where
  "choose_mnemonic Ks entropy d =
     (case seed_file d of
        Some content \<Rightarrow> mnemonic_from_file Ks (read_seed d content) | None \<Rightarrow> from_entropy Ks entropy)"

text \<open>The tail of \<open>new\<close>, after the wallet is there: LDK's seed is derived from the master key.\<close>

definition with_ldk_keys :: "('m, 'w) key_ops \<Rightarrow> 'm \<Rightarrow> 'w \<Rightarrow> string + 'w wallet_manager" where
  "with_ldk_keys Ks m w =
     and_then (ldk_seed Ks m) (\<lambda>seed. Inr \<lparr>ldk_keys_seed = seed, bdk_wallet = w\<rparr>)"

definition new_wallet_manager :: "('m, 'w) key_ops \<Rightarrow> network \<Rightarrow> bytes \<Rightarrow> 'w wallet_disk \<Rightarrow>
    (string + 'w wallet_manager) \<times> 'w wallet_disk" where
  "new_wallet_manager Ks net entropy d =
     (case and_then (choose_mnemonic Ks entropy d) (\<lambda>m.
           case master_key_error Ks m of
             Some e \<Rightarrow> Inl e
           | None \<Rightarrow> (case db_open_error d of Some e \<Rightarrow> Inl e | None \<Rightarrow> Inr m)) of
        Inl e \<Rightarrow> (Inl e, d)
      | Inr m \<Rightarrow>
        (case load_wallet Ks net (wallet_db d) m of
           Inl e \<Rightarrow> (Inl e, d)
         | Inr (Some w) \<Rightarrow> (with_ldk_keys Ks m w, d)
         | Inr None \<Rightarrow>
             (case seed_write_error d of
                Some (e, left) \<Rightarrow> (Inl e, d\<lparr>seed_file := left\<rparr>)
              | None \<Rightarrow>
                (let d' = d\<lparr>seed_file := Some (mnemonic_text Ks m)\<rparr> in
                 case create_wallet Ks net m of
                   Inl e \<Rightarrow> (Inl e, d')
                 | Inr w \<Rightarrow> (with_ldk_keys Ks m w, d'\<lparr>wallet_db := Some w\<rparr>)))))"

section \<open>What the libraries promise\<close>

text \<open>BDK's builder puts every recipient into the transaction it makes.\<close>

definition builder_pays :: "('w, 'p) bdk_ops \<Rightarrow> bool" where
  "builder_pays B \<longleftrightarrow>
     (\<forall>w rs f p w' t fin p' tx. build_tx B w rs f = (Inr p, w') \<longrightarrow> sign B w' p t = Inr (fin, p') \<longrightarrow>
        extract_tx B p' = Inr tx \<longrightarrow> set rs \<subseteq> set (tx_outputs tx))"

text \<open>The next unused address stays the next unused one until a transaction uses it.\<close>

definition unused_stable :: "('w, 'p) bdk_ops \<Rightarrow> bool" where
  "unused_stable B \<longleftrightarrow>
     (\<forall>w k s w'. next_unused_address B w k = (s, w') \<longrightarrow> next_unused_address B w' k = (s, w'))"

text \<open>A mnemonic is read back from its text, a new wallet loads again with the mnemonic and on the network it was
  created for, no wallet is found in an empty database, and what is loaded is what the database holds.\<close>

definition key_laws :: "('m, 'w) key_ops \<Rightarrow> bool" where
  "key_laws Ks \<longleftrightarrow>
     (\<forall>m. parse_mnemonic Ks (mnemonic_text Ks m) = Inr m) \<and>
     (\<forall>net m w. create_wallet Ks net m = Inr w \<longrightarrow> load_wallet Ks net (Some w) m = Inr (Some w)) \<and>
     (\<forall>net m. load_wallet Ks net None m = Inr None) \<and>
     (\<forall>net w m x. load_wallet Ks net (Some w) m = Inr x \<longrightarrow> x = Some w)"

lemma key_lawsD:
  assumes "key_laws Ks"
  shows "parse_mnemonic Ks (mnemonic_text Ks m) = Inr m"
    and "create_wallet Ks net m = Inr w \<Longrightarrow> load_wallet Ks net (Some w) m = Inr (Some w)"
    and "load_wallet Ks net None m = Inr None"
    and "load_wallet Ks net (Some w) m = Inr x \<Longrightarrow> x = Some w"
  using assms by (simp_all add: key_laws_def)

section \<open>Building transactions against a fee source\<close>

lemma build_transaction_Inr:
  assumes "build_transaction B sh est w amount dest = (Return (Inr tx), w')"
  obtains rate p p' where "amount \<le> confirmed (wallet_balance B w)"
    and "est MaximumFeeEstimate = Return rate"
    and "build_tx B w [(dest, amount)] (ucast rate) = (Inr p, w')"
    and "sign B w' p False = Inr (True, p')" and "extract_tx B p' = Inr tx"
  using assms
  by (auto simp: build_transaction_def finish_transaction_def and_then_Inr_iff not_less
      split: if_splits outcome.splits prod.splits)

lemma build_transaction_output:
  assumes "builder_pays B" and "build_transaction B sh est w amount dest = (Return (Inr tx), w')"
  shows "(dest, amount) \<in> set (tx_outputs tx)"
proof -
  from assms(2) obtain f p p' where "build_tx B w [(dest, amount)] f = (Inr p, w')"
      "sign B w' p False = Inr (True, p')" "extract_tx B p' = Inr tx"
    by (rule build_transaction_Inr)
  with assms(1) have "set [(dest, amount)] \<subseteq> set (tx_outputs tx)"
    unfolding builder_pays_def by blast
  then show ?thesis by simp
qed

context fee_source
begin

lemma build_transaction_returns:
  assumes "ready c"
  shows "\<not> panics (fst (build_transaction B sh (estimate c) w amount dest))"
  using ready_estimate [OF assms, of MaximumFeeEstimate]
  by (auto simp: build_transaction_def split: prod.splits)

text \<open>The fee rate given to the builder is never below the relay minimum.\<close>

lemma build_transaction_rate:
  assumes "ready c" and "build_transaction B sh (estimate c) w amount dest = (Return (Inr tx), w')"
  shows "\<exists>f p. 253 \<le> unat f \<and> build_tx B w [(dest, amount)] f = (Inr p, w')"
proof -
  from assms(2) obtain rate p where rate: "estimate c MaximumFeeEstimate = Return rate"
    and "build_tx B w [(dest, amount)] (ucast rate) = (Inr p, w')"
    by (rule build_transaction_Inr)
  moreover from ready_estimate [OF assms(1), of MaximumFeeEstimate] rate
  have "253 \<le> unat (ucast rate :: u64)"
    using unat_u32_bound [of rate] by (auto simp: unsigned_ucast_eq take_bit_eq_mod)
  ultimately show ?thesis by blast
qed

end

section \<open>A disk that has been set up\<close>

text \<open>
  Seed file and database belong together and hold the wallet manager \<open>wm\<close>. A start on such files
  opens \<open>wm\<close> or fails (because a file cannot be read or the wallet is for another network), and leaves them as they are.
\<close>

definition settled :: "('m, 'w) key_ops \<Rightarrow> 'w wallet_disk \<Rightarrow> 'w wallet_manager \<Rightarrow> bool" where
  "settled Ks d wm \<longleftrightarrow>
     (\<exists>m w. seed_file d = Some (mnemonic_text Ks m) \<and> wallet_db d = Some w \<and>
        master_key_error Ks m = None \<and> with_ldk_keys Ks m w = Inr wm)"

lemma first_start_settles:
  assumes "key_laws Ks" and "wallet_db d = None" and "new_wallet_manager Ks net entropy d = (Inr wm, d')"
  shows "settled Ks d' wm"
  using assms(2,3) key_lawsD [OF assms(1)]
  by (auto simp: settled_def new_wallet_manager_def and_then_Inr_iff Let_def
      split: sum.splits option.splits prod.splits)

lemma settled_start:
  assumes "key_laws Ks" and "settled Ks d wm" and "new_wallet_manager Ks net entropy d = (r, d')"
  shows "d' = d" and "r = Inr wm' \<Longrightarrow> wm' = wm"
proof -
  obtain m w where m: "seed_file d = Some (mnemonic_text Ks m)" "wallet_db d = Some w" "with_ldk_keys Ks m w = Inr wm"
    using assms(2) by (auto simp: settled_def)
  have same: "m' = m" if "choose_mnemonic Ks entropy d = Inr m'" for m'
    using that m(1) key_lawsD(1) [OF assms(1)]
    by (auto simp: choose_mnemonic_def mnemonic_from_file_def and_then_Inr_iff read_seed_def split: option.splits)
  have loaded: "x = Some w" if "load_wallet Ks net (Some w) m = Inr x" for x by (rule key_lawsD(4) [OF assms(1) that])
  show "d' = d" and "r = Inr wm' \<Longrightarrow> wm' = wm"
    using assms(3) m(2,3) same loaded
    by (auto simp: new_wallet_manager_def and_then_Inr_iff split: sum.splits option.splits)
qed

section \<open>Concrete wallets for the witnesses\<close>

definition ref_bdk :: "(u64, (script \<times> u64) list) bdk_ops" where
  "ref_bdk =
     \<lparr>wallet_balance = (\<lambda>w. \<lparr>confirmed = w, trusted_pending = 0, untrusted_pending = 0\<rparr>),
      build_tx = (\<lambda>w rs f. (Inr rs, w)),
      sign = (\<lambda>w p t. Inr (True, p)),
      extract_tx = (\<lambda>p. Inr \<lparr>tx_encoding = [], tx_outputs = p\<rparr>),
      next_unused_address = (\<lambda>w k. (case k of ExternalKeychain \<Rightarrow> [0] | InternalKeychain \<Rightarrow> [1], w)),
      list_unspent = (\<lambda>w. [\<lparr>lo_outpoint = ([7], 0), lo_txout = ([0], w), lo_is_confirmed = False\<rparr>]),
      apply_block = (\<lambda>w b h. (Inr (), w)), apply_block_connected_to = (\<lambda>w b. (Inr (), w))\<rparr>"

text \<open>A wallet is its network and its mnemonic.\<close>

definition ref_keys :: "(string, network \<times> string) key_ops" where
  "ref_keys =
     \<lparr>parse_mnemonic = Inr, mnemonic_text = (\<lambda>m. m),
      from_entropy = (\<lambda>e. Inr (map (\<lambda>b. if b = 0 then CHR ''a'' else CHR ''b'') e)),
      master_key_error = (\<lambda>m. None),
      load_wallet = (\<lambda>net db m. case db of
          None \<Rightarrow> Inr None
        | Some w \<Rightarrow> if snd w \<noteq> m then Inl ''descriptor mismatch''
            else if fst w \<noteq> net then Inl ''network mismatch'' else Inr (Some w)),
      create_wallet = (\<lambda>net m. Inr (net, m)), ldk_seed = (\<lambda>m. Inr [of_nat (length m)])\<rparr>"

definition empty_disk :: "(network \<times> string) wallet_disk" where
  "empty_disk = \<lparr>seed_file = None, seed_read_error = None, wallet_db = None, db_open_error = None, seed_write_error = None\<rparr>"

lemma ref_bdk_laws: "builder_pays ref_bdk" "unused_stable ref_bdk"
  by (auto simp: builder_pays_def unused_stable_def ref_bdk_def)

lemma ref_keys_laws: "key_laws ref_keys"
  by (auto simp: key_laws_def ref_keys_def split: if_splits)

section \<open>Properties\<close>

text \<open>
  A transaction comes out of \<open>build_transaction\<close> only when the confirmed balance covers the
  amount, and it pays exactly that amount to the script asked for; a request above the confirmed balance is
  refused with an error, the wallet unchanged and the fee estimator not asked.
\<close>

theorem build_transaction_pays:
  assumes "builder_pays B" and "build_transaction B sh est w amount dest = (Return res, w')"
  shows "(\<forall>tx. res = Inr tx \<longrightarrow> amount \<le> confirmed (wallet_balance B w) \<and> (dest, amount) \<in> set (tx_outputs tx)) \<and>
    (confirmed (wallet_balance B w) < amount \<longrightarrow>
       (\<forall>est'. build_transaction B sh est' w amount dest = (Return (Inl (not_enough_funds sh amount)), w)))"
proof (intro conjI allI impI)
  fix tx
  assume "res = Inr tx"
  with assms(2) have built: "build_transaction B sh est w amount dest = (Return (Inr tx), w')" by simp
  then show "amount \<le> confirmed (wallet_balance B w)" by (rule build_transaction_Inr)
  show "(dest, amount) \<in> set (tx_outputs tx)" by (rule build_transaction_output [OF assms(1) built])
qed (simp add: build_transaction_def)

theorem build_transaction_pays_witness:
  "builder_pays ref_bdk \<and>
   build_transaction ref_bdk (\<lambda>n. ''n'') (\<lambda>t. Return 500) 1000 900 [5] =
     (Return (Inr \<lparr>tx_encoding = [], tx_outputs = [([5], 900)]\<rparr>), 1000) \<and>
   (([5], 900) \<in> set (tx_outputs \<lparr>tx_encoding = [], tx_outputs = [([5], 900)]\<rparr>)) \<and>
   build_transaction ref_bdk (\<lambda>n. ''n'') (\<lambda>t. Panic ''unused'') 1000 1001 [5] =
     (Return (Inl (not_enough_funds (\<lambda>n. ''n'') 1001)), 1000)"
proof -
  have ok: "build_transaction ref_bdk (\<lambda>n. ''n'') (\<lambda>t. Return 500) 1000 900 [5] =
      (Return (Inr \<lparr>tx_encoding = [], tx_outputs = [([5], 900)]\<rparr>), 1000)"
    by (simp add: build_transaction_def finish_transaction_def ref_bdk_def)
  have err: "build_transaction ref_bdk (\<lambda>n. ''n'') (\<lambda>t. Return 500) 1000 1001 [5] =
      (Return (Inl (not_enough_funds (\<lambda>n. ''n'') 1001)), 1000)"
    by (simp add: build_transaction_def ref_bdk_def)
  have low: "confirmed (wallet_balance ref_bdk 1000) < 1001" by (simp add: ref_bdk_def)
  from build_transaction_pays [OF ref_bdk_laws(1) ok] build_transaction_pays [OF ref_bdk_laws(1) err]
    low ok ref_bdk_laws(1)
  show ?thesis by blast
qed

text \<open>
  Until a transaction uses it, one address serves for everything: a new address shown to the
  user, the destination script and the shutdown script of any number of channels are all the same script.
\<close>

theorem one_address_for_all:
  assumes "unused_stable B" and "next_address B w = (s, w1)"
  shows "next_address B w1 = (s, w1) \<and> get_destination_script B w1 = (Inr s, w1) \<and>
    get_shutdown_scriptpubkey B (\<lambda>_. True) w1 = (Return (Inr s), w1)"
proof -
  from assms have "next_unused_address B w1 ExternalKeychain = (s, w1)"
    unfolding unused_stable_def next_address_def by blast
  then show ?thesis
    by (simp add: next_address_def get_destination_script_def get_shutdown_scriptpubkey_def shutdown_script_def)
qed

theorem one_address_for_all_witness:
  "unused_stable ref_bdk \<and> next_address ref_bdk 5 = ([0], 5) \<and>
   get_destination_script ref_bdk 5 = (Inr [0], 5)"
proof -
  have n: "next_address ref_bdk 5 = ([0], 5)" by (simp add: next_address_def ref_bdk_def)
  from one_address_for_all [OF ref_bdk_laws(2) n] n ref_bdk_laws(2) show ?thesis by simp
qed

text \<open>
  \<open>list_confirmed_utxos\<close> offers LDK every unspent output of the wallet, the unconfirmed ones
  too, each with the satisfaction weight of a P2WPKH input.
\<close>

theorem list_confirmed_utxos_any:
  assumes "u \<in> set (list_unspent B w)"
  shows "\<exists>us x. list_confirmed_utxos B w = Inr us \<and> x \<in> set us \<and> outpoint x = lo_outpoint u \<and>
    txout x = lo_txout u \<and> satisfaction_weight x = 112"
proof -
  have "utxo_of u \<in> set (map utxo_of (list_unspent B w))" using assms by simp
  moreover have "satisfaction_weight (utxo_of u) = 112" by (simp add: utxo_of_def)
  ultimately show ?thesis unfolding list_confirmed_utxos_def
    by (intro exI [of _ "map utxo_of (list_unspent B w)"] exI [of _ "utxo_of u"])
      (simp add: utxo_of_def)
qed

theorem list_confirmed_utxos_any_witness:
  "\<exists>u us x. u \<in> set (list_unspent ref_bdk 5) \<and> \<not> lo_is_confirmed u \<and>
     list_confirmed_utxos ref_bdk 5 = Inr us \<and> x \<in> set us \<and> outpoint x = lo_outpoint u"
proof -
  let ?u = "\<lparr>lo_outpoint = ([7], 0), lo_txout = ([0], 5), lo_is_confirmed = False\<rparr>"
  have u: "?u \<in> set (list_unspent ref_bdk 5)" by (simp add: ref_bdk_def)
  moreover have "\<not> lo_is_confirmed ?u" by simp
  ultimately show ?thesis using list_confirmed_utxos_any [OF u] by blast
qed

text \<open>
  C25: a wallet is never given another seed: once there is a wallet database, start-up leaves the seed file and the
  database untouched, whatever it returns, and a start that succeeds has opened the wallet of that database with the
  mnemonic of the seed file or, if that was lost, with fresh words that BDK found to be the wallet's own; an existing seed file
  that cannot be read or parsed makes start-up fail without a trace; and a wallet is only ever created after its mnemonic
  was put into the seed file, from which the next start on the same network opens it again.
\<close>

theorem seed_never_replaced:
  assumes "key_laws Ks" and "new_wallet_manager Ks net entropy d = (res, d')"
  shows "(wallet_db d \<noteq> None \<longrightarrow> d' = d \<and>
      (\<forall>wm. res = Inr wm \<longrightarrow> wallet_db d = Some (bdk_wallet wm) \<and>
         (\<exists>m. choose_mnemonic Ks entropy d = Inr m \<and> load_wallet Ks net (wallet_db d) m = Inr (wallet_db d)))) \<and>
    (\<forall>content e. seed_file d = Some content \<and> and_then (read_seed d content) (parse_mnemonic Ks) = Inl e \<longrightarrow>
      res = Inl e \<and> d' = d) \<and>
    (wallet_db d = None \<and> wallet_db d' \<noteq> None \<longrightarrow>
       (\<exists>m. seed_file d' = Some (mnemonic_text Ks m) \<and> parse_mnemonic Ks (mnemonic_text Ks m) = Inr m \<and>
          load_wallet Ks net (wallet_db d') m = Inr (wallet_db d')))"
proof (intro conjI)
  show "\<forall>content e. seed_file d = Some content \<and> and_then (read_seed d content) (parse_mnemonic Ks) = Inl e \<longrightarrow>
      res = Inl e \<and> d' = d"
    using assms(2) by (auto simp: new_wallet_manager_def choose_mnemonic_def mnemonic_from_file_def)
  show "wallet_db d \<noteq> None \<longrightarrow> d' = d \<and>
      (\<forall>wm. res = Inr wm \<longrightarrow> wallet_db d = Some (bdk_wallet wm) \<and>
         (\<exists>m. choose_mnemonic Ks entropy d = Inr m \<and> load_wallet Ks net (wallet_db d) m = Inr (wallet_db d)))"
  proof
    assume "wallet_db d \<noteq> None"
    then obtain w where "wallet_db d = Some w" by blast
    have loaded: "load_wallet Ks net (Some w) m \<noteq> Inr None" "load_wallet Ks net (Some w) m = Inr (Some x) \<Longrightarrow> x = w" for m x
      using key_lawsD(4) [OF assms(1), of net w m] by auto
    from \<open>wallet_db d = Some w\<close> assms(2) loaded(1) show "d' = d \<and>
      (\<forall>wm. res = Inr wm \<longrightarrow> wallet_db d = Some (bdk_wallet wm) \<and>
         (\<exists>m. choose_mnemonic Ks entropy d = Inr m \<and> load_wallet Ks net (wallet_db d) m = Inr (wallet_db d)))"
      by (auto simp: new_wallet_manager_def with_ldk_keys_def and_then_Inr_iff split: sum.splits option.splits dest!: loaded(2))
  qed
  show "wallet_db d = None \<and> wallet_db d' \<noteq> None \<longrightarrow>
       (\<exists>m. seed_file d' = Some (mnemonic_text Ks m) \<and> parse_mnemonic Ks (mnemonic_text Ks m) = Inr m \<and>
          load_wallet Ks net (wallet_db d') m = Inr (wallet_db d'))"
    using assms(2) key_lawsD(1,2,3) [OF assms(1)]
    by (fastforce simp: new_wallet_manager_def Let_def split: sum.splits option.splits prod.splits)
qed

theorem seed_never_replaced_witness:
  "(\<exists>d'. new_wallet_manager ref_keys Regtest [0, 1] empty_disk =
        (Inr \<lparr>ldk_keys_seed = [2], bdk_wallet = (Regtest, ''ab'')\<rparr>, d') \<and> seed_file d' = Some ''ab'' \<and>
      load_wallet ref_keys Regtest (wallet_db d') ''ab'' = Inr (wallet_db d')) \<and>
   new_wallet_manager ref_keys Signet [1] (empty_disk\<lparr>seed_file := Some ''ab'', seed_read_error := Some ''denied''\<rparr>) =
     (Inl ''denied'', empty_disk\<lparr>seed_file := Some ''ab'', seed_read_error := Some ''denied''\<rparr>)"
proof -
  let ?d' = "empty_disk\<lparr>seed_file := Some ''ab'', wallet_db := Some (Regtest, ''ab'')\<rparr>"
  have first: "new_wallet_manager ref_keys Regtest [0, 1] empty_disk =
      (Inr \<lparr>ldk_keys_seed = [2], bdk_wallet = (Regtest, ''ab'')\<rparr>, ?d')"
    by (simp add: new_wallet_manager_def choose_mnemonic_def with_ldk_keys_def ref_keys_def empty_disk_def Let_def)
  have "wallet_db empty_disk = None" by (simp add: empty_disk_def)
  with seed_never_replaced [OF ref_keys_laws first] have created: "\<exists>m. seed_file ?d' = Some m \<and>
      load_wallet ref_keys Regtest (wallet_db ?d') m = Inr (wallet_db ?d')"
    by (auto simp: ref_keys_def)
  let ?u = "empty_disk\<lparr>seed_file := Some ''ab'', seed_read_error := Some ''denied''\<rparr>"
  have "and_then (read_seed ?u ''ab'') (parse_mnemonic ref_keys) = Inl ''denied''" by (simp add: read_seed_def)
  moreover obtain r u where run: "new_wallet_manager ref_keys Signet [1] ?u = (r, u)"
    by (cases "new_wallet_manager ref_keys Signet [1] ?u")
  ultimately have "r = Inl ''denied'' \<and> u = ?u"
    using seed_never_replaced [OF ref_keys_laws run] by simp
  with run created first show ?thesis by auto
qed

end
