(* ===== verification/ChannelManager.thy ===== *)
theory ChannelManager
  imports External
begin

text \<open>
  LDK's channel manager as the program uses it: the data it reports and the operations called on it.
  It is a parameter; each operation takes the manager's state and returns its result and the next
  state. The last section is about the calls made to it: a manager that does nothing but record them, on which witnesses
  are evaluated, and any manager with a list of them beside it.
\<close>

record channel_details =
  cd_channel_id :: channel_id
  cd_counterparty :: public_key
  cd_funding_txo :: "(bytes \<times> u16) option"
  cd_short_channel_id :: "u64 option"
  cd_channel_value_satoshis :: u64
  cd_unspendable_punishment_reserve :: "u64 option"
  cd_outbound_capacity_msat :: u64
  cd_inbound_capacity_msat :: u64
  cd_confirmations_required :: "u32 option"
  cd_is_outbound :: bool
  cd_is_channel_ready :: bool
  cd_is_usable :: bool
  cd_is_announced :: bool

datatype sign_or_creation_error = SignError | CreationError string

record 'cm cm_ops =
  funding_transaction_generated :: "'cm \<Rightarrow> channel_id \<Rightarrow> public_key \<Rightarrow> transaction \<Rightarrow> (api_error + unit) \<times> 'cm"
  force_close_broadcasting_latest_txn :: "'cm \<Rightarrow> channel_id \<Rightarrow> public_key \<Rightarrow> string \<Rightarrow> (api_error + unit) \<times> 'cm"
  accept_inbound_channel :: "'cm \<Rightarrow> channel_id \<Rightarrow> public_key \<Rightarrow> u128 \<Rightarrow> (api_error + unit) \<times> 'cm"
  claim_funds :: "'cm \<Rightarrow> payment_preimage \<Rightarrow> 'cm"
  fail_htlc_backwards :: "'cm \<Rightarrow> payment_hash \<Rightarrow> 'cm"
  create_channel :: "'cm \<Rightarrow> public_key \<Rightarrow> u64 \<Rightarrow> u64 \<Rightarrow> u128 \<Rightarrow> (api_error + channel_id) \<times> 'cm"
  cm_close_channel :: "'cm \<Rightarrow> channel_id \<Rightarrow> public_key \<Rightarrow> (api_error + unit) \<times> 'cm"
  cm_list_channels :: "'cm \<Rightarrow> channel_details list"
  pay_for_bolt11_invoice :: "'cm \<Rightarrow> bolt11_invoice \<Rightarrow> payment_id \<Rightarrow> u64 option \<Rightarrow> nat \<Rightarrow> (string + unit) \<times> 'cm"
  cm_create_bolt11_invoice :: "'cm \<Rightarrow> u64 option \<Rightarrow> (sign_or_creation_error + bolt11_invoice) \<times> 'cm"

section \<open>A recording manager\<close>

datatype cm_call =
    FundingGenerated channel_id public_key transaction
  | ForceClosed channel_id public_key string
  | Accepted channel_id public_key u128
  | Claimed payment_preimage
  | FailedBackwards payment_hash
  | Created public_key u64 u64 u128
  | Closed channel_id public_key
  | Paid bolt11_invoice payment_id "u64 option"
  | InvoiceCreated "u64 option"

record cm_log =
  cm_calls :: "cm_call list"
  cm_channels :: "channel_details list"
  cm_pay_error :: "string option"

definition log_call :: "cm_call \<Rightarrow> cm_log \<Rightarrow> cm_log" where
  "log_call c l = l\<lparr>cm_calls := cm_calls l @ [c]\<rparr>"

definition recording_cm :: "cm_log cm_ops" where
  "recording_cm =
     \<lparr>funding_transaction_generated = (\<lambda>l c k tx. (Inr (), log_call (FundingGenerated c k tx) l)),
      force_close_broadcasting_latest_txn = (\<lambda>l c k m. (Inr (), log_call (ForceClosed c k m) l)),
      accept_inbound_channel = (\<lambda>l c k u. (Inr (), log_call (Accepted c k u) l)),
      claim_funds = (\<lambda>l p. log_call (Claimed p) l),
      fail_htlc_backwards = (\<lambda>l h. log_call (FailedBackwards h) l),
      create_channel = (\<lambda>l k v p u. (Inr (ChannelId [1]), log_call (Created k v p u) l)),
      cm_close_channel = (\<lambda>l c k. (Inr (), log_call (Closed c k) l)),
      cm_list_channels = cm_channels,
      pay_for_bolt11_invoice = (\<lambda>l inv i a t.
        (case cm_pay_error l of None \<Rightarrow> Inr () | Some e \<Rightarrow> Inl e, log_call (Paid inv i a) l)),
      cm_create_bolt11_invoice = (\<lambda>l a.
        (Inr \<lparr>amount_milli_satoshis = a, invoice_payment_hash = [9], invoice_text = ''lnbc''\<rparr>,
         log_call (InvoiceCreated a) l))\<rparr>"

text \<open>Any manager, its state next to the list of the calls made so far. What it answers is left as it is.\<close>

definition noted :: "'r \<times> 'cm \<Rightarrow> cm_call list \<Rightarrow> 'r \<times> ('cm \<times> cm_call list)" where
  "noted x calls = (fst x, snd x, calls)"

definition observed_cm :: "'cm cm_ops \<Rightarrow> ('cm \<times> cm_call list) cm_ops" where
  "observed_cm M =
     \<lparr>funding_transaction_generated = (\<lambda>l c k tx.
        noted (funding_transaction_generated M (fst l) c k tx) (snd l @ [FundingGenerated c k tx])),
      force_close_broadcasting_latest_txn = (\<lambda>l c k m.
        noted (force_close_broadcasting_latest_txn M (fst l) c k m) (snd l @ [ForceClosed c k m])),
      accept_inbound_channel = (\<lambda>l c k u. noted (accept_inbound_channel M (fst l) c k u) (snd l @ [Accepted c k u])),
      claim_funds = (\<lambda>l p. (claim_funds M (fst l) p, snd l @ [Claimed p])),
      fail_htlc_backwards = (\<lambda>l h. (fail_htlc_backwards M (fst l) h, snd l @ [FailedBackwards h])),
      create_channel = (\<lambda>l k v p u. noted (create_channel M (fst l) k v p u) (snd l @ [Created k v p u])),
      cm_close_channel = (\<lambda>l c k. noted (cm_close_channel M (fst l) c k) (snd l @ [Closed c k])),
      cm_list_channels = (\<lambda>l. cm_list_channels M (fst l)),
      pay_for_bolt11_invoice = (\<lambda>l inv i a t.
        noted (pay_for_bolt11_invoice M (fst l) inv i a t) (snd l @ [Paid inv i a])),
      cm_create_bolt11_invoice = (\<lambda>l a. noted (cm_create_bolt11_invoice M (fst l) a) (snd l @ [InvoiceCreated a]))\<rparr>"

definition quiet_cm :: cm_log where
  "quiet_cm = \<lparr>cm_calls = [], cm_channels = [], cm_pay_error = None\<rparr>"

end
