(* ===== verification/NodeConfig.thy ===== *)
theory NodeConfig
  imports External
begin

text \<open>
  \<open>src/config.rs\<close>, the builder's settings in \<open>src/node.rs\<close> and the way \<open>src/bin/lnnode.rs\<close>
  puts them together: the node's configuration with its defaults and its JSON form, the LDK configuration
  derived from it, the builder's setters, and the configuration the binary really runs with.
\<close>

section \<open>The configuration\<close>

record config =
  bitcoind_rpc_host :: string
  bitcoind_rpc_port :: u16
  bitcoind_username :: string
  bitcoind_password :: string
  node_path :: string
  network :: network
  min_channel_value_sat :: u64
  default_channel_public :: bool
  max_pending_htlcs :: u16

definition default_network :: network where
  "default_network = Regtest"

text \<open>A relative path pushed on another.\<close>

definition path_join :: "string \<Rightarrow> string \<Rightarrow> string" where
  "path_join dir name =
     (if dir = [] \<or> last dir = CHR ''/'' then dir @ name else dir @ ''/'' @ name)"

text \<open>\<open>Config::default\<close>; \<open>home\<close> is the home directory, without which it panics.\<close>

definition default_config :: "string option \<Rightarrow> config outcome" where
  "default_config home =
     bind_outcome (unwrap home) (\<lambda>home. Return
       \<lparr>bitcoind_rpc_host = ''127.0.0.1'', bitcoind_rpc_port = 18443,
        bitcoind_username = ''user'', bitcoind_password = ''password'',
        node_path = path_join home ''.lightning-node'', network = Regtest,
        min_channel_value_sat = 100000, default_channel_public = True, max_pending_htlcs = 50\<rparr>)"

text \<open>
  The derived deserialisation: a field without a \<open>serde(default)\<close> must be there, one with it takes
  the given default (the default of its type, or \<open>default_network\<close>), and a present field must have
  the right type. The text form of a network is the \<open>bitcoin\<close> crate's.
\<close>

definition required_json :: "json \<Rightarrow> string \<Rightarrow> (json \<Rightarrow> 'a option) \<Rightarrow> string + 'a" where
  "required_json v k dec =
     and_then (ok_or (json_get v k) (''missing field '' @ k)) (\<lambda>x. ok_or (dec x) (''invalid type for '' @ k))"

definition defaulted_json :: "json \<Rightarrow> string \<Rightarrow> (json \<Rightarrow> 'a option) \<Rightarrow> 'a \<Rightarrow> string + 'a" where
  "defaulted_json v k dec d =
     (case json_get v k of None \<Rightarrow> Inr d | Some x \<Rightarrow> ok_or (dec x) (''invalid type for '' @ k))"

definition json_as_u16 :: "json \<Rightarrow> u16 option" where
  "json_as_u16 v =
     Option.bind (json_as_u64 v) (\<lambda>n. if unat n < 2 ^ 16 then Some (ucast n) else None)"

fun json_as_bool :: "json \<Rightarrow> bool option" where
  "json_as_bool (JBool b) = Some b"
| "json_as_bool _ = None"

definition config_of_json :: "(string \<Rightarrow> network option) \<Rightarrow> json \<Rightarrow> string + config" where
  "config_of_json parse_network v =
     and_then (required_json v ''bitcoind_rpc_host'' json_as_str) (\<lambda>host.
     and_then (required_json v ''bitcoind_rpc_port'' json_as_u16) (\<lambda>port.
     and_then (required_json v ''bitcoind_username'' json_as_str) (\<lambda>user.
     and_then (required_json v ''bitcoind_password'' json_as_str) (\<lambda>password.
     and_then (defaulted_json v ''node_path'' json_as_str '''') (\<lambda>path.
     and_then (defaulted_json v ''network'' (\<lambda>x. Option.bind (json_as_str x) parse_network) default_network) (\<lambda>net.
     and_then (defaulted_json v ''min_channel_value_sat'' json_as_u64 0) (\<lambda>min_value.
     and_then (defaulted_json v ''default_channel_public'' json_as_bool False) (\<lambda>public.
     and_then (defaulted_json v ''max_pending_htlcs'' json_as_u16 0) (\<lambda>htlcs.
     Inr \<lparr>bitcoind_rpc_host = host, bitcoind_rpc_port = port, bitcoind_username = user,
          bitcoind_password = password, node_path = path, network = net,
          min_channel_value_sat = min_value, default_channel_public = public,
          max_pending_htlcs = htlcs\<rparr>)))))))))"

section \<open>The builder\<close>

text \<open>The settings of LDK's \<open>UserConfig\<close> the builder writes.\<close>

record ldk_config =
  min_funding_satoshis :: u64
  announce_for_forwarding :: bool
  negotiate_anchors_zero_fee_htlc_tx :: bool
  manually_accept_inbound_channels :: bool
  our_max_accepted_htlcs :: u16
  accept_forwards_to_priv_channels :: bool

record node_builder =
  builder_config :: config
  builder_ldk :: ldk_config

definition new_node_builder :: "ldk_config \<Rightarrow> config \<Rightarrow> node_builder" where
  "new_node_builder ldk_default c =
     \<lparr>builder_config = c,
      builder_ldk = ldk_default
        \<lparr>min_funding_satoshis := min_channel_value_sat c,
         announce_for_forwarding := default_channel_public c,
         negotiate_anchors_zero_fee_htlc_tx := True,
         manually_accept_inbound_channels := True,
         our_max_accepted_htlcs := max_pending_htlcs c,
         accept_forwards_to_priv_channels := True\<rparr>\<rparr>"

definition with_manually_accept_inbound_channels :: "bool \<Rightarrow> node_builder \<Rightarrow> node_builder" where
  "with_manually_accept_inbound_channels manual b =
     b\<lparr>builder_ldk := (builder_ldk b)\<lparr>manually_accept_inbound_channels := manual\<rparr>\<rparr>"

definition with_min_channel_value_sat :: "u64 \<Rightarrow> node_builder \<Rightarrow> node_builder" where
  "with_min_channel_value_sat v b =
     b\<lparr>builder_config := (builder_config b)\<lparr>min_channel_value_sat := v\<rparr>,
       builder_ldk := (builder_ldk b)\<lparr>min_funding_satoshis := v\<rparr>\<rparr>"

definition with_max_pending_htlcs :: "u16 \<Rightarrow> node_builder \<Rightarrow> node_builder" where
  "with_max_pending_htlcs n b =
     b\<lparr>builder_config := (builder_config b)\<lparr>max_pending_htlcs := n\<rparr>,
       builder_ldk := (builder_ldk b)\<lparr>our_max_accepted_htlcs := n\<rparr>\<rparr>"

definition with_default_channel_public :: "bool \<Rightarrow> node_builder \<Rightarrow> node_builder" where
  "with_default_channel_public public b =
     b\<lparr>builder_config := (builder_config b)\<lparr>default_channel_public := public\<rparr>,
       builder_ldk := (builder_ldk b)\<lparr>announce_for_forwarding := public\<rparr>\<rparr>"

definition setup_bitcoind_rpc_client :: "string \<Rightarrow> u16 \<Rightarrow> string \<Rightarrow> string \<Rightarrow> node_builder \<Rightarrow> node_builder" where
  "setup_bitcoind_rpc_client host port user password b =
     b\<lparr>builder_config := (builder_config b)
        \<lparr>bitcoind_rpc_host := host, bitcoind_rpc_port := port,
         bitcoind_username := user, bitcoind_password := password\<rparr>\<rparr>"

text \<open>The builder as the binary sets it up from the parsed \<open>config.json\<close>.\<close>

definition lnnode_builder :: "ldk_config \<Rightarrow> string option \<Rightarrow> config \<Rightarrow> node_builder outcome" where
  "lnnode_builder ldk_default home conf =
     bind_outcome (default_config home) (\<lambda>c. Return
       (setup_bitcoind_rpc_client (bitcoind_rpc_host conf) (bitcoind_rpc_port conf)
          (bitcoind_username conf) (bitcoind_password conf) (new_node_builder ldk_default c)))"

section \<open>The two configurations agree\<close>

datatype builder_call =
    ManuallyAccept bool
  | MinChannelValue u64
  | MaxPendingHtlcs u16
  | DefaultPublic bool
  | BitcoindRpc string u16 string string

fun run_builder_call :: "builder_call \<Rightarrow> node_builder \<Rightarrow> node_builder" where
  "run_builder_call (ManuallyAccept m) = with_manually_accept_inbound_channels m"
| "run_builder_call (MinChannelValue v) = with_min_channel_value_sat v"
| "run_builder_call (MaxPendingHtlcs n) = with_max_pending_htlcs n"
| "run_builder_call (DefaultPublic p) = with_default_channel_public p"
| "run_builder_call (BitcoindRpc h p u w) = setup_bitcoind_rpc_client h p u w"

definition builder_synced :: "node_builder \<Rightarrow> bool" where
  "builder_synced b \<longleftrightarrow>
     min_funding_satoshis (builder_ldk b) = min_channel_value_sat (builder_config b) \<and>
     announce_for_forwarding (builder_ldk b) = default_channel_public (builder_config b) \<and>
     our_max_accepted_htlcs (builder_ldk b) = max_pending_htlcs (builder_config b) \<and>
     negotiate_anchors_zero_fee_htlc_tx (builder_ldk b) \<and>
     accept_forwards_to_priv_channels (builder_ldk b)"

lemmas builder_defs = new_node_builder_def with_manually_accept_inbound_channels_def
  with_min_channel_value_sat_def with_max_pending_htlcs_def with_default_channel_public_def
  setup_bitcoind_rpc_client_def

lemma run_builder_call_synced: "builder_synced b \<Longrightarrow> builder_synced (run_builder_call x b)"
  by (cases x) (simp_all add: builder_synced_def builder_defs)

lemma run_builder_calls_synced: "builder_synced b \<Longrightarrow> builder_synced (fold run_builder_call xs b)"
  by (induction xs arbitrary: b) (simp_all add: run_builder_call_synced)

fun last_manual :: "bool \<Rightarrow> builder_call list \<Rightarrow> bool" where
  "last_manual d [] = d"
| "last_manual d (ManuallyAccept m # xs) = last_manual m xs"
| "last_manual d (x # xs) = last_manual d xs"

lemma run_builder_calls_manual:
  "manually_accept_inbound_channels (builder_ldk (fold run_builder_call xs b)) =
     last_manual (manually_accept_inbound_channels (builder_ldk b)) xs"
proof (induction xs arbitrary: b)
  case Nil
  then show ?case by simp
next
  case (Cons x xs)
  then show ?case by (cases x) (simp_all add: builder_defs)
qed

section \<open>Properties\<close>

text \<open>
  Whatever sequence of setters is applied to a new builder, the limits LDK enforces are the
  configured ones, anchor channels are negotiated, and channels are accepted manually unless the last
  call of \<open>with_manually_accept_inbound_channels\<close> turned that off.
\<close>

theorem builder_keeps_configurations_in_step:
  "builder_synced (fold run_builder_call calls (new_node_builder ldk_default c)) \<and>
   manually_accept_inbound_channels (builder_ldk (fold run_builder_call calls (new_node_builder ldk_default c)))
     = last_manual True calls"
  by (rule conjI, rule run_builder_calls_synced)
    (simp_all add: run_builder_calls_manual builder_synced_def new_node_builder_def)

text \<open>
  The binary runs with the default configuration, of \<open>config.json\<close> only the four bitcoind
  settings count: two configuration files that agree on these give the same node, whatever they say of
  the network, the node path and the channel limits.
\<close>

theorem lnnode_ignores_most_of_config:
  assumes "default_config home = Return c"
  shows "\<exists>b. lnnode_builder ldk_default home conf = Return b \<and>
    builder_config b = c\<lparr>bitcoind_rpc_host := bitcoind_rpc_host conf, bitcoind_rpc_port := bitcoind_rpc_port conf,
      bitcoind_username := bitcoind_username conf, bitcoind_password := bitcoind_password conf\<rparr> \<and>
    network (builder_config b) = Regtest \<and> min_channel_value_sat (builder_config b) = 100000 \<and>
    max_pending_htlcs (builder_config b) = 50 \<and>
    (\<forall>p n v d h. lnnode_builder ldk_default home
       (conf\<lparr>node_path := p, network := n, min_channel_value_sat := v, default_channel_public := d,
             max_pending_htlcs := h\<rparr>) = Return b)"
  using assms
  by (auto simp: lnnode_builder_def builder_defs default_config_def bind_outcome_Return_iff)

definition sample_config :: config where
  "sample_config =
     \<lparr>bitcoind_rpc_host = ''10.0.0.1'', bitcoind_rpc_port = 8332, bitcoind_username = ''u'',
      bitcoind_password = ''p'', node_path = ''/data'', network = Bitcoin,
      min_channel_value_sat = 5, default_channel_public = False, max_pending_htlcs = 3\<rparr>"

definition sample_ldk_config :: ldk_config where
  "sample_ldk_config =
     \<lparr>min_funding_satoshis = 1000, announce_for_forwarding = False,
      negotiate_anchors_zero_fee_htlc_tx = False, manually_accept_inbound_channels = False,
      our_max_accepted_htlcs = 50, accept_forwards_to_priv_channels = False\<rparr>"

theorem lnnode_ignores_most_of_config_witness:
  "network sample_config = Bitcoin \<and>
   (\<exists>b. lnnode_builder sample_ldk_config (Some ''/root'') sample_config = Return b \<and>
      network (builder_config b) = Regtest \<and> min_channel_value_sat (builder_config b) = 100000)"
proof -
  obtain c where "default_config (Some ''/root'') = Return c" by (simp add: default_config_def)
  from lnnode_ignores_most_of_config [OF this, of sample_ldk_config sample_config]
  show ?thesis by (auto simp: sample_config_def)
qed

text \<open>
  A configuration file that parses has the four bitcoind settings with the right types, the port
  in 16 bits; a limit it leaves out becomes zero, not the 100000 sats and 50 HTLCs of
  \<open>Config::default\<close>.
\<close>

theorem config_of_json_fields:
  assumes "config_of_json parse_network v = Inr c"
  shows "json_get v ''bitcoind_rpc_host'' = Some (JString (bitcoind_rpc_host c)) \<and>
    json_get v ''bitcoind_username'' = Some (JString (bitcoind_username c)) \<and>
    json_get v ''bitcoind_password'' = Some (JString (bitcoind_password c)) \<and>
    (\<exists>n. json_get v ''bitcoind_rpc_port'' = Some (json_u64 n) \<and> unat n = unat (bitcoind_rpc_port c)) \<and>
    (json_get v ''min_channel_value_sat'' = None \<longrightarrow> min_channel_value_sat c = 0) \<and>
    (json_get v ''max_pending_htlcs'' = None \<longrightarrow> max_pending_htlcs c = 0)"
proof -
  have str: "json_as_str x = Some s \<longleftrightarrow> x = JString s" for x s by (cases x) auto
  have u64: "json_as_u64 x = Some n \<longleftrightarrow> x = json_u64 n" for x n
    by (cases "(x, n)" rule: prod.exhaust) (auto simp: json_u64_def elim: json_as_u64.elims)
  have u16: "json_as_u16 x = Some p \<Longrightarrow> \<exists>n. x = json_u64 n \<and> unat n = unat p" for x p
    by (auto simp: json_as_u16_def u64 bind_eq_Some_conv unsigned_ucast_eq take_bit_eq_mod
        split: if_splits)
  have ok: "ok_or o' e = Inr x \<longleftrightarrow> o' = Some x" for o' :: "'x option" and e :: string and x
    by (cases o') simp_all
  from assms show ?thesis
    by (auto simp: config_of_json_def required_json_def defaulted_json_def and_then_Inr_iff ok str
        dest!: u16 split: option.splits)
qed

theorem config_of_json_fields_witness:
  "\<exists>c. config_of_json (\<lambda>s. None)
      (JObject [(''bitcoind_rpc_host'', JString ''h''), (''bitcoind_rpc_port'', json_u64 8332),
        (''bitcoind_username'', JString ''u''), (''bitcoind_password'', JString ''p'')]) = Inr c \<and>
     bitcoind_rpc_host c = ''h'' \<and> unat (bitcoind_rpc_port c) = 8332 \<and>
     min_channel_value_sat c = 0 \<and> max_pending_htlcs c = 0"
proof -
  let ?v = "JObject [(''bitcoind_rpc_host'', JString ''h''), (''bitcoind_rpc_port'', json_u64 8332),
      (''bitcoind_username'', JString ''u''), (''bitcoind_password'', JString ''p'')]"
  have "\<exists>c. config_of_json (\<lambda>s. None) ?v = Inr c"
    by (simp add: config_of_json_def required_json_def defaulted_json_def json_as_u16_def)
  then obtain c where c: "config_of_json (\<lambda>s. None) ?v = Inr c" ..
  from config_of_json_fields [OF c] c show ?thesis
    by (intro exI [of _ c]) (auto simp: json_u64_def)
qed

end
