(* ===== verification/EventHandler.thy ===== *)
theory EventHandler
  imports Storage BitcoindClient OnchainWallet ChannelManager NodeConfig
begin

text \<open>
  \<open>src/event_handler.rs\<close>: LDK's events and what the node does with each of them. The handler's
  state is the node store, the channel manager, the lock of the on-chain wallet and the fee-bumping handler
  (LDK's, which uses the wallet and is a parameter); it
  reads the fee cache and the configuration. Log messages are not modelled, except that an
  argument of one that is unwrapped can panic when the \<open>info\<close> level is enabled
  (\<open>env_log_info\<close>).
\<close>

section \<open>Events\<close>

datatype payment_purpose =
    Bolt11InvoicePayment "payment_preimage option"
  | OtherPurpose

datatype event =
    FundingGenerationReady channel_id public_key u64 script
  | ChannelPending channel_id
  | ChannelReady channel_id public_key
  | OpenChannelRequest channel_id public_key u64 bool
  | ChannelClosed channel_id
  | SplicePending
  | SpliceFailed
  | FundingTransactionReadyForSigning
  | PaymentSent "payment_id option" payment_preimage payment_hash "u64 option"
  | PaymentClaimable payment_hash payment_purpose
  | PaymentClaimed payment_hash u64
  | PaymentFailed payment_id "payment_hash option" "string option"
  | PaymentPathFailed
  | PaymentPathSuccessful payment_id "payment_hash option"
  | PaymentForwarded
  | InvoiceReceived
  | HTLCIntercepted
  | HTLCHandlingFailed
  | PersistStaticInvoice
  | StaticInvoiceRequested
  | SpendableOutputs
  | BumpTransaction bytes
  | DiscardFunding
  | FundingTxBroadcastSafe
  | OnionMessageIntercepted
  | OnionMessagePeerConnected
  | ConnectionNeeded
  | ProbeFailed
  | ProbeSuccessful

text \<open>The flag of \<open>OpenChannelRequest\<close> is \<open>channel_type.supports_anchors_zero_fee_htlc_tx()\<close>,
  its number the funding amount in satoshis.\<close>

section \<open>The handler\<close>

record ('kv, 'cm, 'w, 'b) handler_state =
  node_store :: 'kv
  channel_manager :: 'cm
  onchain_wallet :: "'w mutex"
  bump_tx_handler :: 'b

record ('kv, 'cm, 'w, 'p, 'b) handler_env =
  env_store :: "'kv store_env"
  env_cm :: "'cm cm_ops"
  env_bdk :: "('w, 'p) bdk_ops"
  env_show_u64 :: "u64 \<Rightarrow> string"
  env_estimate :: "confirmation_target \<Rightarrow> u32 outcome"
  env_bump :: "'b \<Rightarrow> 'w mutex \<Rightarrow> bytes \<Rightarrow> unit outcome \<times> 'b \<times> 'w mutex"
  env_config :: config
  env_log_info :: bool

text \<open>\<open>handle_event\<close> returns \<open>Result<(), ReplayEvent>\<close>.\<close>

datatype replay_event = ReplayEvent

type_synonym handled = "(replay_event + unit) outcome"

definition handle_funding_generation_ready ::
    "('kv, 'cm, 'w, 'p, 'b) handler_env \<Rightarrow> ('kv, 'cm, 'w, 'b) handler_state \<Rightarrow>
     channel_id \<Rightarrow> public_key \<Rightarrow> u64 \<Rightarrow> script \<Rightarrow> handled \<times> ('kv, 'cm, 'w, 'b) handler_state" where
  [handler_defs]: "handle_funding_generation_ready H s temporary_channel_id counterparty_node_id
       channel_value_satoshis output_script =
     (case with_lock (\<lambda>w. build_transaction (env_bdk H) (env_show_u64 H) (env_estimate H) w
             channel_value_satoshis output_script) (onchain_wallet s) of
        (Panic m, w) \<Rightarrow> (Panic m, s\<lparr>onchain_wallet := w\<rparr>)
      | (Return (Inl e), w) \<Rightarrow> (Return (Inr ()), s\<lparr>onchain_wallet := w\<rparr>)
      | (Return (Inr funding_tx), w) \<Rightarrow>
          (case funding_transaction_generated (env_cm H) (channel_manager s) temporary_channel_id
                  counterparty_node_id funding_tx of
             (_, cm) \<Rightarrow> (Return (Inr ()), s\<lparr>onchain_wallet := w, channel_manager := cm\<rparr>)))"

text \<open>
  An inbound channel: the minimum of the configuration is compared but the branch is empty; a low
  on-chain balance makes an anchor channel be force-closed, and then, in every case, the channel is
  accepted.
\<close>

definition anchor_reserve_sat :: u64 where
  "anchor_reserve_sat = 10000"

definition handle_open_channel_request ::
    "('kv, 'cm, 'w, 'p, 'b) handler_env \<Rightarrow> ('kv, 'cm, 'w, 'b) handler_state \<Rightarrow>
     channel_id \<Rightarrow> public_key \<Rightarrow> u64 \<Rightarrow> bool \<Rightarrow> handled \<times> ('kv, 'cm, 'w, 'b) handler_state" where
  "handle_open_channel_request H s temporary_channel_id counterparty_node_id
       funding_satoshis supports_anchors =
     (let s1 = (if funding_satoshis < min_channel_value_sat (env_config H) then s else s) in
      case (if supports_anchors then
              bind_outcome (read_lock (wallet_balance (env_bdk H)) (onchain_wallet s1))
                (\<lambda>onchain_balance. Return (
                  if confirmed onchain_balance < anchor_reserve_sat then
                    s1\<lparr>channel_manager := snd (force_close_broadcasting_latest_txn (env_cm H)
                          (channel_manager s1) temporary_channel_id counterparty_node_id
                          ''unable to accept new channel'')\<rparr>
                  else s1))
            else Return s1) of
        Panic m \<Rightarrow> (Panic m, s1)
      | Return s2 \<Rightarrow>
          (Return (Inr ()),
           s2\<lparr>channel_manager := snd (accept_inbound_channel (env_cm H) (channel_manager s2)
                temporary_channel_id counterparty_node_id 0)\<rparr>))"

definition handle_payment_sent ::
    "('kv, 'cm, 'w, 'p, 'b) handler_env \<Rightarrow> ('kv, 'cm, 'w, 'b) handler_state \<Rightarrow>
     payment_id option \<Rightarrow> payment_preimage \<Rightarrow> u64 option \<Rightarrow> handled \<times> ('kv, 'cm, 'w, 'b) handler_state" where
  [handler_defs]: "handle_payment_sent H s id_opt preimage fee_paid =
     (case unwrap id_opt of
        Panic m \<Rightarrow> (Panic m, s)
      | Return i \<Rightarrow>
          (case get_payment (env_store H) (node_store s) i of
             Inl e \<Rightarrow> (Return (Inr ()), s)
           | Inr payment \<Rightarrow>
               (case log_info (env_log_info H)
                       (bind_outcome (unwrap (amount_msat payment)) (\<lambda>_. evaluate (unwrap fee_paid))) of
                  Panic m \<Rightarrow> (Panic m, s)
                | Return _ \<Rightarrow>
                    (let payment' = payment\<lparr>status := Succeeded, payment_preimage := Some preimage,
                                            fee_paid_msat := fee_paid\<rparr>
                     in (Return (Inr ()),
                         s\<lparr>node_store := snd (update_payment (env_store H) (node_store s) payment')\<rparr>)))))"

definition handle_payment_claimable ::
    "('kv, 'cm, 'w, 'p, 'b) handler_env \<Rightarrow> ('kv, 'cm, 'w, 'b) handler_state \<Rightarrow>
     payment_hash \<Rightarrow> payment_purpose \<Rightarrow> handled \<times> ('kv, 'cm, 'w, 'b) handler_state" where
  [handler_defs]: "handle_payment_claimable H s hash purpose =
     (case purpose of
        Bolt11InvoicePayment (Some preimage) \<Rightarrow>
          (Return (Inr ()), s\<lparr>channel_manager := claim_funds (env_cm H) (channel_manager s) preimage\<rparr>)
      | Bolt11InvoicePayment None \<Rightarrow> (Return (Inr ()), s)
      | OtherPurpose \<Rightarrow>
          (Return (Inr ()), s\<lparr>channel_manager := fail_htlc_backwards (env_cm H) (channel_manager s) hash\<rparr>))"

definition handle_payment_failed ::
    "('kv, 'cm, 'w, 'p, 'b) handler_env \<Rightarrow> ('kv, 'cm, 'w, 'b) handler_state \<Rightarrow>
     payment_id \<Rightarrow> payment_hash option \<Rightarrow> string option \<Rightarrow> handled \<times> ('kv, 'cm, 'w, 'b) handler_state" where
  [handler_defs]: "handle_payment_failed H s i hash reason =
     (if hash \<noteq> None then
        (case get_payment (env_store H) (node_store s) i of
           Inl e \<Rightarrow> (Return (Inr ()), s)
         | Inr payment \<Rightarrow>
             (case log_info (env_log_info H) (evaluate (unwrap reason)) of
                Panic m \<Rightarrow> (Panic m, s)
              | Return _ \<Rightarrow>
                  (Return (Inr ()),
                   s\<lparr>node_store := snd (update_payment (env_store H) (node_store s)
                       (payment\<lparr>status := Failed\<rparr>))\<rparr>)))
      else (Return (Inr ()), s))"

definition handle_bump_transaction ::
    "('kv, 'cm, 'w, 'p, 'b) handler_env \<Rightarrow> ('kv, 'cm, 'w, 'b) handler_state \<Rightarrow> bytes \<Rightarrow>
     handled \<times> ('kv, 'cm, 'w, 'b) handler_state" where
  [handler_defs]: "handle_bump_transaction H s bump_event =
     (case env_bump H (bump_tx_handler s) (onchain_wallet s) bump_event of
        (r, b, w) \<Rightarrow> (bind_outcome r (\<lambda>_. Return (Inr ())), s\<lparr>bump_tx_handler := b, onchain_wallet := w\<rparr>))"

text \<open>A claimed payment is only logged, and of a successful path the log line unwraps the hash.\<close>

definition handle_payment_claimed ::
    "('kv, 'cm, 'w, 'p, 'b) handler_env \<Rightarrow> ('kv, 'cm, 'w, 'b) handler_state \<Rightarrow> payment_hash \<Rightarrow> u64 \<Rightarrow>
     handled \<times> ('kv, 'cm, 'w, 'b) handler_state" where
  [handler_defs]: "handle_payment_claimed H s hash amount =
     (bind_outcome (log_info (env_log_info H) (evaluate (Return (amount div 1000)))) (\<lambda>_. Return (Inr ())), s)"

definition handle_payment_path_successful ::
    "('kv, 'cm, 'w, 'p, 'b) handler_env \<Rightarrow> ('kv, 'cm, 'w, 'b) handler_state \<Rightarrow> payment_hash option \<Rightarrow>
     handled \<times> ('kv, 'cm, 'w, 'b) handler_state" where
  [handler_defs]: "handle_payment_path_successful H s hash =
     (bind_outcome (log_info (env_log_info H) (evaluate (unwrap hash))) (\<lambda>_. Return (Inr ())), s)"

lemma handle_payment_claimed_simp [simp]: "handle_payment_claimed H s hash amount = (Return (Inr ()), s)"
  by (cases "env_log_info H") (simp_all add: handle_payment_claimed_def)

fun handle_event :: "('kv, 'cm, 'w, 'p, 'b) handler_env \<Rightarrow> ('kv, 'cm, 'w, 'b) handler_state \<Rightarrow> event \<Rightarrow>
    handled \<times> ('kv, 'cm, 'w, 'b) handler_state" where
  "handle_event H s (FundingGenerationReady c k value out) = handle_funding_generation_ready H s c k value out"
| "handle_event H s (ChannelPending c) = (Return (Inr ()), s)"
| "handle_event H s (ChannelReady c k) = (Return (Inr ()), s)"
| "handle_event H s (OpenChannelRequest c k value anchors) = handle_open_channel_request H s c k value anchors"
| "handle_event H s (ChannelClosed c) = (Return (Inr ()), s)"
| "handle_event H s SplicePending = (Return (Inr ()), s)"
| "handle_event H s SpliceFailed = (Return (Inr ()), s)"
| "handle_event H s FundingTransactionReadyForSigning = (Return (Inr ()), s)"
| "handle_event H s (PaymentSent i preimage hash fee) = handle_payment_sent H s i preimage fee"
| "handle_event H s (PaymentClaimable hash purpose) = handle_payment_claimable H s hash purpose"
| "handle_event H s (PaymentClaimed hash amount) = handle_payment_claimed H s hash amount"
| "handle_event H s (PaymentFailed i hash reason) = handle_payment_failed H s i hash reason"
| "handle_event H s PaymentPathFailed = (Return (Inr ()), s)"
| "handle_event H s (PaymentPathSuccessful i hash) = handle_payment_path_successful H s hash"
| "handle_event H s PaymentForwarded = (Return (Inr ()), s)"
| "handle_event H s InvoiceReceived = (Return (Inr ()), s)"
| "handle_event H s HTLCIntercepted = (Return (Inr ()), s)"
| "handle_event H s HTLCHandlingFailed = (Return (Inr ()), s)"
| "handle_event H s PersistStaticInvoice = (Return (Inr ()), s)"
| "handle_event H s StaticInvoiceRequested = (Return (Inr ()), s)"
| "handle_event H s SpendableOutputs = (Return (Inr ()), s)"
| "handle_event H s (BumpTransaction bump_event) = handle_bump_transaction H s bump_event"
| "handle_event H s DiscardFunding = (Return (Inr ()), s)"
| "handle_event H s FundingTxBroadcastSafe = (Return (Inr ()), s)"
| "handle_event H s OnionMessageIntercepted = (Return (Inr ()), s)"
| "handle_event H s OnionMessagePeerConnected = (Return (Inr ()), s)"
| "handle_event H s ConnectionNeeded = (Return (Inr ()), s)"
| "handle_event H s ProbeFailed = (Return (Inr ()), s)"
| "handle_event H s ProbeSuccessful = (Return (Inr ()), s)"

text \<open>The background processor handles events one after the other; a panic ends its task.\<close>

fun run_events :: "('kv, 'cm, 'w, 'p, 'b) handler_env \<Rightarrow> ('kv, 'cm, 'w, 'b) handler_state \<Rightarrow> event list \<Rightarrow>
    handled \<times> ('kv, 'cm, 'w, 'b) handler_state" where
  "run_events H s [] = (Return (Inr ()), s)"
| "run_events H s (e # es) =
     (case handle_event H s e of
        (Return _, s') \<Rightarrow> run_events H s' es
      | (Panic m, s') \<Rightarrow> (Panic m, s'))"

text \<open>An inbound channel request in one equation; \<open>low_reserve\<close> is the check of the anchor reserve.\<close>

definition low_reserve :: "('kv, 'cm, 'w, 'p, 'b) handler_env \<Rightarrow> ('kv, 'cm, 'w, 'b) handler_state \<Rightarrow> bool" where
  "low_reserve H s \<longleftrightarrow> confirmed (wallet_balance (env_bdk H) (guarded (onchain_wallet s))) < anchor_reserve_sat"

lemma handle_open_channel_request_eq [handler_defs]:
  "handle_open_channel_request H s c k value anchors =
     (if anchors \<and> poisoned (onchain_wallet s) then (Panic poison_error, s)
      else (Return (Inr ()), s\<lparr>channel_manager :=
        snd (accept_inbound_channel (env_cm H)
          (if anchors \<and> low_reserve H s
           then snd (force_close_broadcasting_latest_txn (env_cm H) (channel_manager s) c k
                       ''unable to accept new channel'')
           else channel_manager s) c k 0)\<rparr>))"
  by (simp add: handle_open_channel_request_def low_reserve_def read_lock_def Let_def)

section \<open>What an event means for a payment\<close>

text \<open>The abstract effect of an event on the payment with id \<open>i\<close>.\<close>

fun event_effect :: "payment_id \<Rightarrow> event \<Rightarrow> payment \<Rightarrow> payment" where
  "event_effect i (PaymentSent (Some j) preimage hash fee) p =
     (if j = i then p\<lparr>status := Succeeded, payment_preimage := Some preimage, fee_paid_msat := fee\<rparr> else p)"
| "event_effect i (PaymentFailed j (Some hash) reason) p =
     (if j = i then p\<lparr>status := Failed\<rparr> else p)"
| "event_effect i _ p = p"

text \<open>The payment an event concerns.\<close>

fun event_target :: "event \<Rightarrow> payment_id option" where
  "event_target (PaymentSent (Some j) preimage hash fee) = Some j"
| "event_target (PaymentFailed j (Some hash) reason) = Some j"
| "event_target _ = None"

lemma event_target_outcome [simp]:
  "event_target (PaymentSent j preimage hash fee) = j"
  "event_target (PaymentFailed i h reason) = (case h of None \<Rightarrow> None | Some _ \<Rightarrow> Some i)"
  by (cases j; simp) (cases h; simp)

lemma event_effect_other: "event_target e \<noteq> Some i \<Longrightarrow> event_effect i e p = p"
  by (cases e rule: event_target.cases) auto

lemma event_effect_key [simp]: "payment_id (event_effect i e p) = payment_id p"
  by (cases "(i, e, p)" rule: event_effect.cases) simp_all

text \<open>A set of store states in which payments can be written and that writing does not leave.\<close>

definition writable :: "'kv store_env \<Rightarrow> ('kv \<Rightarrow> bool) \<Rightarrow> bool" where
  "writable E good \<longleftrightarrow>
     (\<forall>s p. good s \<longrightarrow> fst (add_payment E s p) = Inr () \<and> good (snd (add_payment E s p)))"

lemma writableD:
  assumes "writable E good" and "good s"
  obtains s' where "update_payment E s p = (Inr (), s')" and "add_payment E s p = (Inr (), s')"
    and "good s'"
proof -
  from assms have "add_payment E s p = (Inr (), snd (add_payment E s p))"
      "good (snd (add_payment E s p))"
    by (simp_all add: writable_def prod_eq_iff)
  then show thesis by (intro that) (simp_all add: update_payment_def)
qed

section \<open>The handler on the store\<close>

lemmas handler_splits =
  prod.splits outcome.splits sum.splits option.splits payment_purpose.splits if_splits

lemma handled_cases:
  "fst (handle_event H s e) \<noteq> Return (Inl x)"
  by (cases "(H, s, e)" rule: handle_event.cases)
    (auto simp: handler_defs Let_def bind_outcome_Return_iff split: prod.splits outcome.splits sum.splits
      option.splits payment_purpose.splits)

lemma modified_view:
  assumes "store_laws E" and "payments_wf E kv" and "writable E good" and "good kv"
    and "payments_view E kv i = Some p" and "payment_id p' = payment_id p"
  shows "payments_view E (snd (update_payment E kv p')) = (payments_view E kv)(i \<mapsto> p') \<and>
    payments_wf E (snd (update_payment E kv p')) \<and> good (snd (update_payment E kv p'))"
proof -
  obtain kv' where kv': "update_payment E kv p' = (Inr (), kv')" "add_payment E kv p' = (Inr (), kv')"
      "good kv'"
    by (rule writableD [OF assms(3,4)])
  from payments.modify_refines [OF assms(1,2,5,6) kv'(2)] kv' show ?thesis by simp
qed

text \<open>Only the two payment outcomes write to the store, and a handler that panics has not written.\<close>

lemma handle_event_store:
  assumes "handle_event H s e = (Return r, s')"
  shows "node_store s' =
    (case event_target e of
       None \<Rightarrow> node_store s
     | Some i \<Rightarrow>
         (case payments_view (env_store H) (node_store s) i of
            None \<Rightarrow> node_store s
          | Some p \<Rightarrow> snd (update_payment (env_store H) (node_store s) (event_effect i e p))))"
  using assms
  by (cases "(H, s, e)" rule: handle_event.cases)
    (auto simp: handler_defs Let_def payments_view_get
      split: prod.splits outcome.splits sum.splits option.splits payment_purpose.splits if_splits)

lemma handle_event_panic_store:
  "handle_event H s e = (Panic m, s') \<Longrightarrow> node_store s' = node_store s"
  by (cases "(H, s, e)" rule: handle_event.cases)
    (auto simp: handler_defs Let_def
      split: prod.splits outcome.splits sum.splits option.splits payment_purpose.splits if_splits)

lemma handle_event_view:
  assumes "store_laws E" and "env_store H = E" and "writable E good"
    and "payments_wf E (node_store s)" and "good (node_store s)"
    and "handle_event H s e = (Return r, s')"
  shows "payments_view E (node_store s') i = map_option (event_effect i e) (payments_view E (node_store s) i)"
    and "payments_wf E (node_store s')" and "good (node_store s')"
proof -
  have "payments_view E (node_store s') i = map_option (event_effect i e) (payments_view E (node_store s) i) \<and>
      payments_wf E (node_store s') \<and> good (node_store s')"
  proof (cases "event_target e")
    case None
    then show ?thesis using handle_event_store [OF assms(6)] assms(4,5)
      by (simp add: event_effect_other option.map_ident_strong)
  next
    case (Some j)
    show ?thesis
    proof (cases "payments_view E (node_store s) j")
      case None
      with Some handle_event_store [OF assms(6)] assms(2,4,5) show ?thesis
        by (cases "i = j") (simp_all add: event_effect_other option.map_ident_strong)
    next
      case view: (Some p)
      with Some handle_event_store [OF assms(6)] assms(2)
      have "node_store s' = snd (update_payment E (node_store s) (event_effect j e p))" by simp
      with modified_view [OF assms(1,4,3,5) view event_effect_key, of j e] Some view show ?thesis
        by (cases "i = j") (simp_all add: event_effect_other option.map_ident_strong)
    qed
  qed
  then show "payments_view E (node_store s') i = map_option (event_effect i e) (payments_view E (node_store s) i)"
    and "payments_wf E (node_store s')" and "good (node_store s')" by simp_all
qed

text \<open>The same for a run of events: the abstract effects are applied in order.\<close>

lemma run_events_view:
  assumes "store_laws E" and "env_store H = E" and "writable E good"
  shows "payments_wf E (node_store s) \<Longrightarrow> good (node_store s) \<Longrightarrow>
    run_events H s es = (Return r, s') \<Longrightarrow>
    payments_view E (node_store s') i = map_option (fold (event_effect i) es) (payments_view E (node_store s) i) \<and>
    payments_wf E (node_store s') \<and> good (node_store s')"
proof (induction es arbitrary: s)
  case Nil
  then show ?case by (simp add: option.map_ident_strong)
next
  case (Cons e es)
  from Cons.prems(3) obtain x s1 where s1: "handle_event H s e = (Return x, s1)"
      "run_events H s1 es = (Return r, s')"
    by (auto split: prod.splits outcome.splits)
  note step = handle_event_view [OF assms Cons.prems(1,2) s1(1)]
  from Cons.IH [OF step(2,3) s1(2)] step(1) show ?case
    by (cases "payments_view E (node_store s) i") simp_all
qed

text \<open>Peers are never touched.\<close>

lemma handle_event_peers:
  assumes "store_laws (env_store H)"
  shows "peers_view (env_store H) (node_store (snd (handle_event H s e))) =
    peers_view (env_store H) (node_store s)"
    and "peers_wf (env_store H) (node_store (snd (handle_event H s e))) = peers_wf (env_store H) (node_store s)"
proof -
  obtain r s' where run: "handle_event H s e = (r, s')" by (cases "handle_event H s e")
  note upd = add_payment_peers [OF assms prod.collapse [symmetric]]
  consider "node_store s' = node_store s" | p where "node_store s' = snd (add_payment (env_store H) (node_store s) p)"
  proof (cases r)
    case (Return x)
    with run have "handle_event H s e = (Return x, s')" by simp
    from handle_event_store [OF this] that show thesis
      by (auto simp: update_payment_def split: option.splits)
  next
    case (Panic m)
    with run that(1) handle_event_panic_store [of H s e m s'] show thesis by simp
  qed
  then show "peers_view (env_store H) (node_store (snd (handle_event H s e))) = peers_view (env_store H) (node_store s)"
    and "peers_wf (env_store H) (node_store (snd (handle_event H s e))) = peers_wf (env_store H) (node_store s)"
    using run upd by (cases; simp)+
qed

text \<open>An event that concerns another payment, or none, leaves a payment out.\<close>

lemma fold_event_effect_other:
  "\<forall>e \<in> set es. event_target e \<noteq> Some i \<Longrightarrow> fold (event_effect i) es p = p"
  by (induction es) (simp_all add: event_effect_other)

text \<open>The last event that concerns a payment decides its status.\<close>

definition event_status :: "event \<Rightarrow> payment_status" where
  "event_status e = (case e of PaymentSent _ _ _ _ \<Rightarrow> Succeeded | _ \<Rightarrow> Failed)"

lemma event_effect_status: "event_target e = Some i \<Longrightarrow> status (event_effect i e p) = event_status e"
  by (cases e rule: event_target.cases) (simp_all add: event_status_def)

lemma fold_event_effect_last:
  assumes "event_target e = Some i" and "\<forall>e' \<in> set es'. event_target e' \<noteq> Some i"
  shows "status (fold (event_effect i) (es @ e # es') p) = event_status e"
  using assms by (simp add: fold_event_effect_other event_effect_status)

lemma event_effect_amount: "amount_msat (event_effect i e p) = amount_msat p"
  by (cases "(i, e, p)" rule: event_effect.cases) simp_all

lemma fold_event_effect_amount: "amount_msat (fold (event_effect i) es p) = amount_msat p"
  by (induction es arbitrary: p) (simp_all add: event_effect_amount)

lemma run_events_peers:
  assumes "store_laws (env_store H)"
  shows "peers_view (env_store H) (node_store (snd (run_events H s es))) =
    peers_view (env_store H) (node_store s)"
proof (induction es arbitrary: s)
  case (Cons e es)
  show ?case
  proof (cases "handle_event H s e")
    case (Pair r s')
    with handle_event_peers [OF assms, of s e] Cons [of s'] show ?thesis
      by (cases r) simp_all
  qed
qed simp

section \<open>The calls a channel manager sees\<close>

text \<open>
  The calls an event makes on the channel manager, the hand-over of a funding transaction apart; \<open>low\<close> says
  that the confirmed balance is below the anchor reserve. \<open>reserve_trace\<close> is what that check finds before each event.
\<close>

fun event_calls :: "bool \<Rightarrow> event \<Rightarrow> cm_call list" where
  "event_calls low (OpenChannelRequest c k value anchors) =
     (if anchors \<and> low then [ForceClosed c k ''unable to accept new channel''] else []) @ [Accepted c k 0]"
| "event_calls low (PaymentClaimable hash (Bolt11InvoicePayment (Some preimage))) = [Claimed preimage]"
| "event_calls low (PaymentClaimable hash (Bolt11InvoicePayment None)) = []"
| "event_calls low (PaymentClaimable hash OtherPurpose) = [FailedBackwards hash]"
| "event_calls low _ = []"

definition other_calls :: "'cm \<times> cm_call list \<Rightarrow> cm_call list" where
  "other_calls l = filter (\<lambda>c. case c of FundingGenerated _ _ _ \<Rightarrow> False | _ \<Rightarrow> True) (snd l)"

fun reserve_trace :: "('kv, 'cm, 'w, 'p, 'b) handler_env \<Rightarrow> ('kv, 'cm, 'w, 'b) handler_state \<Rightarrow> event list \<Rightarrow> bool list" where
  "reserve_trace H s [] = []"
| "reserve_trace H s (e # es) = low_reserve H s # reserve_trace H (snd (handle_event H s e)) es"

lemma handle_event_calls:
  assumes "env_cm H = observed_cm M" and "handle_event H s e = (Return r, s')"
  shows "other_calls (channel_manager s') = other_calls (channel_manager s) @ event_calls (low_reserve H s) e"
  using assms
  by (cases "(H, s, e)" rule: handle_event.cases;
      auto simp: handler_defs Let_def observed_cm_def noted_def low_reserve_def other_calls_def
        split: handler_splits)

lemma run_events_calls:
  assumes "env_cm H = observed_cm M"
  shows "run_events H s es = (Return r, s') \<Longrightarrow> other_calls (channel_manager s') =
    other_calls (channel_manager s) @ concat (map2 event_calls (reserve_trace H s es) es)"
proof (induction es arbitrary: s)
  case (Cons e es)
  from Cons.prems obtain x s1 where s1: "handle_event H s e = (Return x, s1)"
      "run_events H s1 es = (Return r, s')"
    by (auto split: prod.splits outcome.splits)
  from handle_event_calls [OF assms s1(1)] Cons.IH [OF s1(2)] s1(1) show ?case by simp
qed simp

section \<open>When the handler panics\<close>

text \<open>The unwraps of the payment events, and the uses of the wallet's lock. An open fee estimate is the
  only other way to panic.\<close>

fun handler_panics :: "('kv, 'cm, 'w, 'p, 'b) handler_env \<Rightarrow> ('kv, 'cm, 'w, 'b) handler_state \<Rightarrow> event \<Rightarrow> bool" where
  "handler_panics H s (FundingGenerationReady c k value out) = poisoned (onchain_wallet s)"
| "handler_panics H s (OpenChannelRequest c k value anchors) = (anchors \<and> poisoned (onchain_wallet s))"
| "handler_panics H s (PaymentSent None preimage hash fee) = True"
| "handler_panics H s (PaymentSent (Some i) preimage hash fee) =
     (case payments_view (env_store H) (node_store s) i of
        None \<Rightarrow> False
      | Some p \<Rightarrow> env_log_info H \<and> (amount_msat p = None \<or> fee = None))"
| "handler_panics H s (PaymentFailed i hash reason) =
     (case payments_view (env_store H) (node_store s) i of
        None \<Rightarrow> False
      | Some p \<Rightarrow> env_log_info H \<and> hash \<noteq> None \<and> reason = None)"
| "handler_panics H s (PaymentPathSuccessful i hash) = (env_log_info H \<and> hash = None)"
| "handler_panics H s (BumpTransaction bump_event) =
     panics (fst (env_bump H (bump_tx_handler s) (onchain_wallet s) bump_event))"
| "handler_panics H s _ = False"

lemma funding_build_returns:
  assumes "\<And>t. \<not> panics (est t)"
  obtains x w' where "build_transaction B sh est w amount dest = (Return x, w')"
proof -
  obtain r where r: "est MaximumFeeEstimate = Return r" using assms by (auto simp: not_panics_iff)
  have "\<not> panics (fst (build_transaction B sh est w amount dest))"
    by (simp add: build_transaction_def r split: prod.split sum.split)
  then show ?thesis using that by (cases "build_transaction B sh est w amount dest") (auto simp: not_panics_iff)
qed

lemma handle_funding_panics:
  assumes "\<And>t. \<not> panics (env_estimate H t)"
  shows "fst (handle_funding_generation_ready H s c k value out) =
    (if poisoned (onchain_wallet s) then Panic poison_error else Return (Inr ()))"
proof -
  obtain x w' where "build_transaction (env_bdk H) (env_show_u64 H) (env_estimate H) (guarded (onchain_wallet s)) value out =
      (Return x, w')"
    by (rule funding_build_returns [OF assms])
  then show ?thesis
    by (simp add: handle_funding_generation_ready_def with_lock_def split: prod.split sum.split)
qed

lemma handle_event_panics:
  assumes "\<And>t. \<not> panics (env_estimate H t)"
  shows "panics (fst (handle_event H s e)) \<longleftrightarrow> handler_panics H s e"
    and "\<not> handler_panics H s e \<Longrightarrow> fst (handle_event H s e) = Return (Inr ())"
  by (cases "(H, s, e)" rule: handler_panics.cases;
      auto simp: handle_funding_panics [OF assms] handle_open_channel_request_eq handle_payment_sent_def
        handle_payment_claimable_def handle_payment_failed_def handle_bump_transaction_def
        handle_payment_path_successful_def Let_def
        payments_view_get log_info_def read_lock_def bind_outcome_def unwrap_def evaluate_def
        split: handler_splits)+

section \<open>A concrete handler for the witnesses\<close>

definition sample_handler :: "(mem_store, cm_log, u64, (script \<times> u64) list, u8) handler_env" where
  "sample_handler =
     \<lparr>env_store = ref_env, env_cm = recording_cm, env_bdk = ref_bdk, env_show_u64 = (\<lambda>n. ''n''),
      env_estimate = get_est_sat_per_1000_weight (new_bitcoind_client ()),
      env_bump = (\<lambda>b w e. (Return (), b + 1, w)), env_config = sample_config, env_log_info = True\<rparr>"

definition sample_state :: "mem_store \<Rightarrow> u64 \<Rightarrow> (mem_store, cm_log, u64, u8) handler_state" where
  "sample_state kv balance =
     \<lparr>node_store = kv, channel_manager = quiet_cm, onchain_wallet = unlocked balance, bump_tx_handler = 0\<rparr>"

lemma sample_simps [simp]:
  "env_store sample_handler = ref_env" "env_cm sample_handler = recording_cm"
  "env_bdk sample_handler = ref_bdk" "env_log_info sample_handler = True"
  "env_estimate sample_handler = get_est_sat_per_1000_weight (new_bitcoind_client ())"
  "node_store (sample_state kv w) = kv" "channel_manager (sample_state kv w) = quiet_cm"
  "onchain_wallet (sample_state kv w) = unlocked w"
  by (simp_all add: sample_handler_def sample_state_def)

text \<open>The store in memory can be written for as long as its failure switch is off.\<close>

lemma ref_writable: "writable ref_env (\<lambda>kv. \<not> write_fails kv)"
  by (simp add: writable_def add_payment_def ref_env_def mem_kv_def mem_write_def)

lemma one_payment_writable: "\<not> write_fails (one_payment_store p)"
  by (simp add: one_payment_store_def add_payment_def ref_env_def mem_kv_def mem_write_def empty_store_def)

definition sent_event :: event where
  "sent_event = PaymentSent (Some (PaymentId [7, 1])) (PaymentPreimage [3]) (PaymentHash [7, 1]) (Some 2)"

definition failed_event :: event where
  "failed_event = PaymentFailed (PaymentId [7, 1]) (Some (PaymentHash [7, 1])) (Some ''no route'')"

lemma sample_events_target [simp]:
  "event_target sent_event = Some (PaymentId [7, 1])"
  "event_target failed_event = Some (PaymentId [7, 1])"
  by (simp_all add: sent_event_def failed_event_def)

lemma sample_id: "payment_id (sample_payment 7) = PaymentId [7, 1]"
  by (simp add: sample_payment_def)

section \<open>Properties\<close>

text \<open>
  C4: the handler refines the abstract payment events: after any run of events that does not panic,
  on a well-formed store that can be written, the payment under an id is the earlier one with the effects
  of the events applied in order, the store is well formed again, and no peer has changed.
\<close>

theorem payment_events_refine:
  assumes "store_laws (env_store H)" and "writable (env_store H) good"
    and "payments_wf (env_store H) (node_store s)" and "good (node_store s)"
    and "run_events H s es = (Return r, s')"
  shows "payments_view (env_store H) (node_store s') i =
      map_option (fold (event_effect i) es) (payments_view (env_store H) (node_store s) i) \<and>
    payments_wf (env_store H) (node_store s') \<and> good (node_store s') \<and>
    peers_view (env_store H) (node_store s') = peers_view (env_store H) (node_store s)"
  using run_events_view [OF assms(1) refl assms(2-5)] run_events_peers [OF assms(1), of s es] assms(5)
  by simp

theorem payment_events_refine_witness:
  "\<exists>r s'. run_events sample_handler (sample_state (one_payment_store (sample_payment 7)) 0) [sent_event] = (Return r, s') \<and>
     payments_view ref_env (node_store s') (PaymentId [7, 1]) =
       Some (event_effect (PaymentId [7, 1]) sent_event (sample_payment 7))"
proof -
  let ?s = "sample_state (one_payment_store (sample_payment 7)) 0"
  have view: "payments_view ref_env (one_payment_store (sample_payment 7)) (PaymentId [7, 1]) =
      Some (sample_payment 7)"
    using one_payment_store_facts(2) [of "sample_payment 7"] by (simp add: sample_id)
  have "fst (run_events sample_handler ?s [sent_event]) = Return (Inr ())" by code_simp
  then obtain s' where run: "run_events sample_handler ?s [sent_event] = (Return (Inr ()), s')"
    by (metis prod.collapse)
  from payment_events_refine [of sample_handler "\<lambda>kv. \<not> write_fails kv" ?s, OF _ _ _ _ run, of "PaymentId [7, 1]"]
  have "payments_view ref_env (node_store s') (PaymentId [7, 1]) =
      Some (event_effect (PaymentId [7, 1]) sent_event (sample_payment 7))"
    by (simp add: ref_env_laws ref_writable one_payment_store_facts(1) one_payment_writable view)
  with run show ?thesis by blast
qed

text \<open>
  The last outcome LDK reports decides: in a run of events, the status stored for a known
  payment is that of the last \<open>PaymentSent\<close> or \<open>PaymentFailed\<close> (with a hash) for its id,
  whatever other events come before and after.
\<close>

theorem last_outcome_decides:
  assumes "store_laws (env_store H)" and "writable (env_store H) good"
    and "payments_wf (env_store H) (node_store s)" and "good (node_store s)"
    and "run_events H s (es @ e # es') = (Return r, s')"
    and "payments_view (env_store H) (node_store s) i = Some p"
    and "event_target e = Some i" and "\<forall>e' \<in> set es'. event_target e' \<noteq> Some i"
  shows "\<exists>p'. get_payment (env_store H) (node_store s') i = Inr p' \<and> status p' = event_status e \<and>
    amount_msat p' = amount_msat p"
proof -
  let ?p' = "fold (event_effect i) (es @ e # es') p"
  have "payments_view (env_store H) (node_store s') i = Some ?p'"
    using run_events_view [OF assms(1) refl assms(2-5), of i] assms(6) by simp
  moreover have "status ?p' = event_status e" by (rule fold_event_effect_last [OF assms(7,8)])
  moreover have "amount_msat ?p' = amount_msat p" by (rule fold_event_effect_amount)
  ultimately show ?thesis by (simp add: get_payment_view)
qed

theorem last_outcome_decides_witness:
  "\<exists>r s' p'. run_events sample_handler (sample_state (one_payment_store (sample_payment 7)) 0)
       ([failed_event] @ sent_event # [ChannelPending (ChannelId [])]) = (Return r, s') \<and>
     get_payment ref_env (node_store s') (PaymentId [7, 1]) = Inr p' \<and> status p' = Succeeded"
proof -
  let ?s = "sample_state (one_payment_store (sample_payment 7)) 0"
  let ?es = "[failed_event] @ sent_event # [ChannelPending (ChannelId [])]"
  have view: "payments_view ref_env (one_payment_store (sample_payment 7)) (PaymentId [7, 1]) =
      Some (sample_payment 7)"
    using one_payment_store_facts(2) [of "sample_payment 7"] by (simp add: sample_id)
  have "fst (run_events sample_handler ?s ?es) = Return (Inr ())" by code_simp
  then obtain s' where run: "run_events sample_handler ?s ?es = (Return (Inr ()), s')"
    by (metis prod.collapse)
  have "event_status sent_event = Succeeded" by (simp add: event_status_def sent_event_def)
  with last_outcome_decides [of sample_handler "\<lambda>kv. \<not> write_fails kv" ?s, OF _ _ _ _ run,
      of "PaymentId [7, 1]" "sample_payment 7"] run
  show ?thesis
    by (auto simp: ref_env_laws ref_writable one_payment_store_facts(1) one_payment_writable view)
qed

text \<open>
  An incoming payment is never marked as received: whatever claimable, claimed and other events
  arrive that are no outcome of an outgoing payment with its id, the stored payment stays what it was when
  the invoice was created.
\<close>

theorem received_payment_stays_pending:
  assumes "store_laws (env_store H)" and "writable (env_store H) good"
    and "payments_wf (env_store H) (node_store s)" and "good (node_store s)"
    and "run_events H s (es @ PaymentClaimable h purpose # es' @ [PaymentClaimed h amount]) = (Return r, s')"
    and "\<forall>e \<in> set es \<union> set es'. event_target e \<noteq> Some i"
  shows "payments_view (env_store H) (node_store s') i = payments_view (env_store H) (node_store s) i"
proof -
  let ?run = "es @ PaymentClaimable h purpose # es' @ [PaymentClaimed h amount]"
  have "\<forall>e \<in> set ?run. event_target e \<noteq> Some i" using assms(6) by auto
  then have "fold (event_effect i) ?run p = p" for p by (rule fold_event_effect_other)
  with run_events_view [OF assms(1) refl assms(2-5), of i] show ?thesis
    by (simp add: option.map_ident_strong)
qed

definition inbound_payment :: payment where
  "inbound_payment = (sample_payment 7)\<lparr>direction := Inbound\<rparr>"

definition claim_run :: "event list" where
  "claim_run = [] @ PaymentClaimable (PaymentHash [7, 1]) (Bolt11InvoicePayment (Some (PaymentPreimage [3]))) #
     [] @ [PaymentClaimed (PaymentHash [7, 1]) 50]"

theorem received_payment_stays_pending_witness:
  "\<exists>r s'. run_events sample_handler (sample_state (one_payment_store inbound_payment) 0) claim_run = (Return r, s') \<and>
     get_payment ref_env (node_store s') (PaymentId [7, 1]) = Inr inbound_payment \<and>
     status inbound_payment = Pending"
proof -
  let ?s = "sample_state (one_payment_store inbound_payment) 0"
  have i: "payment_id inbound_payment = PaymentId [7, 1]" "status inbound_payment = Pending"
    by (simp_all add: inbound_payment_def sample_payment_def)
  have "fst (run_events sample_handler ?s claim_run) = Return (Inr ())" by code_simp
  then obtain s' where run: "run_events sample_handler ?s claim_run = (Return (Inr ()), s')"
    by (metis prod.collapse)
  from received_payment_stays_pending [of sample_handler "\<lambda>kv. \<not> write_fails kv" ?s,
      OF _ _ _ _ run [unfolded claim_run_def], of "PaymentId [7, 1]"]
  have "payments_view ref_env (node_store s') (PaymentId [7, 1]) = Some inbound_payment"
    using one_payment_store_facts [of inbound_payment]
    by (simp add: ref_env_laws ref_writable one_payment_writable i)
  with run i(2) show ?thesis by (auto simp: get_payment_view)
qed


definition ticked_handler :: "(mem_store, cm_log, u64, (script \<times> u64) list, u8) handler_env" where
  "ticked_handler = sample_handler\<lparr>env_estimate :=
     get_est_sat_per_1000_weight (fst (update_fee_estimates (stateless_rpc (\<lambda>m args. Inl ''down''))
       (new_bitcoind_client ()) [SleepElapsed, ShutdownCancelled]))\<rparr>"


text \<open>
  A payment outcome whose store write fails is lost: the event is reported as handled, so LDK
  does not deliver it again, and the store is left as the failed write left it.
\<close>

theorem failed_write_loses_outcome:
  assumes "get_payment (env_store H) (node_store s) i = Inr p" and "amount_msat p \<noteq> None"
    and "update_payment (env_store H) (node_store s)
      (p\<lparr>status := Succeeded, payment_preimage := Some x, fee_paid_msat := Some fee\<rparr>) = (Inl err, kv')"
  shows "handle_event H s (PaymentSent (Some i) x h (Some fee)) = (Return (Inr ()), s\<lparr>node_store := kv'\<rparr>)"
  using assms by (auto simp: handle_payment_sent_def log_info_def)

definition full_disk_store :: mem_store where
  "full_disk_store = (one_payment_store (sample_payment 7))\<lparr>write_fails := True\<rparr>"

theorem failed_write_loses_outcome_witness:
  "handle_event sample_handler (sample_state full_disk_store 0)
      (PaymentSent (Some (PaymentId [7, 1])) (PaymentPreimage [3]) (PaymentHash [7, 1]) (Some 2)) =
     (Return (Inr ()), sample_state full_disk_store 0) \<and>
   get_payment ref_env full_disk_store (PaymentId [7, 1]) = Inr (sample_payment 7)"
proof -
  have get: "get_payment ref_env full_disk_store (PaymentId [7, 1]) = Inr (sample_payment 7)" by code_simp
  have upd: "update_payment ref_env full_disk_store p = (Inl (IoError OtherKind ''write failed''), full_disk_store)" for p
    by (simp add: update_payment_def add_payment_def ref_env_def mem_kv_def mem_write_def full_disk_store_def)
  have amount: "amount_msat (sample_payment 7) \<noteq> None" by (simp add: sample_payment_def)
  have same: "(sample_state full_disk_store 0)\<lparr>node_store := full_disk_store\<rparr> = sample_state full_disk_store 0"
    by (simp add: sample_state_def)
  from failed_write_loses_outcome [of sample_handler "sample_state full_disk_store 0"] get upd amount same
  show ?thesis by simp
qed

text \<open>
  C17: a funding request leaves the store alone and either leaves the channel manager alone too or gives
  it one transaction that pays exactly the channel's value to the channel's script, out of a confirmed
  balance that covers it; below that balance neither the channel manager nor the wallet is touched, and
  LDK is not told.
\<close>

theorem funding_pays_channel:
  assumes "builder_pays (env_bdk H)" and "\<not> poisoned (onchain_wallet s)"
    and "b = wallet_balance (env_bdk H) (guarded (onchain_wallet s))"
    and "handle_event H s (FundingGenerationReady c k value out) = (res, s')"
  shows "node_store s' = node_store s \<and>
    (channel_manager s' = channel_manager s \<or>
     (\<exists>tx. (out, value) \<in> set (tx_outputs tx) \<and> value \<le> confirmed b \<and>
        channel_manager s' = snd (funding_transaction_generated (env_cm H) (channel_manager s) c k tx))) \<and>
    (confirmed b < value \<longrightarrow> s' = s \<and> res = Return (Inr ()))"
proof -
  obtain built w where run: "build_transaction (env_bdk H) (env_show_u64 H) (env_estimate H)
      (guarded (onchain_wallet s)) value out = (built, w)"
    by (cases "build_transaction (env_bdk H) (env_show_u64 H) (env_estimate H)
      (guarded (onchain_wallet s)) value out")
  with assms(2) have lock: "with_lock (\<lambda>w. build_transaction (env_bdk H) (env_show_u64 H) (env_estimate H) w value out)
      (onchain_wallet s) = (built, \<lparr>guarded = w, poisoned = panics built\<rparr>)"
    by (simp add: with_lock_def)
  have refused: "s' = s \<and> res = Return (Inr ())" if "confirmed b < value"
  proof -
    from that run assms(3) have "w = guarded (onchain_wallet s)" "\<exists>e. built = Return (Inl e)"
      by (auto simp: build_transaction_def)
    with lock assms(2,4) show ?thesis by (auto simp: handle_funding_generation_ready_def)
  qed
  show ?thesis
  proof (cases "\<exists>tx. built = Return (Inr tx)")
    case True
    then obtain tx where tx: "built = Return (Inr tx)" ..
    with run have built: "build_transaction (env_bdk H) (env_show_u64 H) (env_estimate H)
        (guarded (onchain_wallet s)) value out = (Return (Inr tx), w)" by simp
    then have "value \<le> confirmed b" unfolding assms(3) by (rule build_transaction_Inr)
    moreover note build_transaction_output [OF assms(1) built] refused
    moreover from assms(4) lock tx have "node_store s' = node_store s" "channel_manager s' =
        snd (funding_transaction_generated (env_cm H) (channel_manager s) c k tx)"
      by (auto simp: handle_funding_generation_ready_def split_pair_eq)
    ultimately show ?thesis by blast
  next
    case False
    with assms(4) lock have "node_store s' = node_store s \<and> channel_manager s' = channel_manager s"
      by (auto simp: handle_funding_generation_ready_def split: outcome.splits sum.splits)
    with refused show ?thesis by blast
  qed
qed

theorem funding_pays_channel_witness:
  "builder_pays (env_bdk sample_handler) \<and>
   cm_calls (channel_manager (snd (handle_event sample_handler (sample_state empty_store 5000)
      (FundingGenerationReady (ChannelId [1]) (PublicKey [2]) 4000 [5])))) =
     [FundingGenerated (ChannelId [1]) (PublicKey [2]) \<lparr>tx_encoding = [], tx_outputs = [([5], 4000)]\<rparr>] \<and>
   snd (handle_event sample_handler (sample_state empty_store 5000)
      (FundingGenerationReady (ChannelId [1]) (PublicKey [2]) 6000 [5])) = sample_state empty_store 5000"
proof -
  have "cm_calls (channel_manager (snd (handle_event sample_handler (sample_state empty_store 5000)
      (FundingGenerationReady (ChannelId [1]) (PublicKey [2]) 4000 [5])))) =
     [FundingGenerated (ChannelId [1]) (PublicKey [2]) \<lparr>tx_encoding = [], tx_outputs = [([5], 4000)]\<rparr>]"
    by (simp add: handle_funding_generation_ready_def build_transaction_def finish_transaction_def
        sample_handler_def sample_state_def ref_bdk_def recording_cm_def log_call_def quiet_cm_def with_lock_def
        get_est_sat_per_1000_weight_def new_bitcoind_client_def CONF_TARGETS_def)
  moreover have "\<not> poisoned (onchain_wallet (sample_state empty_store 5000))" by simp
  moreover have "confirmed (wallet_balance (env_bdk sample_handler) (guarded (onchain_wallet (sample_state empty_store 5000)))) < 6000"
    by (simp add: ref_bdk_def)
  moreover note funding_pays_channel [of sample_handler "sample_state empty_store 5000" _ _ _ 6000,
      OF _ _ refl prod.collapse [symmetric]]
  ultimately show ?thesis using ref_bdk_laws(1) by (metis sample_simps(3))
qed

text \<open>
  C39: over any run of events that ends without a panic, the calls on the channel manager, whichever it is and
  whatever it answers, are, funding transactions apart, exactly those the events ask for, in their order. Every inbound channel request that is handled is accepted, whatever its value
  and the configured minimum; one with anchors is force-closed just before, when the confirmed balance is under the
  reserve at that moment, and is accepted all the same. A claimable HTLC with a known preimage is claimed once with that
  preimage, one without a preimage gets no call (it is neither claimed nor failed back), and one of another purpose is failed
  back.
\<close>

theorem channel_and_htlc_calls:
  assumes "env_cm H = observed_cm M" and "run_events H s es = (Return r, s')"
  shows "other_calls (channel_manager s') =
    other_calls (channel_manager s) @ concat (map2 (\<lambda>low e. case e of
        OpenChannelRequest c k value anchors \<Rightarrow>
          (if anchors \<and> low then [ForceClosed c k ''unable to accept new channel''] else []) @ [Accepted c k 0]
      | PaymentClaimable hash (Bolt11InvoicePayment (Some preimage)) \<Rightarrow> [Claimed preimage]
      | PaymentClaimable hash OtherPurpose \<Rightarrow> [FailedBackwards hash]
      | _ \<Rightarrow> []) (reserve_trace H s es) es)"
proof -
  have "event_calls low e = (case e of
        OpenChannelRequest c k value anchors \<Rightarrow>
          (if anchors \<and> low then [ForceClosed c k ''unable to accept new channel''] else []) @ [Accepted c k 0]
      | PaymentClaimable hash (Bolt11InvoicePayment (Some preimage)) \<Rightarrow> [Claimed preimage]
      | PaymentClaimable hash OtherPurpose \<Rightarrow> [FailedBackwards hash]
      | _ \<Rightarrow> [])" for low e
    by (cases "(low, e)" rule: event_calls.cases) simp_all
  then have "event_calls = (\<lambda>low e. case e of
        OpenChannelRequest c k value anchors \<Rightarrow>
          (if anchors \<and> low then [ForceClosed c k ''unable to accept new channel''] else []) @ [Accepted c k 0]
      | PaymentClaimable hash (Bolt11InvoicePayment (Some preimage)) \<Rightarrow> [Claimed preimage]
      | PaymentClaimable hash OtherPurpose \<Rightarrow> [FailedBackwards hash]
      | _ \<Rightarrow> [])"
    by (simp add: fun_eq_iff)
  with run_events_calls [OF assms] show ?thesis by simp
qed

definition htlc_run :: "event list" where
  "htlc_run =
     [PaymentClaimable (PaymentHash [1]) (Bolt11InvoicePayment (Some (PaymentPreimage [3]))),
      FundingGenerationReady (ChannelId [1]) (PublicKey [2]) 4000 [5],
      PaymentClaimable (PaymentHash [2]) (Bolt11InvoicePayment None),
      OpenChannelRequest (ChannelId [8]) (PublicKey [2]) 20 True,
      PaymentClaimable (PaymentHash [4]) OtherPurpose]"

definition refusing_handler :: "(mem_store, cm_log \<times> cm_call list, u64, (script \<times> u64) list, u8) handler_env" where
  "refusing_handler =
     \<lparr>env_store = ref_env,
      env_cm = observed_cm (recording_cm\<lparr>accept_inbound_channel := (\<lambda>l c k u. (Inl (ChannelUnavailable ''no such channel''), l))\<rparr>),
      env_bdk = ref_bdk, env_show_u64 = (\<lambda>n. ''n''),
      env_estimate = get_est_sat_per_1000_weight (new_bitcoind_client ()),
      env_bump = (\<lambda>b w e. (Return (), b + 1, w)), env_config = sample_config, env_log_info = True\<rparr>"

definition observed_state :: "(mem_store, cm_log \<times> cm_call list, u64, u8) handler_state" where
  "observed_state =
     \<lparr>node_store = empty_store, channel_manager = (quiet_cm, []), onchain_wallet = unlocked 5000, bump_tx_handler = 0\<rparr>"

theorem channel_and_htlc_calls_witness:
  "\<exists>r s'. run_events refusing_handler observed_state htlc_run = (Return r, s') \<and>
     other_calls (channel_manager s') =
       [Claimed (PaymentPreimage [3]), ForceClosed (ChannelId [8]) (PublicKey [2]) ''unable to accept new channel'',
        Accepted (ChannelId [8]) (PublicKey [2]) 0, FailedBackwards (PaymentHash [4])]"
proof -
  have "fst (run_events refusing_handler observed_state htlc_run) = Return (Inr ())" by code_simp
  then obtain s' where run: "run_events refusing_handler observed_state htlc_run = (Return (Inr ()), s')"
    by (metis prod.collapse)
  have low: "reserve_trace refusing_handler observed_state htlc_run = [True, True, True, True, True]" by code_simp
  have "other_calls (channel_manager observed_state) = []" by (simp add: other_calls_def observed_state_def)
  moreover have "env_cm refusing_handler =
      observed_cm (recording_cm\<lparr>accept_inbound_channel := (\<lambda>l c k u. (Inl (ChannelUnavailable ''no such channel''), l))\<rparr>)"
    by (simp add: refusing_handler_def)
  ultimately show ?thesis
    using channel_and_htlc_calls [OF _ run] run low by (auto simp: htlc_run_def)
qed

end
