(* ===== verification/NodeOperations.thy ===== *)
theory NodeOperations
  imports Storage OnchainWallet ChannelManager
begin

text \<open>
  The operations of \<open>Node\<close> in \<open>src/node.rs\<close> that the socket server calls (channels,
  payments, addresses, balance, connections) and the two loops over the stored peers that
  \<open>Node::start\<close> runs, at start-up and at shutdown. LDK's peer manager and channel manager are
  parameters; the random user channel id is an argument.
\<close>

section \<open>State\<close>

text \<open>
  Of the fields of \<open>Node\<close> the record \<open>node\<close> has the ones its operations change or read; the
  configuration, the key-value store of LDK, the gossip objects and the logger are only passed on to LDK.
  The shutdown token is whether it has been cancelled.
\<close>

record channel_info =
  ci_channel_id :: channel_id
  ci_counterparty :: public_key
  ci_funding_txo :: "(bytes \<times> u16) option"
  ci_short_channel_id :: "u64 option"
  ci_channel_value_sat :: u64
  ci_local_reserve :: "u64 option"
  ci_outbound_capacity_sat :: u64
  ci_inbound_capacity_sat :: u64
  ci_confirmations_required :: "u32 option"
  ci_is_outbound :: bool
  ci_is_channel_ready :: bool
  ci_is_usable :: bool
  ci_is_announced :: bool

record peer_details =
  pd_counterparty_node_id :: public_key
  pd_socket_address :: "socket_address option"

record node_balance =
  onchain_confirmed :: u64
  onchain_pending :: u64
  lightning :: u64

record 'pm pm_ops =
  pm_peer_by_node_id :: "'pm \<Rightarrow> public_key \<Rightarrow> peer_details option"
  pm_list_peers :: "'pm \<Rightarrow> peer_details list"
  pm_disconnect_all_peers :: "'pm \<Rightarrow> 'pm"

record ('kv, 'cm, 'w, 'pm) node =
  n_node_id :: public_key
  n_node_store :: 'kv
  n_channel_manager :: 'cm
  n_onchain_wallet :: "'w mutex"
  n_peer_manager :: 'pm
  n_shutdown_token :: bool

text \<open>The texts of a public key, a channel id and a payment error are parameters, as is the build's
  overflow setting.\<close>

record ('kv, 'cm, 'w, 'p, 'pm) node_env =
  ne_store :: "'kv store_env"
  ne_cm :: "'cm cm_ops"
  ne_bdk :: "('w, 'p) bdk_ops"
  ne_pm :: "'pm pm_ops"
  ne_show_pubkey :: "public_key \<Rightarrow> string"
  ne_show_channel_id :: "channel_id \<Rightarrow> string"
  ne_overflow_checks :: bool

datatype node_error = Message string | StoreError io_error

section \<open>Channels\<close>

text \<open>The outpoint's conversion to the \<open>bitcoin\<close> type keeps its two fields.\<close>

definition channel_info_of :: "channel_details \<Rightarrow> channel_info" where
  "channel_info_of cd =
     \<lparr>ci_channel_id = cd_channel_id cd, ci_counterparty = cd_counterparty cd,
      ci_funding_txo = cd_funding_txo cd, ci_short_channel_id = cd_short_channel_id cd,
      ci_channel_value_sat = cd_channel_value_satoshis cd,
      ci_local_reserve = cd_unspendable_punishment_reserve cd,
      ci_outbound_capacity_sat = cd_outbound_capacity_msat cd div 1000,
      ci_inbound_capacity_sat = cd_inbound_capacity_msat cd div 1000,
      ci_confirmations_required = cd_confirmations_required cd,
      ci_is_outbound = cd_is_outbound cd, ci_is_channel_ready = cd_is_channel_ready cd,
      ci_is_usable = cd_is_usable cd, ci_is_announced = cd_is_announced cd\<rparr>"

fun open_channel_error :: "api_error \<Rightarrow> string" where
  "open_channel_error (APIMisuseError err) = ''Could not open channel '' @ err"
| "open_channel_error (ChannelUnavailable err) = ''Could not open channel '' @ err"
| "open_channel_error (OtherAPIError _) = ''Could not open channel''"

definition open_channel :: "('kv, 'cm, 'w, 'p, 'pm) node_env \<Rightarrow> u128 \<Rightarrow> ('kv, 'cm, 'w, 'pm) node \<Rightarrow>
    public_key \<Rightarrow> u64 \<Rightarrow> u64 \<Rightarrow> (node_error + channel_id) \<times> ('kv, 'cm, 'w, 'pm) node" where
  [node_defs]: "open_channel N rand_id s peer_pubkey channel_value_sats push_msat =
     (if pm_peer_by_node_id (ne_pm N) (n_peer_manager s) peer_pubkey = None
      then (Inl (Message (''Unable to open channel. Not connected to peer '' @ ne_show_pubkey N peer_pubkey)), s)
      else case create_channel (ne_cm N) (n_channel_manager s) peer_pubkey channel_value_sats push_msat rand_id of
        (r, cm) \<Rightarrow> (map_err (\<lambda>e. Message (open_channel_error e)) r, s\<lparr>n_channel_manager := cm\<rparr>))"

fun close_channel_error :: "api_error \<Rightarrow> string" where
  "close_channel_error (APIMisuseError err) = ''Could not close channel '' @ err"
| "close_channel_error (ChannelUnavailable err) = ''Could not close channel '' @ err"
| "close_channel_error (OtherAPIError _) = ''Could close channel''"

definition close_channel :: "('kv, 'cm, 'w, 'p, 'pm) node_env \<Rightarrow> ('kv, 'cm, 'w, 'pm) node \<Rightarrow> channel_id \<Rightarrow>
    (node_error + unit) \<times> ('kv, 'cm, 'w, 'pm) node" where
  [node_defs]: "close_channel N s channel_id =
     (case List.find (\<lambda>channel. cd_channel_id channel = channel_id)
             (cm_list_channels (ne_cm N) (n_channel_manager s)) of
        None \<Rightarrow> (Inl (Message (''channel '' @ ne_show_channel_id N channel_id @ '' does not exist'')), s)
      | Some channel \<Rightarrow>
          (case cm_close_channel (ne_cm N) (n_channel_manager s) channel_id (cd_counterparty channel) of
             (r, cm) \<Rightarrow> (map_err (\<lambda>e. Message (close_channel_error e)) r, s\<lparr>n_channel_manager := cm\<rparr>)))"

definition list_channels :: "('kv, 'cm, 'w, 'p, 'pm) node_env \<Rightarrow> ('kv, 'cm, 'w, 'pm) node \<Rightarrow> channel_info list" where
  "list_channels N s = map channel_info_of (cm_list_channels (ne_cm N) (n_channel_manager s))"

section \<open>Payments\<close>

text \<open>The retry timeout in seconds.\<close>

definition retry_timeout :: nat where
  "retry_timeout = 15"

definition outbound_payment :: "bolt11_invoice \<Rightarrow> u64 \<Rightarrow> payment" where
  "outbound_payment invoice amount =
     \<lparr>payment_id = PaymentId (invoice_payment_hash invoice),
      payment_hash = PaymentHash (invoice_payment_hash invoice), payment_preimage = None,
      direction = Outbound, amount_msat = Some amount, fee_paid_msat = None, status = Pending\<rparr>"

text \<open>
  \<open>send_invoice\<close> is the part of \<open>pay_bolt11_invoice\<close> up to the call on the channel manager,
  \<open>record_payment\<close> the rest. They are separate because the event handler can run between them.
\<close>

definition send_invoice :: "('kv, 'cm, 'w, 'p, 'pm) node_env \<Rightarrow> ('kv, 'cm, 'w, 'pm) node \<Rightarrow>
    bolt11_invoice \<Rightarrow> u64 option \<Rightarrow> (node_error + payment) \<times> ('kv, 'cm, 'w, 'pm) node" where
  [node_defs]: "send_invoice N s invoice msat =
     (case ok_or (option_or (amount_milli_satoshis invoice) msat) (Message ''Amount not specified'') of
        Inl e \<Rightarrow> (Inl e, s)
      | Inr amount \<Rightarrow>
          (case pay_for_bolt11_invoice (ne_cm N) (n_channel_manager s) invoice
                  (PaymentId (invoice_payment_hash invoice)) msat retry_timeout of
             (r, cm) \<Rightarrow>
               (and_then (map_err (\<lambda>e. Message (''Could not make payment '' @ e)) r)
                  (\<lambda>_. Inr (outbound_payment invoice amount)),
                s\<lparr>n_channel_manager := cm\<rparr>)))"

definition record_payment :: "('kv, 'cm, 'w, 'p, 'pm) node_env \<Rightarrow> ('kv, 'cm, 'w, 'pm) node \<Rightarrow> payment \<Rightarrow>
    (node_error + payment_id) \<times> ('kv, 'cm, 'w, 'pm) node" where
  [node_defs]: "record_payment N s payment =
     (case add_payment (ne_store N) (n_node_store s) payment of
        (r, kv) \<Rightarrow>
          (and_then (map_err StoreError r) (\<lambda>_. Inr (payment_id payment)), s\<lparr>n_node_store := kv\<rparr>))"

definition pay_bolt11_invoice :: "('kv, 'cm, 'w, 'p, 'pm) node_env \<Rightarrow> ('kv, 'cm, 'w, 'pm) node \<Rightarrow>
    bolt11_invoice \<Rightarrow> u64 option \<Rightarrow> (node_error + payment_id) \<times> ('kv, 'cm, 'w, 'pm) node" where
  [node_defs]: "pay_bolt11_invoice N s invoice msat =
     (case send_invoice N s invoice msat of
        (Inl e, s') \<Rightarrow> (Inl e, s')
      | (Inr payment, s') \<Rightarrow> record_payment N s' payment)"

fun create_invoice_error :: "sign_or_creation_error \<Rightarrow> string" where
  "create_invoice_error SignError = ''could not create invoice''"
| "create_invoice_error (CreationError ce) = ''could not create invoice '' @ ce"

definition inbound_payment_of :: "bolt11_invoice \<Rightarrow> u64 option \<Rightarrow> payment" where
  "inbound_payment_of invoice msat =
     \<lparr>payment_id = PaymentId (invoice_payment_hash invoice),
      payment_hash = PaymentHash (invoice_payment_hash invoice), payment_preimage = None,
      direction = Inbound, amount_msat = msat, fee_paid_msat = None, status = Pending\<rparr>"

definition create_bolt11_invoice :: "('kv, 'cm, 'w, 'p, 'pm) node_env \<Rightarrow> ('kv, 'cm, 'w, 'pm) node \<Rightarrow>
    u64 option \<Rightarrow> (node_error + bolt11_invoice) \<times> ('kv, 'cm, 'w, 'pm) node" where
  [node_defs]: "create_bolt11_invoice N s msat =
     (case cm_create_bolt11_invoice (ne_cm N) (n_channel_manager s) msat of
        (Inl e, cm) \<Rightarrow> (Inl (Message (create_invoice_error e)), s\<lparr>n_channel_manager := cm\<rparr>)
      | (Inr invoice, cm) \<Rightarrow>
          (case add_payment (ne_store N) (n_node_store s) (inbound_payment_of invoice msat) of
             (r, kv) \<Rightarrow>
               (and_then (map_err StoreError r) (\<lambda>_. Inr invoice),
                s\<lparr>n_channel_manager := cm, n_node_store := kv\<rparr>)))"

text \<open>\<open>Node::get_payment\<close>, which drops the reason of a failed lookup.\<close>

definition node_get_payment :: "('kv, 'cm, 'w, 'p, 'pm) node_env \<Rightarrow> ('kv, 'cm, 'w, 'pm) node \<Rightarrow>
    payment_id \<Rightarrow> payment option" where
  "node_get_payment N s i = result_ok (get_payment (ne_store N) (n_node_store s) i)"

section \<open>Addresses and balance\<close>

definition new_onchain_address :: "('kv, 'cm, 'w, 'p, 'pm) node_env \<Rightarrow> ('kv, 'cm, 'w, 'pm) node \<Rightarrow>
    script outcome \<times> ('kv, 'cm, 'w, 'pm) node" where
  [node_defs]: "new_onchain_address N s =
     (case with_lock (\<lambda>w. case next_address (ne_bdk N) w of (a, w') \<Rightarrow> (Return a, w')) (n_onchain_wallet s) of
        (r, lock) \<Rightarrow> (r, s\<lparr>n_onchain_wallet := lock\<rparr>))"

text \<open>The addition of two amounts panics on overflow in every build.\<close>

definition add_amounts :: "u64 \<Rightarrow> u64 \<Rightarrow> u64 outcome" where
  "add_amounts a b = add_u64 True a b"

definition balance :: "('kv, 'cm, 'w, 'p, 'pm) node_env \<Rightarrow> ('kv, 'cm, 'w, 'pm) node \<Rightarrow> node_balance outcome" where
  "balance N s =
     bind_outcome (read_lock (wallet_balance (ne_bdk N)) (n_onchain_wallet s))
       (\<lambda>onchain.
     bind_outcome (sum_u64 (ne_overflow_checks N)
         (map (\<lambda>channel. cd_outbound_capacity_msat channel div 1000)
           (cm_list_channels (ne_cm N) (n_channel_manager s)))) (\<lambda>outbound_capacity.
     bind_outcome (add_amounts (untrusted_pending onchain) (trusted_pending onchain)) (\<lambda>pending.
     Return \<lparr>onchain_confirmed = confirmed onchain, onchain_pending = pending,
             lightning = outbound_capacity\<rparr>)))"

section \<open>Connections and shutdown\<close>

text \<open>
  Each turn of the loop of \<open>connect\<close>: the connection closes, or ten milliseconds pass and the
  peer manager lists its peers. \<open>None\<close> is a loop that has not ended yet.
\<close>

datatype connect_step = ConnectionClosed | Elapsed "peer_details list"

fun connect_loop :: "public_key \<Rightarrow> connect_step list \<Rightarrow> (string + unit) option" where
  "connect_loop peer_pubkey [] = None"
| "connect_loop peer_pubkey (ConnectionClosed # steps) = Some (Inl ''Connection closed'')"
| "connect_loop peer_pubkey (Elapsed peers # steps) =
     (if list_ex (\<lambda>peer. pd_counterparty_node_id peer = peer_pubkey) peers then Some (Inr ())
      else connect_loop peer_pubkey steps)"

text \<open>\<open>outbound\<close> is what \<open>connect_outbound\<close> gives: no connection, or one with its steps.\<close>

definition connect :: "public_key \<Rightarrow> connect_step list option \<Rightarrow> (string + unit) option" where
  "connect peer_pubkey outbound =
     (case outbound of
        None \<Rightarrow> Some (Inl ''Connection timed out'')
      | Some steps \<Rightarrow> connect_loop peer_pubkey steps)"

text \<open>\<open>dial\<close> is what the attempt to connect through the peer manager will meet.\<close>

definition connect_to_peer :: "('pm \<Rightarrow> public_key \<Rightarrow> 'a \<Rightarrow> connect_step list option) \<Rightarrow> ('kv, 'cm, 'w, 'pm) node \<Rightarrow>
    public_key \<Rightarrow> 'a \<Rightarrow> (string + unit) option" where
  "connect_to_peer dial s peer_pubkey peer_addr = connect peer_pubkey (dial (n_peer_manager s) peer_pubkey peer_addr)"

definition node_shutdown :: "('kv, 'cm, 'w, 'pm) node \<Rightarrow> ('kv, 'cm, 'w, 'pm) node" where
  "node_shutdown s = s\<lparr>n_shutdown_token := True\<rparr>"

datatype ip_socket = SocketV4 bytes u16 | SocketV6 bytes u16

fun ip_socket_of :: "socket_address \<Rightarrow> ip_socket option" where
  "ip_socket_of (TcpIpV4 addr port) = Some (SocketV4 addr port)"
| "ip_socket_of (TcpIpV6 addr port) = Some (SocketV6 addr port)"
| "ip_socket_of (OtherAddress _) = None"

text \<open>
  The reconnection loop at start-up connects to one peer after the other: its result is the attempts it makes, each with
  how it ended. \<open>dial\<close> says what the attempt to connect to a peer will meet; an attempt that does not end (\<open>None\<close>) is the
  last one.
\<close>

fun reconnect_loop :: "(public_key \<Rightarrow> ip_socket \<Rightarrow> connect_step list option) \<Rightarrow> peer_info list \<Rightarrow>
    ((public_key \<times> ip_socket) \<times> (string + unit) option) list" where
  "reconnect_loop dial [] = []"
| "reconnect_loop dial (peer # peers) =
     (case ip_socket_of (address peer) of
        Some addr \<Rightarrow>
          (case connect (node_id peer) (dial (node_id peer) addr) of
             None \<Rightarrow> [((node_id peer, addr), None)]
           | Some ended \<Rightarrow> ((node_id peer, addr), Some ended) # reconnect_loop dial peers)
      | None \<Rightarrow> reconnect_loop dial peers)"

definition reconnect_peers :: "(public_key \<Rightarrow> ip_socket \<Rightarrow> connect_step list option) \<Rightarrow> 'kv store_env \<Rightarrow> 'kv \<Rightarrow>
    io_error + ((public_key \<times> ip_socket) \<times> (string + unit) option) list" where
  "reconnect_peers dial E kv = and_then (list_peers E kv) (\<lambda>peers_stored. Inr (reconnect_loop dial peers_stored))"

text \<open>The loop at shutdown: a peer without an address is skipped, a failed write is logged.\<close>

fun save_peers :: "'kv store_env \<Rightarrow> 'kv \<Rightarrow> peer_details list \<Rightarrow> 'kv" where
  "save_peers E kv [] = kv"
| "save_peers E kv (peer # peers) =
     (case pd_socket_address peer of
        Some addr \<Rightarrow>
          (case add_peer E kv \<lparr>node_id = pd_counterparty_node_id peer, address = addr\<rparr> of
             (Inr _, kv') \<Rightarrow> save_peers E kv' peers
           | (Inl e, kv') \<Rightarrow> save_peers E kv' peers)
      | None \<Rightarrow> save_peers E kv peers)"

definition persist_and_disconnect_peers :: "('kv, 'cm, 'w, 'p, 'pm) node_env \<Rightarrow> ('kv, 'cm, 'w, 'pm) node \<Rightarrow>
    ('kv, 'cm, 'w, 'pm) node" where
  [node_defs]: "persist_and_disconnect_peers N s =
     s\<lparr>n_node_store := save_peers (ne_store N) (n_node_store s) (pm_list_peers (ne_pm N) (n_peer_manager s)),
       n_peer_manager := pm_disconnect_all_peers (ne_pm N) (n_peer_manager s)\<rparr>"

section \<open>The payment operations on the abstract store\<close>

lemma send_invoice_store: "n_node_store (snd (send_invoice N s invoice msat)) = n_node_store s"
  by (simp add: send_invoice_def split: sum.split prod.split)

lemma send_invoice_Inr:
  assumes "send_invoice N s invoice msat = (Inr p, s')"
  obtains amount cm where "option_or (amount_milli_satoshis invoice) msat = Some amount"
    and "p = outbound_payment invoice amount"
    and "pay_for_bolt11_invoice (ne_cm N) (n_channel_manager s) invoice (payment_id p) msat retry_timeout = (Inr (), cm)"
    and "s' = s\<lparr>n_channel_manager := cm\<rparr>"
  using assms
  by (auto simp: send_invoice_def outbound_payment_def and_then_Inr_iff
      split: sum.splits prod.splits option.splits)
    (cases "option_or (amount_milli_satoshis invoice) msat"; auto)

lemma record_payment_view:
  assumes "store_laws (ne_store N)" and "record_payment N s p = (Inr i, s')"
  shows "i = payment_id p"
    and "payments_view (ne_store N) (n_node_store s') = (payments_view (ne_store N) (n_node_store s))(payment_id p \<mapsto> p)"
    and "n_channel_manager s' = n_channel_manager s"
  using assms payments.put_refines [OF assms(1)]
  by (auto simp: record_payment_def and_then_Inr_iff split: prod.splits sum.splits)

lemma pay_bolt11_invoice_cases:
  obtains (refused) e s1 where "pay_bolt11_invoice N s invoice msat = (Inl (Message e), s1)"
      "n_node_store s1 = n_node_store s"
  | (sent) p s1 where "send_invoice N s invoice msat = (Inr p, s1)"
      "pay_bolt11_invoice N s invoice msat = record_payment N s1 p"
proof (cases "send_invoice N s invoice msat")
  case (Pair r s1)
  show thesis
  proof (cases r)
    case (Inl e)
    then obtain msg where "e = Message msg"
      using Pair by (auto simp: send_invoice_def and_then_def map_err_def ok_or_def
          split: sum.splits prod.splits option.splits)
    with Inl Pair send_invoice_store [of N s invoice msat] show thesis
      by (intro refused [of msg s1]) (simp_all add: pay_bolt11_invoice_def)
  next
    case (Inr p)
    with Pair show thesis by (intro sent [of p s1]) (simp_all add: pay_bolt11_invoice_def)
  qed
qed

lemma node_get_payment_view: "node_get_payment N s i = payments_view (ne_store N) (n_node_store s) i"
  by (simp add: node_get_payment_def payments_view_get)

lemma create_invoice_view:
  assumes "store_laws (ne_store N)" and "create_bolt11_invoice N s msat = (Inr invoice, s')"
  shows "payments_view (ne_store N) (n_node_store s') = (payments_view (ne_store N) (n_node_store s))
    (PaymentId (invoice_payment_hash invoice) \<mapsto> inbound_payment_of invoice msat)"
proof -
  from assms(2) have "add_payment (ne_store N) (n_node_store s) (inbound_payment_of invoice msat) =
      (Inr (), n_node_store s')"
    by (auto simp: create_bolt11_invoice_def and_then_Inr_iff split: prod.splits sum.splits)
  from payments.put_refines [OF assms(1) this] show ?thesis by (simp add: inbound_payment_of_def)
qed

lemma create_invoice_get:
  assumes "store_laws (ne_store N)" and "create_bolt11_invoice N s msat = (Inr invoice, s')"
  shows "node_get_payment N s' (PaymentId (invoice_payment_hash invoice)) = Some (inbound_payment_of invoice msat)"
  by (simp add: node_get_payment_view create_invoice_view [OF assms])

section \<open>The peer loops\<close>

definition addressed_peers :: "peer_details list \<Rightarrow> peer_info list" where
  "addressed_peers ps = List.map_filter (\<lambda>p. map_option
     (\<lambda>a. \<lparr>node_id = pd_counterparty_node_id p, address = a\<rparr>) (pd_socket_address p)) ps"

lemma save_peers_put_each: "save_peers E kv ps = put_each add_peer E kv (addressed_peers ps)"
proof (induction ps arbitrary: kv)
  case (Cons p ps)
  show ?case
  proof (cases "pd_socket_address p")
    case (Some a)
    obtain r kv' where "add_peer E kv \<lparr>node_id = pd_counterparty_node_id p, address = a\<rparr> = (r, kv')"
      by (cases "add_peer E kv \<lparr>node_id = pd_counterparty_node_id p, address = a\<rparr>")
    with Some Cons [of kv'] show ?thesis
      by (cases r) (simp_all add: addressed_peers_def map_filter_simps)
  qed (use Cons [of kv] in \<open>simp add: addressed_peers_def map_filter_simps\<close>)
qed (simp add: addressed_peers_def map_filter_simps)

lemma put_each_add_peer_payments:
  assumes "store_laws E"
  shows "payments_view E (put_each add_peer E kv ps) = payments_view E kv"
proof (induction ps arbitrary: kv)
  case (Cons p ps)
  with add_peer_payments(1) [OF assms prod.collapse [symmetric]] show ?case by simp
qed simp

text \<open>Every peer with an IP address is tried, unless the loop is still in the attempt for an earlier one.\<close>

lemma reconnect_loop_tries:
  assumes "p \<in> set ps" and "ip_socket_of (address p) = Some a"
  shows "((node_id p, a), connect (node_id p) (dial (node_id p) a)) \<in> set (reconnect_loop dial ps) \<or>
    (\<exists>q b. ((q, b), None) = last (reconnect_loop dial ps) \<and> reconnect_loop dial ps \<noteq> [] \<and> connect q (dial q b) = None)"
  using assms(1)
proof (induction ps)
  case (Cons x ps)
  show ?case
  proof (cases "ip_socket_of (address x)")
    case None
    with Cons assms(2) show ?thesis by auto
  next
    case (Some b)
    show ?thesis
    proof (cases "connect (node_id x) (dial (node_id x) b)")
      case None
      with Some show ?thesis by simp
    next
      case (Some ended)
      with \<open>ip_socket_of (address x) = Some b\<close> Cons assms(2) show ?thesis by auto
    qed
  qed
qed simp

lemma distinct_addressed_peers:
  "distinct (map pd_counterparty_node_id ps) \<Longrightarrow> distinct (map node_id (addressed_peers ps))"
proof (induction ps)
  case (Cons p ps)
  have "node_id ` set (addressed_peers ps) \<subseteq> pd_counterparty_node_id ` set ps"
    by (auto simp: addressed_peers_def map_filter_def)
  with Cons show ?case
    by (auto simp: addressed_peers_def map_filter_simps split: option.split)
qed (simp add: addressed_peers_def map_filter_simps)

text \<open>The first step that closes the connection or lists the peer decides.\<close>

definition decisive :: "public_key \<Rightarrow> connect_step \<Rightarrow> bool" where
  "decisive k st = (case st of ConnectionClosed \<Rightarrow> True | Elapsed peers \<Rightarrow> k \<in> pd_counterparty_node_id ` set peers)"

lemma connect_loop_first_decisive:
  "connect_loop k steps =
     (case List.find (decisive k) steps of
        None \<Rightarrow> None
      | Some ConnectionClosed \<Rightarrow> Some (Inl ''Connection closed'')
      | Some (Elapsed peers) \<Rightarrow> Some (Inr ()))"
  by (induction k steps rule: connect_loop.induct) (auto simp: decisive_def list_ex_iff)

section \<open>The balance\<close>

lemma unat_div_1000: "unat ((n :: u64) div 1000) = unat n div 1000"
  by (simp add: unat_div)

text \<open>Dropping the millisatoshis of each channel loses less than one satoshi per channel.\<close>

lemma truncated_sum:
  fixes xs :: "u64 list"
  shows "1000 * sum_list (map (\<lambda>x. unat x div 1000) xs) \<le> sum_list (map unat xs) \<and>
    sum_list (map unat xs) \<le> 1000 * sum_list (map (\<lambda>x. unat x div 1000) xs) + 999 * length xs"
proof (induction xs)
  case (Cons x xs)
  have "1000 * (unat x div 1000) + unat x mod 1000 = unat x" "unat x mod 1000 < 1000"
    by (rule mult_div_mod_eq, rule mod_less_divisor) simp
  with Cons show ?case
    unfolding list.map sum_list.Cons list.size add_mult_distrib2 by linarith
qed simp

section \<open>A concrete node for the witnesses\<close>

definition ref_pm :: "peer_details list pm_ops" where
  "ref_pm =
     \<lparr>pm_peer_by_node_id = (\<lambda>ps k. List.find (\<lambda>p. pd_counterparty_node_id p = k) ps),
      pm_list_peers = (\<lambda>ps. ps), pm_disconnect_all_peers = (\<lambda>ps. [])\<rparr>"

definition sample_env :: "(mem_store, cm_log, u64, (script \<times> u64) list, peer_details list) node_env" where
  "sample_env =
     \<lparr>ne_store = ref_env, ne_cm = recording_cm, ne_bdk = ref_bdk, ne_pm = ref_pm,
      ne_show_pubkey = (\<lambda>k. ''key''), ne_show_channel_id = (\<lambda>c. ''id''), ne_overflow_checks = True\<rparr>"

definition sample_node :: "mem_store \<Rightarrow> cm_log \<Rightarrow> peer_details list \<Rightarrow> (mem_store, cm_log, u64, peer_details list) node" where
  "sample_node kv cm peers =
     \<lparr>n_node_id = PublicKey [2], n_node_store = kv, n_channel_manager = cm, n_onchain_wallet = unlocked 700,
      n_peer_manager = peers, n_shutdown_token = False\<rparr>"

lemma sample_env_simps [simp]:
  "ne_store sample_env = ref_env" "ne_cm sample_env = recording_cm" "ne_bdk sample_env = ref_bdk"
  "ne_pm sample_env = ref_pm" "ne_overflow_checks sample_env"
  by (simp_all add: sample_env_def)

lemma sample_node_simps [simp]:
  "n_node_store (sample_node kv cm ps) = kv" "n_channel_manager (sample_node kv cm ps) = cm"
  "n_onchain_wallet (sample_node kv cm ps) = unlocked 700" "n_peer_manager (sample_node kv cm ps) = ps"
  by (simp_all add: sample_node_def)

definition sample_invoice :: bolt11_invoice where
  "sample_invoice = \<lparr>amount_milli_satoshis = Some 50, invoice_payment_hash = [7, 1], invoice_text = ''lnbc''\<rparr>"

definition sample_channel :: "u64 \<Rightarrow> channel_details" where
  "sample_channel outbound =
     \<lparr>cd_channel_id = ChannelId [4], cd_counterparty = PublicKey [2, 1], cd_funding_txo = None,
      cd_short_channel_id = None, cd_channel_value_satoshis = 100000,
      cd_unspendable_punishment_reserve = None, cd_outbound_capacity_msat = outbound,
      cd_inbound_capacity_msat = 0, cd_confirmations_required = None, cd_is_outbound = True,
      cd_is_channel_ready = True, cd_is_usable = True, cd_is_announced = False\<rparr>"

section \<open>Properties\<close>

text \<open>
  C21: a successful \<open>pay_bolt11_invoice\<close> has handed the invoice to the channel manager under the
  id that is its payment hash, and has added to the store, under that id, one record: outbound, pending, with this
  hash, no preimage and no fee yet, and with exactly the invoice's own amount when it has one and the caller's otherwise; every
  other payment is as before.
\<close>

theorem paid_invoice_recorded:
  assumes "store_laws (ne_store N)" and "pay_bolt11_invoice N s invoice msat = (Inr i, s')"
  shows "\<exists>amount. option_or (amount_milli_satoshis invoice) msat = Some amount \<and>
    i = PaymentId (invoice_payment_hash invoice) \<and>
    pay_for_bolt11_invoice (ne_cm N) (n_channel_manager s) invoice i msat 15 = (Inr (), n_channel_manager s') \<and>
    payments_view (ne_store N) (n_node_store s') = (payments_view (ne_store N) (n_node_store s))
      (i \<mapsto> \<lparr>payment_id = PaymentId (invoice_payment_hash invoice),
              payment_hash = PaymentHash (invoice_payment_hash invoice), payment_preimage = None,
              direction = Outbound, amount_msat = Some amount, fee_paid_msat = None, status = Pending\<rparr>)"
proof (cases rule: pay_bolt11_invoice_cases [of N s invoice msat])
  case (refused e s1)
  with assms(2) show ?thesis by simp
next
  case (sent p s1)
  obtain amount cm where a: "option_or (amount_milli_satoshis invoice) msat = Some amount"
      "p = outbound_payment invoice amount" "s1 = s\<lparr>n_channel_manager := cm\<rparr>"
      "pay_for_bolt11_invoice (ne_cm N) (n_channel_manager s) invoice (payment_id p) msat retry_timeout = (Inr (), cm)"
    using sent(1) by (rule send_invoice_Inr) simp
  from record_payment_view [OF assms(1) assms(2) [unfolded sent(2)]] a show ?thesis
    by (simp add: outbound_payment_def retry_timeout_def)
qed

theorem paid_invoice_recorded_witness:
  "\<exists>s'. pay_bolt11_invoice sample_env (sample_node empty_store quiet_cm []) sample_invoice (Some 900) =
       (Inr (PaymentId [7, 1]), s') \<and>
     payments_view ref_env (n_node_store s') (PaymentId [7, 1]) =
       Some \<lparr>payment_id = PaymentId [7, 1], payment_hash = PaymentHash [7, 1], payment_preimage = None,
             direction = Outbound, amount_msat = Some 50, fee_paid_msat = None, status = Pending\<rparr>"
proof -
  let ?s = "sample_node empty_store quiet_cm []"
  have "fst (pay_bolt11_invoice sample_env ?s sample_invoice (Some 900)) = Inr (PaymentId [7, 1])" by code_simp
  then obtain s' where run: "pay_bolt11_invoice sample_env ?s sample_invoice (Some 900) = (Inr (PaymentId [7, 1]), s')"
    by (metis prod.collapse)
  have "store_laws (ne_store sample_env)" by (simp add: ref_env_laws)
  from paid_invoice_recorded [OF this run] run show ?thesis by (auto simp: sample_invoice_def)
qed

text \<open>
  C40: what an error of \<open>pay_bolt11_invoice\<close> tells the caller. No other payment of the store has changed. A store error
  means that LDK has accepted the payment all the same, under the invoice's hash, so that it is under way although its record
  could not be written: where a failed write leaves no trace, there is no new record. Any other error means that nothing was sent
  and nothing was written: the amount was missing and LDK was not called, or LDK refused.
\<close>

theorem pay_error_meaning:
  assumes "store_laws (ne_store N)" and "pay_bolt11_invoice N s invoice msat = (Inl e, s')"
  shows "(\<forall>i. i \<noteq> PaymentId (invoice_payment_hash invoice) \<longrightarrow>
       payments_view (ne_store N) (n_node_store s') i = payments_view (ne_store N) (n_node_store s) i) \<and>
    (\<forall>x. e = StoreError x \<longrightarrow>
       pay_for_bolt11_invoice (ne_cm N) (n_channel_manager s) invoice (PaymentId (invoice_payment_hash invoice)) msat 15 =
         (Inr (), n_channel_manager s') \<and>
       (kv_write_atomic (the_kv (ne_store N)) \<longrightarrow>
          payments_view (ne_store N) (n_node_store s') = payments_view (ne_store N) (n_node_store s))) \<and>
    (\<forall>text. e = Message text \<longrightarrow> n_node_store s' = n_node_store s \<and>
       (amount_milli_satoshis invoice = None \<and> msat = None \<and> s' = s \<or>
       (\<exists>refusal. pay_for_bolt11_invoice (ne_cm N) (n_channel_manager s) invoice
            (PaymentId (invoice_payment_hash invoice)) msat 15 = (Inl refusal, n_channel_manager s'))))"
proof (cases "option_or (amount_milli_satoshis invoice) msat")
  case None
  with assms(2) have "e = Message ''Amount not specified''" "s' = s" by (simp_all add: pay_bolt11_invoice_def send_invoice_def)
  moreover have "amount_milli_satoshis invoice = None" "msat = None"
    using None by (cases "amount_milli_satoshis invoice"; simp)+
  ultimately show ?thesis by simp
next
  case (Some amount)
  let ?call = "pay_for_bolt11_invoice (ne_cm N) (n_channel_manager s) invoice (PaymentId (invoice_payment_hash invoice)) msat 15"
  obtain r cm where call: "?call = (r, cm)" by (cases ?call)
  show ?thesis
  proof (cases r)
    case (Inl refusal)
    with Some call assms(2) have "e = Message (''Could not make payment '' @ refusal)" "s' = s\<lparr>n_channel_manager := cm\<rparr>"
      by (simp_all add: pay_bolt11_invoice_def send_invoice_def retry_timeout_def)
    with Inl call show ?thesis by simp
  next
    case (Inr u)
    with Some call have "pay_bolt11_invoice N s invoice msat =
        record_payment N (s\<lparr>n_channel_manager := cm\<rparr>) (outbound_payment invoice amount)"
      by (simp add: pay_bolt11_invoice_def send_invoice_def retry_timeout_def)
    with assms(2) obtain x where x: "e = StoreError x" "n_channel_manager s' = cm"
        "add_payment (ne_store N) (n_node_store s) (outbound_payment invoice amount) = (Inl x, n_node_store s')"
      by (cases "fst (add_payment (ne_store N) (n_node_store s) (outbound_payment invoice amount))")
        (auto simp: record_payment_def split_pair_eq prod_eq_iff)
    have others: "payments_view (ne_store N) (n_node_store s') i = payments_view (ne_store N) (n_node_store s) i"
      if "i \<noteq> PaymentId (invoice_payment_hash invoice)" for i
      using failed_add_frame [OF assms(1) x(3)] that by (simp add: outbound_payment_def)
    have "payments_view (ne_store N) (n_node_store s') = payments_view (ne_store N) (n_node_store s)"
      if "kv_write_atomic (the_kv (ne_store N))"
    proof -
      from x(3) have "kv_read (the_kv (ne_store N)) (n_node_store s') = kv_read (the_kv (ne_store N)) (n_node_store s)"
        using that unfolding kv_write_atomic_def add_payment_def by blast
      then show ?thesis by (simp add: payments_view_def ns_view_def fun_eq_iff)
    qed
    with x(1,2) Inr call others show ?thesis by simp
  qed
qed

definition unwritable_store :: mem_store where
  "unwritable_store = empty_store\<lparr>write_fails := True\<rparr>"

theorem pay_error_meaning_witness:
  "\<exists>s'. pay_bolt11_invoice sample_env (sample_node unwritable_store quiet_cm []) sample_invoice None =
       (Inl (StoreError (IoError OtherKind ''write failed'')), s') \<and>
     payments_view ref_env (n_node_store s') (PaymentId [7, 1]) = None \<and>
     pay_for_bolt11_invoice recording_cm quiet_cm sample_invoice (PaymentId [7, 1]) None 15 = (Inr (), n_channel_manager s')"
proof -
  let ?s = "sample_node unwritable_store quiet_cm []"
  have "fst (pay_bolt11_invoice sample_env ?s sample_invoice None) = Inl (StoreError (IoError OtherKind ''write failed''))"
    by code_simp
  then obtain s' where run: "pay_bolt11_invoice sample_env ?s sample_invoice None =
      (Inl (StoreError (IoError OtherKind ''write failed'')), s')"
    by (metis prod.collapse)
  have "kv_write_atomic (the_kv (ne_store sample_env))"
    by (simp add: kv_write_atomic_def ref_env_def mem_kv_def mem_write_def)
  moreover have "store_laws (ne_store sample_env)" by (simp add: ref_env_laws)
  ultimately have after:
    "payments_view ref_env (n_node_store s') = payments_view ref_env unwritable_store"
    "pay_for_bolt11_invoice recording_cm quiet_cm sample_invoice (PaymentId [7, 1]) None 15 = (Inr (), n_channel_manager s')"
    using pay_error_meaning [OF _ run] by (simp_all add: sample_invoice_def)
  have "payments_view ref_env unwritable_store (PaymentId [7, 1]) = None" by code_simp
  with run after show ?thesis by simp
qed

text \<open>
  An invoice that \<open>create_bolt11_invoice\<close> returns is in the store as a pending inbound
  payment of the amount asked for, under its payment hash, and is what \<open>get_payment\<close> answers; every
  other payment is as before.
\<close>

theorem invoice_recorded:
  assumes "store_laws (ne_store N)" and "create_bolt11_invoice N s msat = (Inr invoice, s')"
  shows "node_get_payment N s' (PaymentId (invoice_payment_hash invoice)) = Some (inbound_payment_of invoice msat) \<and>
    (\<forall>i. i \<noteq> PaymentId (invoice_payment_hash invoice) \<longrightarrow> node_get_payment N s' i = node_get_payment N s i)"
  by (simp add: node_get_payment_view create_invoice_view [OF assms])

theorem invoice_recorded_witness:
  "\<exists>invoice s'. create_bolt11_invoice sample_env (sample_node empty_store quiet_cm []) (Some 60) = (Inr invoice, s') \<and>
     node_get_payment sample_env s' (PaymentId (invoice_payment_hash invoice)) = Some (inbound_payment_of invoice (Some 60))"
proof -
  let ?s = "sample_node empty_store quiet_cm []"
  let ?i = "\<lparr>amount_milli_satoshis = Some 60, invoice_payment_hash = [9], invoice_text = ''lnbc''\<rparr>"
  have "fst (create_bolt11_invoice sample_env ?s (Some 60)) = Inr ?i" by code_simp
  then obtain s' where run: "create_bolt11_invoice sample_env ?s (Some 60) = (Inr ?i, s')"
    by (metis prod.collapse)
  have "store_laws (ne_store sample_env)" by (simp add: ref_env_laws)
  from invoice_recorded [OF this run] run show ?thesis by blast
qed

text \<open>
  C22: the balance is accurate where it can be represented: with the wallet's lock usable and both sums
  within 64 bits it is returned in either build, the on-chain parts are the wallet's confirmed amount and the
  exact sum of its two pending amounts, and the lightning part is the outbound capacity of all channels with
  less than one satoshi per channel cut off.
\<close>

theorem balance_accurate:
  assumes "\<not> poisoned (n_onchain_wallet s)"
    and "unat (untrusted_pending w) + unat (trusted_pending w) < 2 ^ 64"
    and "w = wallet_balance (ne_bdk N) (guarded (n_onchain_wallet s))"
    and "msats = map cd_outbound_capacity_msat (cm_list_channels (ne_cm N) (n_channel_manager s))"
    and "sum_list (map (\<lambda>m. unat m div 1000) msats) < 2 ^ 64"
  shows "\<exists>b. balance N s = Return b \<and> onchain_confirmed b = confirmed w \<and>
    unat (onchain_pending b) = unat (untrusted_pending w) + unat (trusted_pending w) \<and>
    1000 * unat (lightning b) \<le> sum_list (map unat msats) \<and>
    sum_list (map unat msats) \<le> 1000 * unat (lightning b) + 999 * length msats"
proof -
  have wallet: "read_lock (wallet_balance (ne_bdk N)) (n_onchain_wallet s) = Return w"
    using assms(1,3) by (simp add: read_lock_def)
  have pending: "add_amounts (untrusted_pending w) (trusted_pending w) =
      Return (untrusted_pending w + trusted_pending w) \<and>
      unat (untrusted_pending w + trusted_pending w) = unat (untrusted_pending w) + unat (trusted_pending w)"
    unfolding add_amounts_def by (rule unat_add_u64_Return [OF assms(2)])
  let ?sats = "map (\<lambda>channel. cd_outbound_capacity_msat channel div 1000)
    (cm_list_channels (ne_cm N) (n_channel_manager s))"
  have sats: "sum_list (map unat ?sats) = sum_list (map (\<lambda>m. unat m div 1000) msats)"
    by (simp add: assms(4) comp_def unat_div_1000)
  obtain total where "sum_u64 (ne_overflow_checks N) ?sats = Return total"
      "unat total = sum_list (map (\<lambda>m. unat m div 1000) msats)"
    using sum_u64_exact [of ?sats "ne_overflow_checks N"] assms(5) sats by auto
  with wallet pending truncated_sum [of msats] show ?thesis by (simp add: balance_def)
qed

theorem balance_accurate_witness:
  "\<exists>b. balance sample_env (sample_node empty_store (quiet_cm\<lparr>cm_channels := [sample_channel 1999, sample_channel 50]\<rparr>) []) = Return b \<and>
     onchain_confirmed b = 700 \<and> 1000 * unat (lightning b) \<le> 2049 \<and> 2049 \<le> 1000 * unat (lightning b) + 1998"
proof -
  let ?s = "sample_node empty_store (quiet_cm\<lparr>cm_channels := [sample_channel 1999, sample_channel 50]\<rparr>) []"
  have w: "\<lparr>confirmed = 700, trusted_pending = 0, untrusted_pending = 0\<rparr> =
      wallet_balance (ne_bdk sample_env) (guarded (n_onchain_wallet ?s))"
    by (simp add: ref_bdk_def)
  have m: "[1999, 50] = map cd_outbound_capacity_msat (cm_list_channels (ne_cm sample_env) (n_channel_manager ?s))"
    by (simp add: recording_cm_def sample_channel_def)
  have "sum_list (map unat [1999, 50 :: u64]) = 2049" by simp
  with balance_accurate [OF _ _ w m] show ?thesis by auto
qed

text \<open>
  Channels are only asked for where they make sense: a channel is created only with a connected
  peer, and the channel manager is not called otherwise; a channel is closed with the counterparty of a
  listed channel of that id, and an unknown id is an error that calls nothing.
\<close>

theorem channel_requests_checked:
  "(pm_peer_by_node_id (ne_pm N) (n_peer_manager s) k = None \<longrightarrow>
      (\<exists>m. open_channel N rand_id s k value push = (Inl (Message m), s))) \<and>
   (fst (open_channel N rand_id s k value push) = Inr c \<longrightarrow>
      pm_peer_by_node_id (ne_pm N) (n_peer_manager s) k \<noteq> None \<and>
      create_channel (ne_cm N) (n_channel_manager s) k value push rand_id =
        (Inr c, n_channel_manager (snd (open_channel N rand_id s k value push)))) \<and>
   (c \<notin> cd_channel_id ` set (cm_list_channels (ne_cm N) (n_channel_manager s)) \<longrightarrow>
      (\<exists>m. close_channel N s c = (Inl (Message m), s))) \<and>
   (fst (close_channel N s c) = Inr () \<longrightarrow>
      (\<exists>channel \<in> set (cm_list_channels (ne_cm N) (n_channel_manager s)). cd_channel_id channel = c \<and>
         cm_close_channel (ne_cm N) (n_channel_manager s) c (cd_counterparty channel) =
           (Inr (), n_channel_manager (snd (close_channel N s c)))))"
proof (intro conjI impI)
  show "\<exists>m. open_channel N rand_id s k value push = (Inl (Message m), s)"
    if "pm_peer_by_node_id (ne_pm N) (n_peer_manager s) k = None"
    using that by (simp add: open_channel_def)
  show "pm_peer_by_node_id (ne_pm N) (n_peer_manager s) k \<noteq> None"
    if "fst (open_channel N rand_id s k value push) = Inr c"
    using that by (auto simp: open_channel_def split: if_splits)
  show "create_channel (ne_cm N) (n_channel_manager s) k value push rand_id =
      (Inr c, n_channel_manager (snd (open_channel N rand_id s k value push)))"
    if "fst (open_channel N rand_id s k value push) = Inr c"
    using that by (auto simp: open_channel_def split_pair_eq prod_eq_iff split: if_splits)
  show "\<exists>m. close_channel N s c = (Inl (Message m), s)"
    if "c \<notin> cd_channel_id ` set (cm_list_channels (ne_cm N) (n_channel_manager s))"
  proof -
    from that have "List.find (\<lambda>channel. cd_channel_id channel = c)
        (cm_list_channels (ne_cm N) (n_channel_manager s)) = None"
      by (auto simp: find_not_None_iff)
    then show ?thesis by (simp add: close_channel_def)
  qed
  show "\<exists>channel \<in> set (cm_list_channels (ne_cm N) (n_channel_manager s)). cd_channel_id channel = c \<and>
      cm_close_channel (ne_cm N) (n_channel_manager s) c (cd_counterparty channel) =
        (Inr (), n_channel_manager (snd (close_channel N s c)))"
    if "fst (close_channel N s c) = Inr ()"
    using that
    by (auto simp: close_channel_def split_pair_eq prod_eq_iff split: option.splits dest!: find_Some_iff_set)
qed

text \<open>A node connected to one peer, with one channel.\<close>

definition one_peer_node :: "(mem_store, cm_log, u64, peer_details list) node" where
  "one_peer_node = sample_node empty_store (quiet_cm\<lparr>cm_channels := [sample_channel 1999]\<rparr>)
     [\<lparr>pd_counterparty_node_id = PublicKey [2, 1], pd_socket_address = Some (TcpIpV4 [10, 0, 0, 1] 80)\<rparr>]"

theorem channel_requests_checked_witness:
  "(\<exists>m. open_channel sample_env 1 one_peer_node (PublicKey [9]) 5000 0 = (Inl (Message m), one_peer_node)) \<and>
   (\<exists>m. close_channel sample_env one_peer_node (ChannelId [5]) = (Inl (Message m), one_peer_node)) \<and>
   pm_peer_by_node_id ref_pm (n_peer_manager one_peer_node) (PublicKey [2, 1]) \<noteq> None"
proof -
  have a: "pm_peer_by_node_id (ne_pm sample_env) (n_peer_manager one_peer_node) (PublicKey [9]) = None"
    by (simp add: one_peer_node_def ref_pm_def)
  have b: "ChannelId [5] \<notin> cd_channel_id ` set (cm_list_channels (ne_cm sample_env) (n_channel_manager one_peer_node))"
    by (simp add: one_peer_node_def recording_cm_def sample_channel_def)
  have c: "fst (open_channel sample_env 1 one_peer_node (PublicKey [2, 1]) 5000 0) = Inr (ChannelId [1])"
    by code_simp
  show ?thesis
    using channel_requests_checked [of sample_env one_peer_node "PublicKey [9]" 1 5000 0 "ChannelId [5]"] a b
      channel_requests_checked [of sample_env one_peer_node "PublicKey [2, 1]" 1 5000 0 "ChannelId [1]"] c
    by auto
qed

text \<open>
  C30: peers survive a restart: when the writes of the shutdown loop succeed and the store can list its
  peers at the next start, the start-up loop tries to connect to every peer that was connected at shutdown and
  had an IP address, at that address, unless it is for ever in the attempt for another peer; the payments are untouched.
\<close>

theorem peers_survive_restart:
  assumes "store_laws (ne_store N)" and "peers_wf (ne_store N) (n_node_store s)"
    and "peers = pm_list_peers (ne_pm N) (n_peer_manager s)"
    and "distinct (map pd_counterparty_node_id peers)"
    and "all_puts_ok add_peer (ne_store N) (n_node_store s) (addressed_peers peers)"
    and "kv = n_node_store (persist_and_disconnect_peers N s)"
    and "reconnect_peers dial (ne_store N) kv = Inr attempts"
    and "p \<in> set peers" and "pd_socket_address p = Some a" and "ip_socket_of a = Some socket"
  shows "(((pd_counterparty_node_id p, socket), connect (pd_counterparty_node_id p) (dial (pd_counterparty_node_id p) socket))
        \<in> set attempts \<or>
      (\<exists>q b. ((q, b), None) = last attempts \<and> attempts \<noteq> [] \<and> connect q (dial q b) = None)) \<and>
    payments_view (ne_store N) kv = payments_view (ne_store N) (n_node_store s)"
proof
  let ?E = "ne_store N" and ?saved = "\<lparr>node_id = pd_counterparty_node_id p, address = a\<rparr>"
  have kv: "kv = put_each add_peer ?E (n_node_store s) (addressed_peers peers)"
    using assms(3,6) by (simp add: persist_and_disconnect_peers_def save_peers_put_each)
  have wf: "peers_wf ?E kv" unfolding kv by (rule peers.put_each_wf [OF assms(1,2,5)])
  have "?saved \<in> set (addressed_peers peers)"
    using assms(8,9) by (auto simp: addressed_peers_def map_filter_def image_iff intro!: exI [of _ p])
  from peers.put_each_found [OF assms(1,5) distinct_addressed_peers [OF assms(4)] this] kv
  have "peers_view ?E kv (pd_counterparty_node_id p) = Some ?saved" by simp
  moreover from assms(7) obtain ps where ps: "list_peers ?E kv = Inr ps" "attempts = reconnect_loop dial ps"
    by (auto simp: reconnect_peers_def and_then_Inr_iff)
  ultimately have "?saved \<in> set ps" using peers.elems_set [OF assms(1) wf ps(1)] by (auto intro: ranI)
  from reconnect_loop_tries [OF this, of socket dial] assms(10) ps(2)
  show "((pd_counterparty_node_id p, socket), connect (pd_counterparty_node_id p) (dial (pd_counterparty_node_id p) socket))
        \<in> set attempts \<or>
      (\<exists>q b. ((q, b), None) = last attempts \<and> attempts \<noteq> [] \<and> connect q (dial q b) = None)" by simp
  show "payments_view ?E kv = payments_view ?E (n_node_store s)"
    unfolding kv by (rule put_each_add_peer_payments [OF assms(1)])
qed

text \<open>Every peer that is tried shows up in the second list.\<close>

definition lucky_dial :: "public_key \<Rightarrow> ip_socket \<Rightarrow> connect_step list option" where
  "lucky_dial k a = Some [Elapsed [], Elapsed [\<lparr>pd_counterparty_node_id = k, pd_socket_address = None\<rparr>]]"

theorem peers_survive_restart_witness:
  "reconnect_peers lucky_dial ref_env (n_node_store (persist_and_disconnect_peers sample_env one_peer_node)) =
     Inr [((PublicKey [2, 1], SocketV4 [10, 0, 0, 1] 80), Some (Inr ()))] \<and>
   connect (PublicKey [2, 1]) (lucky_dial (PublicKey [2, 1]) (SocketV4 [10, 0, 0, 1] 80)) = Some (Inr ())"
proof -
  let ?p = "\<lparr>pd_counterparty_node_id = PublicKey [2, 1], pd_socket_address = Some (TcpIpV4 [10, 0, 0, 1] 80)\<rparr>"
  have run: "reconnect_peers lucky_dial (ne_store sample_env) (n_node_store (persist_and_disconnect_peers sample_env one_peer_node)) =
      Inr [((PublicKey [2, 1], SocketV4 [10, 0, 0, 1] 80), Some (Inr ()))]"
    by code_simp
  have peers: "[?p] = pm_list_peers (ne_pm sample_env) (n_peer_manager one_peer_node)"
    by (simp add: one_peer_node_def ref_pm_def)
  have ok: "all_puts_ok add_peer (ne_store sample_env) (n_node_store one_peer_node) (addressed_peers [?p])"
    by code_simp
  have laws: "store_laws (ne_store sample_env)" "peers_wf (ne_store sample_env) (n_node_store one_peer_node)"
    by (simp_all add: ref_env_laws one_peer_node_def empty_store_wf)
  from peers_survive_restart [OF laws peers _ ok refl run, of ?p "TcpIpV4 [10, 0, 0, 1] 80" "SocketV4 [10, 0, 0, 1] 80"]
  have "connect (PublicKey [2, 1]) (lucky_dial (PublicKey [2, 1]) (SocketV4 [10, 0, 0, 1] 80)) = Some (Inr ())" by simp
  with run show ?thesis by simp
qed

end
