(* ===== verification/Runs.thy ===== *)
theory Runs
  imports Prelude
begin

text \<open>
  Runs of a step relation and what carries over from its steps to its runs. The interleavings of the
  payment calls with the event handler, the running node and the successive lives of the process are all such
  relations; the lemmas they share are proved here once.
\<close>

section \<open>Runs\<close>

inductive steps :: "('s \<Rightarrow> 'a \<Rightarrow> 's \<Rightarrow> bool) \<Rightarrow> 's \<Rightarrow> 'a list \<Rightarrow> 's \<Rightarrow> bool"
  for step where
  steps_none: "steps step s [] s"
| steps_more: "step s a s1 \<Longrightarrow> steps step s1 as s' \<Longrightarrow> steps step s (a # as) s'"

inductive_simps steps_Nil [simp]: "steps step s [] s'"
inductive_simps steps_Cons: "steps step s (a # as) s'"

lemma steps_single: "steps step s [a] s' \<longleftrightarrow> step s a s'"
  by (simp add: steps_Cons)

lemma steps_append: "steps step s (as @ bs) s' \<longleftrightarrow> (\<exists>s1. steps step s as s1 \<and> steps step s1 bs s')"
  by (induction as arbitrary: s) (auto simp: steps_Cons)

lemma steps_keep:
  assumes "\<And>s a s'. step s a s' \<Longrightarrow> I s \<Longrightarrow> I s'" and "steps step s as s'"
  shows "I s \<Longrightarrow> I s'"
  using assms(2) by induction (auto dest: assms(1))

text \<open>A guard that steps need and never gain: once it is gone, the steps that need it are over.\<close>

lemma steps_guard:
  assumes "\<And>s a s'. step s a s' \<Longrightarrow> guard a s" and "\<And>s a s' b. step s a s' \<Longrightarrow> guard b s' \<Longrightarrow> guard b s"
    and "steps step s as s'"
  shows "a \<in> set as \<Longrightarrow> guard a s" and "guard b s' \<Longrightarrow> guard b s"
  using assms(3) by induction (auto dest: assms(1,2))

section \<open>Step relations with an invariant and a fact that has causes\<close>

text \<open>
  \<open>fact e i s\<close> is something that can become true of item \<open>i\<close> only by an action that causes it; \<open>e\<close> is the
  environment the relation depends on, \<open>laws\<close> what is assumed of it.
\<close>

locale caused_steps =
  fixes laws :: "'e \<Rightarrow> bool"
    and step :: "'e \<Rightarrow> 's \<Rightarrow> 'a \<Rightarrow> 's \<Rightarrow> bool"
    and inv :: "'e \<Rightarrow> 's \<Rightarrow> bool"
    and fact :: "'e \<Rightarrow> 'i \<Rightarrow> 's \<Rightarrow> bool"
    and causes :: "'e \<Rightarrow> 'i \<Rightarrow> 'a \<Rightarrow> bool"
  assumes step_inv: "laws e \<Longrightarrow> step e s a s' \<Longrightarrow> inv e s \<Longrightarrow> inv e s'"
    and step_cause: "laws e \<Longrightarrow> step e s a s' \<Longrightarrow> inv e s \<Longrightarrow> fact e i s' \<Longrightarrow> fact e i s \<or> causes e i a"
begin

lemma steps_inv: "laws e \<Longrightarrow> steps (step e) s as s' \<Longrightarrow> inv e s \<Longrightarrow> inv e s'"
  by (rule steps_keep [where I = "inv e"]) (auto dest: step_inv)

lemma steps_cause:
  assumes "laws e" and "steps (step e) s as s'"
  shows "inv e s \<Longrightarrow> fact e i s' \<Longrightarrow> fact e i s \<or> (\<exists>a \<in> set as. causes e i a)"
  using assms(2)
proof induction
  case (steps_more s a s1 as s')
  from step_inv [OF assms(1) steps_more.hyps(1) steps_more.prems(1)] steps_more.IH steps_more.prems(2)
    step_cause [OF assms(1) steps_more.hyps(1) steps_more.prems(1)]
  show ?case by fastforce
qed simp

text \<open>Without a cause nothing becomes true.\<close>

lemma steps_no_cause:
  "laws e \<Longrightarrow> steps (step e) s as s' \<Longrightarrow> inv e s \<Longrightarrow> \<not> fact e i s \<Longrightarrow> \<forall>a \<in> set as. \<not> causes e i a \<Longrightarrow> \<not> fact e i s'"
  using steps_cause by blast

end

text \<open>Step relations whose every step has a functional effect on what is observed of an item.\<close>

locale observed_steps =
  fixes laws :: "'e \<Rightarrow> bool"
    and step :: "'e \<Rightarrow> 's \<Rightarrow> 'a \<Rightarrow> 's \<Rightarrow> bool"
    and inv :: "'e \<Rightarrow> 's \<Rightarrow> bool"
    and view :: "'e \<Rightarrow> 's \<Rightarrow> 'i \<Rightarrow> 'v"
    and effect :: "'i \<Rightarrow> 'a \<Rightarrow> 'v \<Rightarrow> 'v"
  assumes observed_inv: "laws e \<Longrightarrow> step e s a s' \<Longrightarrow> inv e s \<Longrightarrow> inv e s'"
    and step_view: "laws e \<Longrightarrow> step e s a s' \<Longrightarrow> inv e s \<Longrightarrow> view e s' i = effect i a (view e s i)"
begin

lemma steps_view:
  assumes "laws e" and "steps (step e) s as s'"
  shows "inv e s \<Longrightarrow> inv e s' \<and> view e s' i = fold (effect i) as (view e s i)"
  using assms(2)
proof induction
  case (steps_more s a s1 as s')
  then show ?case using observed_inv [OF assms(1)] step_view [OF assms(1)] by fastforce
qed simp

end

end
