(* ===== verification/PaymentFlow.thy ===== *)
theory PaymentFlow
  imports EventHandler NodeOperations Runs
begin

text \<open>
  Outgoing payments across tasks: \<open>pay_bolt11_invoice\<close> (\<open>src/node.rs\<close>) runs in the server's task
  and the event handler (\<open>src/event_handler.rs\<close>) in the background processor's; both write to the node
  store. The channel manager accepts a payment before the payment is added to the store, so an event can be
  handled in between. The steps of the two tasks are a relation; the calls between their two halves are
  part of the state.
\<close>

section \<open>The shared state and its steps\<close>

record ('kv, 'cm, 'w, 'pm, 'b) flow =
  flow_node :: "('kv, 'cm, 'w, 'pm) node"
  flow_bump :: 'b
  flow_calls :: "payment list"

text \<open>The handler works on the node's own store, channel manager and wallet.\<close>

definition handler_of :: "('kv, 'cm, 'w, 'pm, 'b) flow \<Rightarrow> ('kv, 'cm, 'w, 'b) handler_state" where
  "handler_of s =
     \<lparr>node_store = n_node_store (flow_node s), channel_manager = n_channel_manager (flow_node s),
      onchain_wallet = n_onchain_wallet (flow_node s), bump_tx_handler = flow_bump s\<rparr>"

definition with_handler :: "('kv, 'cm, 'w, 'pm, 'b) flow \<Rightarrow> ('kv, 'cm, 'w, 'b) handler_state \<Rightarrow>
    ('kv, 'cm, 'w, 'pm, 'b) flow" where
  "with_handler s h = s\<lparr>flow_node := (flow_node s)\<lparr>n_node_store := node_store h,
       n_channel_manager := channel_manager h, n_onchain_wallet := onchain_wallet h\<rparr>,
     flow_bump := bump_tx_handler h\<rparr>"

datatype action =
    SendInvoice bolt11_invoice "u64 option"
  | RecordPayment payment
  | HandleEvent event

inductive flow_step :: "('kv, 'cm, 'w, 'p, 'pm) node_env \<Rightarrow> ('kv, 'cm, 'w, 'p, 'b) handler_env \<Rightarrow>
    ('kv, 'cm, 'w, 'pm, 'b) flow \<Rightarrow> action \<Rightarrow> ('kv, 'cm, 'w, 'pm, 'b) flow \<Rightarrow> bool"
  for N H where
  sent: "send_invoice N (flow_node s) invoice msat = (Inr p, n) \<Longrightarrow>
    flow_step N H s (SendInvoice invoice msat) (s\<lparr>flow_node := n, flow_calls := p # flow_calls s\<rparr>)"
| refused: "send_invoice N (flow_node s) invoice msat = (Inl e, n) \<Longrightarrow>
    flow_step N H s (SendInvoice invoice msat) (s\<lparr>flow_node := n\<rparr>)"
| recorded: "p \<in> set (flow_calls s) \<Longrightarrow> record_payment N (flow_node s) p = (r, n) \<Longrightarrow>
    flow_step N H s (RecordPayment p) (s\<lparr>flow_node := n, flow_calls := remove1 p (flow_calls s)\<rparr>)"
| handled: "handle_event H (handler_of s) e = (Return r, h) \<Longrightarrow>
    flow_step N H s (HandleEvent e) (with_handler s h)"

inductive_cases send_stepE: "flow_step N H s (SendInvoice invoice msat) s'"
inductive_cases record_stepE: "flow_step N H s (RecordPayment p) s'"
inductive_cases event_stepE: "flow_step N H s (HandleEvent e) s'"

abbreviation flow_run :: "('kv, 'cm, 'w, 'p, 'pm) node_env \<Rightarrow> ('kv, 'cm, 'w, 'p, 'b) handler_env \<Rightarrow>
    ('kv, 'cm, 'w, 'pm, 'b) flow \<Rightarrow> action list \<Rightarrow> ('kv, 'cm, 'w, 'pm, 'b) flow \<Rightarrow> bool" where
  "flow_run N H \<equiv> steps (flow_step N H)"

text \<open>The store the two tasks share, and what each kind of step does to it.\<close>

abbreviation flow_store :: "('kv, 'cm, 'w, 'pm, 'b) flow \<Rightarrow> 'kv" where
  "flow_store s \<equiv> n_node_store (flow_node s)"

definition flow_inv :: "'kv store_env \<Rightarrow> ('kv \<Rightarrow> bool) \<Rightarrow> ('kv, 'cm, 'w, 'pm, 'b) flow \<Rightarrow> bool" where
  "flow_inv E good s \<longleftrightarrow> payments_wf E (flow_store s) \<and> good (flow_store s) \<and>
     (\<forall>p \<in> set (flow_calls s). status p = Pending \<and> direction p = Outbound \<and> amount_msat p \<noteq> None)"

text \<open>The abstract effect of an action on the payment map.\<close>

fun action_effect :: "payment_id \<Rightarrow> action \<Rightarrow> payment option \<Rightarrow> payment option" where
  "action_effect i (SendInvoice invoice msat) x = x"
| "action_effect i (RecordPayment p) x = (if payment_id p = i then Some p else x)"
| "action_effect i (HandleEvent e) x = map_option (event_effect i e) x"

lemma record_payment_writable:
  assumes "store_laws (ne_store N)" and "writable (ne_store N) good"
    and "payments_wf (ne_store N) (n_node_store n)" and "good (n_node_store n)"
    and "record_payment N n p = (r, n')"
  shows "payments_view (ne_store N) (n_node_store n') = (payments_view (ne_store N) (n_node_store n))(payment_id p \<mapsto> p)"
    and "payments_wf (ne_store N) (n_node_store n')" and "good (n_node_store n')"
proof -
  obtain kv where kv: "add_payment (ne_store N) (n_node_store n) p = (Inr (), kv)" "good kv"
    by (rule writableD [OF assms(2,4)])
  with assms(5) have "n_node_store n' = kv" by (auto simp: record_payment_def)
  with kv payments.put_refines [OF assms(1) kv(1)] payments.put_wf [OF assms(1,3) kv(1)]
  show "payments_view (ne_store N) (n_node_store n') = (payments_view (ne_store N) (n_node_store n))(payment_id p \<mapsto> p)"
    and "payments_wf (ne_store N) (n_node_store n')" and "good (n_node_store n')"
    by simp_all
qed

lemma flow_step_refines:
  assumes "store_laws (ne_store N)" and "writable (ne_store N) good" and "env_store H = ne_store N"
    and "flow_step N H s a s'" and "flow_inv (ne_store N) good s"
  shows "flow_inv (ne_store N) good s' \<and>
    payments_view (ne_store N) (flow_store s') i = action_effect i a (payments_view (ne_store N) (flow_store s) i)"
  using assms(4,5)
proof cases
  case (sent invoice msat p n)
  obtain amount cm where p: "p = outbound_payment invoice amount" "n = (flow_node s)\<lparr>n_channel_manager := cm\<rparr>"
    by (rule send_invoice_Inr [OF sent(3)])
  with sent assms(5) show ?thesis by (simp add: flow_inv_def outbound_payment_def)
next
  case (refused invoice msat e n)
  with send_invoice_store [of N "flow_node s" invoice msat] assms(5) show ?thesis
    by (simp add: flow_inv_def)
next
  case (recorded p r n)
  from assms(5) have "payments_wf (ne_store N) (flow_store s)" "good (flow_store s)"
    by (simp_all add: flow_inv_def)
  from record_payment_writable [OF assms(1,2) this recorded(4)] recorded assms(5) show ?thesis
    by (auto simp: flow_inv_def dest: notin_set_remove1 in_set_remove1 [THEN iffD1] set_remove1_subset [THEN subsetD])
next
  case (handled e r h)
  from assms(5) have "payments_wf (ne_store N) (node_store (handler_of s))" "good (node_store (handler_of s))"
    by (simp_all add: flow_inv_def handler_of_def)
  from handle_event_view [OF assms(1,3,2) this handled(3)] have
    "payments_view (ne_store N) (node_store h) j =
       map_option (event_effect j e) (payments_view (ne_store N) (node_store (handler_of s)) j)"
    "payments_wf (ne_store N) (node_store h)" "good (node_store h)" for j
    by simp_all
  with handled assms(5) show ?thesis by (simp add: flow_inv_def with_handler_def handler_of_def)
qed

text \<open>A payment only becomes \<open>Succeeded\<close> in a step that handles \<open>PaymentSent\<close> for it.\<close>

definition reports_success :: "payment_id \<Rightarrow> action \<Rightarrow> bool" where
  "reports_success i a \<longleftrightarrow> (\<exists>x h fee. a = HandleEvent (PaymentSent (Some i) x h fee))"

definition succeeded :: "payment option \<Rightarrow> bool" where
  "succeeded x = (case x of None \<Rightarrow> False | Some p \<Rightarrow> status p = Succeeded)"

lemma event_effect_success:
  "succeeded (map_option (event_effect i e) x) \<Longrightarrow> succeeded x \<or> reports_success i (HandleEvent e)"
  by (cases x; cases e rule: event_target.cases)
    (auto simp: succeeded_def reports_success_def split: if_splits)

lemma flow_step_success:
  assumes "store_laws (ne_store N)" and "writable (ne_store N) good" and "env_store H = ne_store N"
    and "flow_step N H s a s'" and "flow_inv (ne_store N) good s"
    and "succeeded (payments_view (ne_store N) (flow_store s') i)"
  shows "succeeded (payments_view (ne_store N) (flow_store s) i) \<or> reports_success i a"
proof -
  have view: "payments_view (ne_store N) (flow_store s') i =
      action_effect i a (payments_view (ne_store N) (flow_store s) i)"
    using flow_step_refines [OF assms(1-5)] by simp
  show ?thesis
  proof (cases a)
    case (SendInvoice invoice msat)
    with view assms(6) show ?thesis by simp
  next
    case (RecordPayment p)
    with assms(4) have "p \<in> set (flow_calls s)" by (auto elim: record_stepE)
    with assms(5) have "status p = Pending" by (simp add: flow_inv_def)
    with RecordPayment view assms(6) show ?thesis by (simp add: succeeded_def split: if_splits)
  next
    case (HandleEvent e)
    with view assms(6) show ?thesis by (auto dest: event_effect_success)
  qed
qed

text \<open>The two tasks as a step relation: its environment is what the node and the handler use, and where
  writes succeed.\<close>

definition flow_laws :: "('kv, 'cm, 'w, 'p, 'pm) node_env \<times> ('kv, 'cm, 'w, 'p, 'b) handler_env \<times> ('kv \<Rightarrow> bool) \<Rightarrow> bool" where
  "flow_laws e = (case e of (N, H, good) \<Rightarrow>
     store_laws (ne_store N) \<and> writable (ne_store N) good \<and> env_store H = ne_store N)"

interpretation flow_view: observed_steps flow_laws "\<lambda>(N, H, good). flow_step N H"
  "\<lambda>(N, H, good). flow_inv (ne_store N) good" "\<lambda>(N, H, good) s. payments_view (ne_store N) (flow_store s)" action_effect
  by unfold_locales (auto simp: flow_laws_def dest: flow_step_refines)

interpretation flow_success: caused_steps flow_laws "\<lambda>(N, H, good). flow_step N H"
  "\<lambda>(N, H, good). flow_inv (ne_store N) good"
  "\<lambda>(N, H, good) i s. succeeded (payments_view (ne_store N) (flow_store s) i)" "\<lambda>e. reports_success"
  by unfold_locales (auto simp: flow_laws_def dest: flow_step_refines flow_step_success)

lemma flow_run_refines:
  assumes "store_laws (ne_store N)" and "writable (ne_store N) good" and "env_store H = ne_store N"
    and "flow_run N H s as s'" and "flow_inv (ne_store N) good s"
  shows "flow_inv (ne_store N) good s' \<and>
    payments_view (ne_store N) (flow_store s') i = fold (action_effect i) as (payments_view (ne_store N) (flow_store s) i)"
  using flow_view.steps_view [of "(N, H, good)" s as s' i] assms by (simp add: flow_laws_def)

lemma fold_action_effect_other:
  "\<forall>a \<in> set as. (\<forall>q. a = RecordPayment q \<longrightarrow> payment_id q \<noteq> i) \<and>
      (\<forall>e. a = HandleEvent e \<longrightarrow> event_target e \<noteq> Some i) \<Longrightarrow>
     fold (action_effect i) as x = x"
proof (induction as)
  case (Cons a as)
  then have "action_effect i a x = x"
    by (cases a) (simp_all add: event_effect_other option.map_ident_strong)
  with Cons show ?case by simp
qed simp

lemma fold_action_effect_kept:
  "\<forall>a \<in> set as. \<forall>q. a = RecordPayment q \<longrightarrow> payment_id q \<noteq> i \<Longrightarrow>
     \<exists>q. fold (action_effect i) as (Some p) = Some q \<and> amount_msat q = amount_msat p"
proof (induction as arbitrary: p)
  case (Cons a as)
  then have "\<exists>q. action_effect i a (Some p) = Some q \<and> amount_msat q = amount_msat p"
    by (cases a) (auto simp: event_effect_amount)
  then obtain q where "action_effect i a (Some p) = Some q" "amount_msat q = amount_msat p" by blast
  with Cons.IH [of q] Cons.prems show ?case by simp
qed simp

section \<open>A concrete run\<close>

definition sample_flow :: "(mem_store, cm_log, u64, peer_details list, u8) flow" where
  "sample_flow = \<lparr>flow_node = sample_node empty_store quiet_cm [], flow_bump = 0, flow_calls = []\<rparr>"

definition sent_node :: "(mem_store, cm_log, u64, peer_details list) node" where
  "sent_node = snd (send_invoice sample_env (sample_node empty_store quiet_cm []) sample_invoice None)"

definition sent_flow :: "(mem_store, cm_log, u64, peer_details list, u8) flow" where
  "sent_flow = sample_flow\<lparr>flow_node := sent_node, flow_calls := [outbound_payment sample_invoice 50]\<rparr>"

definition recorded_flow :: "(mem_store, cm_log, u64, peer_details list, u8) flow" where
  "recorded_flow = sent_flow\<lparr>flow_node := snd (record_payment sample_env sent_node (outbound_payment sample_invoice 50)),
     flow_calls := []\<rparr>"

definition concluded_flow :: "(mem_store, cm_log, u64, peer_details list, u8) flow" where
  "concluded_flow = with_handler recorded_flow (snd (handle_event sample_handler (handler_of recorded_flow) sent_event))"

lemma sample_flow_inv: "flow_inv ref_env (\<lambda>kv. \<not> write_fails kv) sample_flow"
proof -
  have "\<not> write_fails empty_store" by (simp add: empty_store_def)
  then show ?thesis by (simp add: flow_inv_def sample_flow_def empty_store_wf)
qed

lemma sample_send: "flow_step sample_env sample_handler sample_flow (SendInvoice sample_invoice None) sent_flow"
proof -
  have "fst (send_invoice sample_env (flow_node sample_flow) sample_invoice None) =
      Inr (outbound_payment sample_invoice 50)"
    by code_simp
  then have "send_invoice sample_env (flow_node sample_flow) sample_invoice None =
      (Inr (outbound_payment sample_invoice 50), sent_node)"
    by (simp add: sent_node_def sample_flow_def prod_eq_iff)
  from flow_step.sent [OF this, of sample_handler] show ?thesis
    by (simp add: sent_flow_def sample_flow_def)
qed

lemma sample_record:
  "flow_step sample_env sample_handler sent_flow (RecordPayment (outbound_payment sample_invoice 50)) recorded_flow"
proof -
  have "record_payment sample_env (flow_node sent_flow) (outbound_payment sample_invoice 50) =
      (fst (record_payment sample_env sent_node (outbound_payment sample_invoice 50)),
       snd (record_payment sample_env sent_node (outbound_payment sample_invoice 50)))"
    by (simp add: sent_flow_def)
  from flow_step.recorded [OF _ this, of sample_handler] show ?thesis
    by (simp add: recorded_flow_def sent_flow_def)
qed

lemma early_event_ignored:
  "flow_step sample_env sample_handler sent_flow (HandleEvent sent_event) sent_flow"
proof -
  have "fst (handle_event sample_handler (handler_of sent_flow) sent_event) = Return (Inr ())" by code_simp
  moreover have "snd (handle_event sample_handler (handler_of sent_flow) sent_event) = handler_of sent_flow"
    by code_simp
  ultimately have "handle_event sample_handler (handler_of sent_flow) sent_event = (Return (Inr ()), handler_of sent_flow)"
    by (simp add: prod_eq_iff)
  moreover have "with_handler sent_flow (handler_of sent_flow) = sent_flow"
    by (simp add: with_handler_def handler_of_def)
  ultimately show ?thesis using flow_step.handled [of sample_handler sent_flow sent_event] by metis
qed

lemma late_event_handled:
  "flow_step sample_env sample_handler recorded_flow (HandleEvent sent_event) concluded_flow"
proof -
  have "fst (handle_event sample_handler (handler_of recorded_flow) sent_event) = Return (Inr ())" by code_simp
  then show ?thesis unfolding concluded_flow_def
    by (intro flow_step.handled [where r = "Inr ()"]) (simp_all add: prod_eq_iff)
qed

lemma sample_laws:
  "store_laws (ne_store sample_env)" "writable (ne_store sample_env) (\<lambda>kv. \<not> write_fails kv)"
  "env_store sample_handler = ne_store sample_env"
  "flow_inv (ne_store sample_env) (\<lambda>kv. \<not> write_fails kv) sample_flow"
  using sample_flow_inv by (simp_all add: ref_env_laws ref_writable)

lemma early_run:
  "flow_run sample_env sample_handler sample_flow
     ([SendInvoice sample_invoice None, HandleEvent sent_event] @ [RecordPayment (outbound_payment sample_invoice 50)])
     recorded_flow"
  using sample_send early_event_ignored sample_record by (auto simp: steps_Cons)

lemma late_run:
  "flow_run sample_env sample_handler sample_flow
     ([SendInvoice sample_invoice None] @ RecordPayment (outbound_payment sample_invoice 50) # [] @ HandleEvent sent_event # [])
     concluded_flow"
  using sample_send sample_record late_event_handled by (auto simp: steps_Cons)

lemma sample_outbound: "payment_id (outbound_payment sample_invoice 50) = PaymentId [7, 1]"
  by (simp add: outbound_payment_def sample_invoice_def)

section \<open>Properties\<close>

text \<open>
  No false success: from a state whose store is well formed, in whatever order the two tasks'
  steps interleave, a payment that ends up \<open>Succeeded\<close> and was not so before has had a
  \<open>PaymentSent\<close> event for its id handled in between; sending, recording and every other event never
  make it so.
\<close>

theorem success_only_from_event:
  assumes "store_laws (ne_store N)" and "writable (ne_store N) good" and "env_store H = ne_store N"
    and "flow_inv (ne_store N) good s" and "flow_run N H s as s'"
    and "succeeded (payments_view (ne_store N) (flow_store s') i)"
    and "\<not> succeeded (payments_view (ne_store N) (flow_store s) i)"
  shows "\<exists>x h fee. HandleEvent (PaymentSent (Some i) x h fee) \<in> set as"
  using flow_success.steps_cause [of "(N, H, good)" s as s' i] assms by (auto simp: reports_success_def flow_laws_def)

theorem success_only_from_event_witness:
  "succeeded (payments_view ref_env (flow_store concluded_flow) (PaymentId [7, 1])) \<and>
   \<not> succeeded (payments_view ref_env (flow_store sample_flow) (PaymentId [7, 1])) \<and>
   (\<exists>x h fee. HandleEvent (PaymentSent (Some (PaymentId [7, 1])) x h fee) \<in>
      set ([SendInvoice sample_invoice None] @ RecordPayment (outbound_payment sample_invoice 50) # [] @ HandleEvent sent_event # []))"
proof -
  have after: "succeeded (payments_view (ne_store sample_env) (flow_store concluded_flow) (PaymentId [7, 1]))"
    and before: "\<not> succeeded (payments_view (ne_store sample_env) (flow_store sample_flow) (PaymentId [7, 1]))"
    by code_simp+
  from success_only_from_event [OF sample_laws late_run after before] after before show ?thesis by simp
qed

text \<open>
  C6: an outcome that LDK reports before the payment is recorded is lost: whatever was handled earlier,
  the recording step leaves the payment \<open>Pending\<close>, without preimage or fee, and nothing remains under
  way that would correct it.
\<close>

theorem early_outcome_overwritten:
  assumes "store_laws (ne_store N)" and "writable (ne_store N) good" and "env_store H = ne_store N"
    and "flow_inv (ne_store N) good s" and "flow_run N H s (as @ [RecordPayment p]) s'"
  shows "get_payment (ne_store N) (flow_store s') (payment_id p) = Inr p \<and> status p = Pending"
proof -
  from assms(5) obtain s1 where s1: "flow_run N H s as s1" "flow_step N H s1 (RecordPayment p) s'"
    by (auto simp: steps_append steps_Cons)
  from flow_run_refines [OF assms(1-3) s1(1) assms(4)] have inv: "flow_inv (ne_store N) good s1" by simp
  from s1(2) have "p \<in> set (flow_calls s1)" by (auto elim: record_stepE)
  with inv have "status p = Pending" by (simp add: flow_inv_def)
  moreover from flow_step_refines [OF assms(1-3) s1(2) inv, of "payment_id p"]
  have "payments_view (ne_store N) (flow_store s') (payment_id p) = Some p" by simp
  ultimately show ?thesis by (simp add: get_payment_view)
qed

theorem early_outcome_overwritten_witness:
  "flow_run sample_env sample_handler sample_flow
     ([SendInvoice sample_invoice None, HandleEvent sent_event] @ [RecordPayment (outbound_payment sample_invoice 50)])
     recorded_flow \<and>
   get_payment ref_env (flow_store recorded_flow) (PaymentId [7, 1]) = Inr (outbound_payment sample_invoice 50) \<and>
   status (outbound_payment sample_invoice 50) = Pending \<and> flow_calls recorded_flow = []"
  using early_outcome_overwritten [OF sample_laws early_run] early_run
  by (simp add: sample_outbound recorded_flow_def)

text \<open>
  C5: in the other order nothing is lost: once a payment is recorded, the last \<open>PaymentSent\<close> or
  \<open>PaymentFailed\<close> handled for it decides its status for good, as long as no second call for the same
  payment hash records it again, and the amount recorded with it stays.
\<close>

theorem recorded_outcome_kept:
  assumes "store_laws (ne_store N)" and "writable (ne_store N) good" and "env_store H = ne_store N"
    and "flow_inv (ne_store N) good s"
    and "flow_run N H s (as @ RecordPayment p # bs @ HandleEvent e # cs) s'"
    and "event_target e = Some (payment_id p)"
    and "\<forall>a \<in> set bs \<union> set cs. \<forall>q. a = RecordPayment q \<longrightarrow> payment_id q \<noteq> payment_id p"
    and "\<forall>a \<in> set cs. \<forall>e'. a = HandleEvent e' \<longrightarrow> event_target e' \<noteq> Some (payment_id p)"
  shows "\<exists>p'. get_payment (ne_store N) (flow_store s') (payment_id p) = Inr p' \<and> status p' = event_status e \<and>
    amount_msat p' = amount_msat p"
proof -
  let ?i = "payment_id p" and ?run = "as @ RecordPayment p # bs @ HandleEvent e # cs"
  have view: "payments_view (ne_store N) (flow_store s') ?i =
      fold (action_effect ?i) ?run (payments_view (ne_store N) (flow_store s) ?i)"
    using flow_run_refines [OF assms(1-3,5,4)] by simp
  obtain q where q: "fold (action_effect ?i) bs (Some p) = Some q" "amount_msat q = amount_msat p"
    using fold_action_effect_kept [of bs ?i p] assms(7) by auto
  have cs: "fold (action_effect ?i) cs x = x" for x
    by (rule fold_action_effect_other) (use assms(7,8) in blast)
  have "payments_view (ne_store N) (flow_store s') ?i = Some (event_effect ?i e q)"
    using view q(1) cs by simp
  then show ?thesis
    using q(2) event_effect_status [OF assms(6)] by (simp add: get_payment_view event_effect_amount)
qed

theorem recorded_outcome_kept_witness:
  "flow_run sample_env sample_handler sample_flow
     ([SendInvoice sample_invoice None] @ RecordPayment (outbound_payment sample_invoice 50) # [] @ HandleEvent sent_event # [])
     concluded_flow \<and>
   (\<exists>p'. get_payment ref_env (flow_store concluded_flow) (PaymentId [7, 1]) = Inr p' \<and> status p' = Succeeded \<and>
      amount_msat p' = Some 50)"
proof -
  have "event_status sent_event = Succeeded" by (simp add: event_status_def sent_event_def)
  moreover have "amount_msat (outbound_payment sample_invoice 50) = Some 50" by (simp add: outbound_payment_def)
  ultimately show ?thesis
    using recorded_outcome_kept [OF sample_laws late_run] late_run by (simp add: sample_outbound)
qed

end
