(* ===== verification/StoreRaces.thy ===== *)
theory StoreRaces
  imports PaymentFlow
begin

text \<open>
  The handling of a payment outcome (\<open>src/event_handler.rs\<close>) reads the payment from the node store and
  writes it back changed: two operations of \<open>NodeStore\<close> (\<open>src/storage.rs\<close>), each of which takes the lock
  for itself. The server's task can run between them. Here the two halves are separate steps.
\<close>

section \<open>The two halves\<close>

text \<open>
  The reading half of \<open>PaymentSent\<close> and \<open>PaymentFailed\<close>: up to the payment that is then passed to
  \<open>update_payment\<close>, if any.
\<close>

fun read_payment :: "('kv, 'cm, 'w, 'p, 'b) handler_env \<Rightarrow> 'kv \<Rightarrow> event \<Rightarrow> payment option outcome" where
  "read_payment H kv (PaymentSent id_opt preimage hash fee_paid) =
     bind_outcome (unwrap id_opt) (\<lambda>i.
       case get_payment (env_store H) kv i of
         Inl e \<Rightarrow> Return None
       | Inr payment \<Rightarrow>
           bind_outcome (log_info (env_log_info H)
               (bind_outcome (unwrap (amount_msat payment)) (\<lambda>_. evaluate (unwrap fee_paid))))
             (\<lambda>_. Return (Some (payment\<lparr>status := Succeeded, payment_preimage := Some preimage,
                                          fee_paid_msat := fee_paid\<rparr>))))"
| "read_payment H kv (PaymentFailed i hash reason) =
     (if hash \<noteq> None then
        (case get_payment (env_store H) kv i of
           Inl e \<Rightarrow> Return None
         | Inr payment \<Rightarrow>
             bind_outcome (log_info (env_log_info H) (evaluate (unwrap reason)))
               (\<lambda>_. Return (Some (payment\<lparr>status := Failed\<rparr>))))
      else Return None)"
| "read_payment H kv _ = Return None"

definition write_payment :: "('kv, 'cm, 'w, 'p, 'b) handler_env \<Rightarrow> 'kv \<Rightarrow> payment \<Rightarrow> 'kv" where
  "write_payment H kv p = snd (update_payment (env_store H) kv p)"

text \<open>Nothing else happens to the state: with nobody in between, the halves are the whole.\<close>

lemma handled_in_halves:
  "event_target e \<noteq> None \<Longrightarrow>
     handle_event H s e =
       (case read_payment H (node_store s) e of
          Panic m \<Rightarrow> (Panic m, s)
        | Return None \<Rightarrow> (Return (Inr ()), s)
        | Return (Some p) \<Rightarrow> (Return (Inr ()), s\<lparr>node_store := write_payment H (node_store s) p\<rparr>))"
  by (cases "(H, s, e)" rule: handle_event.cases)
    (auto simp: handle_payment_sent_def handle_payment_failed_def write_payment_def Let_def
      split: option.splits sum.splits outcome.splits)

lemma read_payment_Some:
  assumes "read_payment H kv e = Return (Some p)"
  obtains i q where "event_target e = Some i" and "payments_view (env_store H) kv i = Some q" and "p = event_effect i e q"
  using assms
  by (cases "(H, kv, e)" rule: read_payment.cases)
    (auto simp: payments_view_get bind_outcome_def split: outcome.splits sum.splits option.splits if_splits)

text \<open>What is read depends on the store only through the payment of the event.\<close>

text \<open>What is read depends on the store only through the payment of the event.\<close>

lemma read_payment_cong:
  assumes "event_target e = Some i" and "payments_view (env_store H) kv' i = payments_view (env_store H) kv i"
    and "read_payment H kv e = Return (Some p)"
  shows "read_payment H kv' e = Return (Some p)"
  using assms
  by (cases "(H, kv, e)" rule: read_payment.cases)
    (auto simp: payments_view_get result_ok_def bind_outcome_def split: outcome.splits sum.splits option.splits if_splits)

section \<open>Steps\<close>

text \<open>
  The shared state with the payment that the event handler is about to write back. While it is between the
  halves the background processor does nothing else; the server's steps are those of \<open>PaymentFlow\<close>.
\<close>

record ('kv, 'cm, 'w, 'pm, 'b) race =
  race_flow :: "('kv, 'cm, 'w, 'pm, 'b) flow"
  race_write :: "payment option"

datatype race_action =
    ReadFor event
  | WriteBack
  | Meanwhile action

definition set_store :: "('kv, 'cm, 'w, 'pm, 'b) flow \<Rightarrow> 'kv \<Rightarrow> ('kv, 'cm, 'w, 'pm, 'b) flow" where
  "set_store f kv = f\<lparr>flow_node := (flow_node f)\<lparr>n_node_store := kv\<rparr>\<rparr>"

inductive race_step :: "('kv, 'cm, 'w, 'p, 'pm) node_env \<Rightarrow> ('kv, 'cm, 'w, 'p, 'b) handler_env \<Rightarrow>
    ('kv, 'cm, 'w, 'pm, 'b) race \<Rightarrow> race_action \<Rightarrow> ('kv, 'cm, 'w, 'pm, 'b) race \<Rightarrow> bool"
  for N H where
  read_for: "race_write s = None \<Longrightarrow> event_target e \<noteq> None \<Longrightarrow>
    read_payment H (flow_store (race_flow s)) e = Return w \<Longrightarrow>
    race_step N H s (ReadFor e) (s\<lparr>race_write := w\<rparr>)"
| write_back: "race_write s = Some p \<Longrightarrow>
    race_step N H s WriteBack
      (s\<lparr>race_flow := set_store (race_flow s) (write_payment H (flow_store (race_flow s)) p), race_write := None\<rparr>)"
| meanwhile: "flow_step N H (race_flow s) a f \<Longrightarrow> (\<And>e. a \<noteq> HandleEvent e) \<Longrightarrow>
    race_step N H s (Meanwhile a) (s\<lparr>race_flow := f\<rparr>)"

inductive_cases read_forE: "race_step N H s (ReadFor e) s'"
inductive_cases write_backE: "race_step N H s WriteBack s'"
inductive_cases meanwhileE: "race_step N H s (Meanwhile a) s'"

lemma meanwhile_run:
  assumes "steps (race_step N H) s (map Meanwhile as) s'"
  shows "flow_run N H (race_flow s) as (race_flow s') \<and> race_write s' = race_write s \<and> (\<forall>e. HandleEvent e \<notin> set as)"
  using assms
  by (induction as arbitrary: s) (fastforce simp: steps_Cons elim!: meanwhileE)+

text \<open>A whole handling with steps of the server in between, in terms of the shared state.\<close>

lemma raced_handling:
  assumes "steps (race_step N H) s (ReadFor e # map Meanwhile as @ [WriteBack]) s'"
  obtains p f where "read_payment H (flow_store (race_flow s)) e = Return (Some p)" and "flow_run N H (race_flow s) as f"
    and "\<And>e. HandleEvent e \<notin> set as" and "race_flow s' = set_store f (write_payment H (flow_store f) p)"
proof -
  from assms obtain s1 s2 where run: "race_step N H s (ReadFor e) s1" "steps (race_step N H) s1 (map Meanwhile as) s2"
      "race_step N H s2 WriteBack s'"
    by (auto simp: steps_Cons steps_append)
  from run(1) obtain w where w: "read_payment H (flow_store (race_flow s)) e = Return w" "s1 = s\<lparr>race_write := w\<rparr>"
    by (auto elim: read_forE)
  from run(3) obtain p where p: "race_write s2 = Some p"
      "race_flow s' = set_store (race_flow s2) (write_payment H (flow_store (race_flow s2)) p)"
    by (auto elim: write_backE)
  from meanwhile_run [OF run(2)] w p that [of p "race_flow s2"] show ?thesis by simp
qed

lemma handled_step:
  assumes "event_target e \<noteq> None" and "read_payment H (flow_store f) e = Return (Some p)"
  shows "flow_step N H f (HandleEvent e) (set_store f (write_payment H (flow_store f) p))"
proof -
  have same: "node_store (handler_of f) = flow_store f" by (simp add: handler_of_def)
  from handled_in_halves [OF assms(1), of H "handler_of f"] assms(2)
  have "handle_event H (handler_of f) e = (Return (Inr ()), (handler_of f)\<lparr>node_store := write_payment H (flow_store f) p\<rparr>)"
    by (simp add: same)
  from flow_step.handled [OF this, of N] show ?thesis by (simp add: with_handler_def handler_of_def set_store_def)
qed

section \<open>Concrete races\<close>

text \<open>A stored payment whose success is being handled while the same invoice is paid again.\<close>

definition paying_again :: "(mem_store, cm_log, u64, peer_details list, u8) race" where
  "paying_again =
     \<lparr>race_flow = recorded_flow\<lparr>flow_calls := [outbound_payment sample_invoice 60]\<rparr>, race_write = None\<rparr>"

lemma paying_again_inv: "flow_inv (ne_store sample_env) (\<lambda>kv. \<not> write_fails kv) (race_flow paying_again)"
proof -
  have "flow_inv (ne_store sample_env) (\<lambda>kv. \<not> write_fails kv) recorded_flow"
    using flow_run_refines [OF sample_laws(1-3) early_run sample_laws(4)] by simp
  then show ?thesis by (simp add: flow_inv_def paying_again_def outbound_payment_def)
qed

text \<open>The write that the handling of the success is about to make, and the state after it.\<close>

definition about_to_write :: payment where
  "about_to_write = (case read_payment sample_handler (flow_store (race_flow paying_again)) sent_event of
     Return (Some p) \<Rightarrow> p | _ \<Rightarrow> outbound_payment sample_invoice 0)"

definition written_after :: "(mem_store, cm_log, u64, peer_details list, u8) flow \<Rightarrow>
    (mem_store, cm_log, u64, peer_details list, u8) race" where
  "written_after f = \<lparr>race_flow = set_store f (write_payment sample_handler (flow_store f) about_to_write), race_write = None\<rparr>"

lemma raced_run:
  assumes "flow_step sample_env sample_handler (race_flow paying_again) a f" and "\<And>e. a \<noteq> HandleEvent e"
  shows "steps (race_step sample_env sample_handler) paying_again (ReadFor sent_event # map Meanwhile [a] @ [WriteBack])
    (written_after f)"
proof -
  have "case read_payment sample_handler (flow_store (race_flow paying_again)) sent_event of
      Return (Some p) \<Rightarrow> True | _ \<Rightarrow> False"
    by code_simp
  then have read: "read_payment sample_handler (flow_store (race_flow paying_again)) sent_event = Return (Some about_to_write)"
    by (auto simp: about_to_write_def split: outcome.splits option.splits)
  have none: "race_write paying_again = None" by (simp add: paying_again_def)
  have target: "event_target sent_event \<noteq> None" by code_simp
  let ?s1 = "paying_again\<lparr>race_write := Some about_to_write\<rparr>"
  have "race_step sample_env sample_handler paying_again (ReadFor sent_event) ?s1"
    by (rule race_step.read_for [OF none target read])
  moreover have "race_step sample_env sample_handler ?s1 (Meanwhile a) (?s1\<lparr>race_flow := f\<rparr>)"
    by (rule race_step.meanwhile) (use assms in simp_all)
  moreover have "race_step sample_env sample_handler (?s1\<lparr>race_flow := f\<rparr>) WriteBack (written_after f)"
    using race_step.write_back [of "?s1\<lparr>race_flow := f\<rparr>" about_to_write sample_env sample_handler]
    by (simp add: written_after_def paying_again_def)
  ultimately show ?thesis by (auto simp: steps_Cons)
qed

section \<open>Properties\<close>

text \<open>
  C10: handling a payment outcome is atomic as long as nobody records the same payment in between: whatever
  the server does between the read and the write, the result is that of the server's steps followed by the
  handling of the event in one go.
\<close>

theorem handling_is_atomic:
  assumes "store_laws (ne_store N)" and "writable (ne_store N) good" and "env_store H = ne_store N"
    and "flow_inv (ne_store N) good (race_flow s)" and "event_target e = Some i"
    and "steps (race_step N H) s (ReadFor e # map Meanwhile as @ [WriteBack]) s'"
    and "\<And>q. RecordPayment q \<in> set as \<Longrightarrow> payment_id q \<noteq> i"
  shows "flow_run N H (race_flow s) (as @ [HandleEvent e]) (race_flow s')"
proof -
  obtain p f where run: "read_payment H (flow_store (race_flow s)) e = Return (Some p)" "flow_run N H (race_flow s) as f"
      "\<And>e. HandleEvent e \<notin> set as" "race_flow s' = set_store f (write_payment H (flow_store f) p)"
    using assms(6) by (rule raced_handling) blast
  have "\<forall>a \<in> set as. (\<forall>q. a = RecordPayment q \<longrightarrow> payment_id q \<noteq> i) \<and> (\<forall>e. a = HandleEvent e \<longrightarrow> event_target e \<noteq> Some i)"
    using run(3) assms(7) by blast
  from flow_run_refines [OF assms(1-3) run(2) assms(4), of i] fold_action_effect_other [OF this]
  have "payments_view (env_store H) (flow_store f) i = payments_view (env_store H) (flow_store (race_flow s)) i"
    using assms(3) by simp
  from handled_step [OF _ read_payment_cong [OF assms(5) this run(1)], of N] assms(5) run(2,4) show ?thesis
    by (auto simp: steps_append steps_single)
qed

theorem handling_is_atomic_witness:
  "\<exists>f. flow_step sample_env sample_handler (race_flow paying_again) (SendInvoice sample_invoice (Some 5)) f \<and>
     flow_run sample_env sample_handler (race_flow paying_again) ([SendInvoice sample_invoice (Some 5)] @ [HandleEvent sent_event])
       (race_flow (written_after f))"
proof -
  obtain r n where "send_invoice sample_env (flow_node (race_flow paying_again)) sample_invoice (Some 5) = (r, n)"
    by (metis prod.collapse)
  then obtain f where step: "flow_step sample_env sample_handler (race_flow paying_again) (SendInvoice sample_invoice (Some 5)) f"
    by (cases r) (auto intro: flow_step.sent flow_step.refused)
  have target: "event_target sent_event = Some (PaymentId [7, 1])" by code_simp
  from handling_is_atomic [OF sample_laws(1-3) paying_again_inv target raced_run [OF step]] step show ?thesis by auto
qed

text \<open>
  C37: a payment recorded between the read and the write is lost: the record that is left for the id is the one
  that was read before, with the event's outcome, whatever was recorded for the id in between.
\<close>

theorem raced_record_lost:
  assumes "store_laws (ne_store N)" and "writable (ne_store N) good" and "env_store H = ne_store N"
    and "flow_inv (ne_store N) good (race_flow s)" and "event_target e = Some i"
    and "steps (race_step N H) s (ReadFor e # map Meanwhile as @ [WriteBack]) s'"
  shows "\<exists>q. payments_view (ne_store N) (flow_store (race_flow s)) i = Some q \<and>
    payments_view (ne_store N) (flow_store (race_flow s')) i = Some (event_effect i e q)"
proof -
  obtain p f where run: "read_payment H (flow_store (race_flow s)) e = Return (Some p)" "flow_run N H (race_flow s) as f"
      "race_flow s' = set_store f (write_payment H (flow_store f) p)"
    using assms(6) by (rule raced_handling) blast
  from read_payment_Some [OF run(1)] assms(3,5) obtain q where q:
      "payments_view (ne_store N) (flow_store (race_flow s)) i = Some q" "p = event_effect i e q"
    by auto
  from assms(4) have "payments_wf (ne_store N) (flow_store (race_flow s))" by (simp add: flow_inv_def)
  from payments.view_key [OF assms(1) this q(1)] have key: "payment_id p = i" using q(2) by simp
  have "payments_wf (ne_store N) (flow_store f)" "good (flow_store f)"
    using flow_run_refines [OF assms(1-3) run(2) assms(4)] by (simp_all add: flow_inv_def)
  from writableD [OF assms(2) this(2), of p] obtain kv where kv: "update_payment (ne_store N) (flow_store f) p = (Inr (), kv)"
      "add_payment (ne_store N) (flow_store f) p = (Inr (), kv)" by metis
  from payments.put_refines [OF assms(1) kv(2)] kv(1) key run(3) q assms(3)
  show ?thesis by (simp add: set_store_def write_payment_def)
qed

theorem raced_record_lost_witness:
  "\<exists>f. flow_step sample_env sample_handler (race_flow paying_again) (RecordPayment (outbound_payment sample_invoice 60)) f \<and>
     map_option amount_msat (payments_view ref_env (flow_store f) (PaymentId [7, 1])) = Some (Some 60) \<and>
     map_option amount_msat (payments_view ref_env (flow_store (race_flow (written_after f))) (PaymentId [7, 1])) = Some (Some 50)"
proof -
  let ?p = "outbound_payment sample_invoice 60"
  obtain r n where rec: "record_payment sample_env (flow_node (race_flow paying_again)) ?p = (r, n)"
    by (metis prod.collapse)
  have "?p \<in> set (flow_calls (race_flow paying_again))" by (simp add: paying_again_def)
  from flow_step.recorded [OF this rec, of sample_handler] obtain f where f: "flow_store f = n_node_store n"
      and step: "flow_step sample_env sample_handler (race_flow paying_again) (RecordPayment ?p) f"
    by (rule that [rotated]) simp
  have target: "event_target sent_event = Some (PaymentId [7, 1])" by code_simp
  have again: "map_option amount_msat (payments_view ref_env
      (n_node_store (snd (record_payment sample_env (flow_node (race_flow paying_again)) ?p))) (PaymentId [7, 1])) = Some (Some 60)"
    by code_simp
  have first: "map_option amount_msat (payments_view ref_env (flow_store (race_flow paying_again)) (PaymentId [7, 1])) = Some (Some 50)"
    by code_simp
  from raced_record_lost [OF sample_laws(1-3) paying_again_inv target raced_run [OF step]] obtain q where
    q: "payments_view ref_env (flow_store (race_flow paying_again)) (PaymentId [7, 1]) = Some q"
      "payments_view ref_env (flow_store (race_flow (written_after f))) (PaymentId [7, 1]) =
         Some (event_effect (PaymentId [7, 1]) sent_event q)" by auto
  with first have "map_option amount_msat (payments_view ref_env (flow_store (race_flow (written_after f))) (PaymentId [7, 1])) =
      Some (Some 50)"
    by (simp add: event_effect_amount)
  with step again f rec show ?thesis by auto
qed

end
