(* ===== verification/Signer.thy ===== *)
theory Signer
  imports OnchainWallet
begin

text \<open>
  The traits through which LDK uses the wallet manager (\<open>src/onchain_wallet.rs\<close>): \<open>EntropySource\<close>,
  \<open>NodeSigner\<close> and \<open>SignerProvider\<close>, whose methods go to LDK's keys manager except for the two that
  hand out scripts, and the coin selection traits, which go to the BDK wallet under its lock. The keys
  manager is a parameter; public keys apart, its values are their serialised bytes.
\<close>

section \<open>The keys manager and the state\<close>

datatype recipient = NodeRecipient | PhantomNodeRecipient

text \<open>Only the entropy source and the channel key ids change the keys manager: both draw from counters.\<close>

record ('k, 's) keys_ops =
  km_get_secure_random_bytes :: "'k \<Rightarrow> bytes \<times> 'k"
  km_get_expanded_key :: "'k \<Rightarrow> bytes"
  km_get_peer_storage_key :: "'k \<Rightarrow> bytes"
  km_get_receive_auth_key :: "'k \<Rightarrow> bytes"
  km_get_node_id :: "'k \<Rightarrow> recipient \<Rightarrow> unit + public_key"
  km_ecdh :: "'k \<Rightarrow> recipient \<Rightarrow> public_key \<Rightarrow> bytes option \<Rightarrow> unit + bytes"
  km_sign_invoice :: "'k \<Rightarrow> bytes \<Rightarrow> recipient \<Rightarrow> unit + bytes"
  km_sign_bolt12_invoice :: "'k \<Rightarrow> bytes \<Rightarrow> unit + bytes"
  km_sign_gossip_message :: "'k \<Rightarrow> bytes \<Rightarrow> unit + bytes"
  km_sign_message :: "'k \<Rightarrow> bytes \<Rightarrow> unit + string"
  km_generate_channel_keys_id :: "'k \<Rightarrow> bool \<Rightarrow> u128 \<Rightarrow> bytes \<times> 'k"
  km_derive_channel_signer :: "'k \<Rightarrow> bytes \<Rightarrow> 's"

record ('k, 'w) provider =
  ldk_keys_manager :: 'k
  locked_wallet :: "'w mutex"

section \<open>EntropySource and NodeSigner\<close>

definition get_secure_random_bytes :: "('k, 's) keys_ops \<Rightarrow> ('k, 'w) provider \<Rightarrow> bytes \<times> ('k, 'w) provider" where
  "get_secure_random_bytes K p =
     (case km_get_secure_random_bytes K (ldk_keys_manager p) of (bs, k) \<Rightarrow> (bs, p\<lparr>ldk_keys_manager := k\<rparr>))"

definition get_expanded_key :: "('k, 's) keys_ops \<Rightarrow> ('k, 'w) provider \<Rightarrow> bytes" where
  "get_expanded_key K p = km_get_expanded_key K (ldk_keys_manager p)"

definition get_peer_storage_key :: "('k, 's) keys_ops \<Rightarrow> ('k, 'w) provider \<Rightarrow> bytes" where
  "get_peer_storage_key K p = km_get_peer_storage_key K (ldk_keys_manager p)"

definition get_receive_auth_key :: "('k, 's) keys_ops \<Rightarrow> ('k, 'w) provider \<Rightarrow> bytes" where
  "get_receive_auth_key K p = km_get_receive_auth_key K (ldk_keys_manager p)"

definition get_node_id :: "('k, 's) keys_ops \<Rightarrow> ('k, 'w) provider \<Rightarrow> recipient \<Rightarrow> unit + public_key" where
  "get_node_id K p r = km_get_node_id K (ldk_keys_manager p) r"

definition ecdh :: "('k, 's) keys_ops \<Rightarrow> ('k, 'w) provider \<Rightarrow> recipient \<Rightarrow> public_key \<Rightarrow> bytes option \<Rightarrow>
    unit + bytes" where
  "ecdh K p r other_key tweak = km_ecdh K (ldk_keys_manager p) r other_key tweak"

definition sign_invoice :: "('k, 's) keys_ops \<Rightarrow> ('k, 'w) provider \<Rightarrow> bytes \<Rightarrow> recipient \<Rightarrow> unit + bytes" where
  "sign_invoice K p invoice r = km_sign_invoice K (ldk_keys_manager p) invoice r"

definition sign_bolt12_invoice :: "('k, 's) keys_ops \<Rightarrow> ('k, 'w) provider \<Rightarrow> bytes \<Rightarrow> unit + bytes" where
  "sign_bolt12_invoice K p invoice = km_sign_bolt12_invoice K (ldk_keys_manager p) invoice"

definition sign_gossip_message :: "('k, 's) keys_ops \<Rightarrow> ('k, 'w) provider \<Rightarrow> bytes \<Rightarrow> unit + bytes" where
  "sign_gossip_message K p msg = km_sign_gossip_message K (ldk_keys_manager p) msg"

definition sign_message :: "('k, 's) keys_ops \<Rightarrow> ('k, 'w) provider \<Rightarrow> bytes \<Rightarrow> unit + string" where
  "sign_message K p msg = km_sign_message K (ldk_keys_manager p) msg"

section \<open>SignerProvider\<close>

definition generate_channel_keys_id :: "('k, 's) keys_ops \<Rightarrow> ('k, 'w) provider \<Rightarrow> bool \<Rightarrow> u128 \<Rightarrow>
    bytes \<times> ('k, 'w) provider" where
  "generate_channel_keys_id K p inbound user_channel_id =
     (case km_generate_channel_keys_id K (ldk_keys_manager p) inbound user_channel_id of
        (i, k) \<Rightarrow> (i, p\<lparr>ldk_keys_manager := k\<rparr>))"

definition derive_channel_signer :: "('k, 's) keys_ops \<Rightarrow> ('k, 'w) provider \<Rightarrow> bytes \<Rightarrow> 's" where
  "derive_channel_signer K p channel_keys_id = km_derive_channel_signer K (ldk_keys_manager p) channel_keys_id"

section \<open>The calls LDK makes\<close>

text \<open>
  The methods that use the wallet hold its lock for as long as they work on the wallet; \<open>get_shutdown_scriptpubkey\<close>
  has released it when it unwraps. \<open>is_shutdown_script\<close> says which scripts LDK takes for a cooperative close. The
  result of a call is only whether it returned; what it returned is the definition it names.
\<close>

datatype 'p provider_call =
    SecureRandomBytes
  | ExpandedKey
  | StorageKey
  | ReceiveAuthKey
  | NodeId recipient
  | Ecdh recipient public_key "bytes option"
  | SignInvoice bytes recipient
  | SignBolt12Invoice bytes
  | SignGossipMessage bytes
  | SignMessage bytes
  | ChannelKeysId bool u128
  | ChannelSigner bytes
  | DestinationScript
  | ShutdownScriptpubkey
  | ConfirmedUtxos
  | ChangeScript
  | ChangeDestinationScript
  | SignPsbt 'p

definition locked_call :: "('w \<Rightarrow> 'a \<times> 'w) \<Rightarrow> ('k, 'w) provider \<Rightarrow> 'a outcome \<times> ('k, 'w) provider" where
  "locked_call f p =
     (case with_lock (\<lambda>w. case f w of (x, w') \<Rightarrow> (Return x, w')) (locked_wallet p) of
        (r, m) \<Rightarrow> (r, p\<lparr>locked_wallet := m\<rparr>))"

definition call_result :: "'a outcome \<times> ('k, 'w) provider \<Rightarrow> unit outcome \<times> ('k, 'w) provider" where
  "call_result x = (case x of (r, p) \<Rightarrow> (evaluate r, p))"

fun serve_call :: "('k, 's) keys_ops \<Rightarrow> ('w, 'p) bdk_ops \<Rightarrow> (script \<Rightarrow> bool) \<Rightarrow> ('k, 'w) provider \<Rightarrow>
    'p provider_call \<Rightarrow> unit outcome \<times> ('k, 'w) provider" where
  "serve_call K B is_shutdown_script p SecureRandomBytes =
     (case get_secure_random_bytes K p of (_, p') \<Rightarrow> (Return (), p'))"
| "serve_call K B is_shutdown_script p ExpandedKey = (evaluate (Return (get_expanded_key K p)), p)"
| "serve_call K B is_shutdown_script p StorageKey = (evaluate (Return (get_peer_storage_key K p)), p)"
| "serve_call K B is_shutdown_script p ReceiveAuthKey = (evaluate (Return (get_receive_auth_key K p)), p)"
| "serve_call K B is_shutdown_script p (NodeId r) = (evaluate (Return (get_node_id K p r)), p)"
| "serve_call K B is_shutdown_script p (Ecdh r other_key tweak) = (evaluate (Return (ecdh K p r other_key tweak)), p)"
| "serve_call K B is_shutdown_script p (SignInvoice invoice r) = (evaluate (Return (sign_invoice K p invoice r)), p)"
| "serve_call K B is_shutdown_script p (SignBolt12Invoice invoice) = (evaluate (Return (sign_bolt12_invoice K p invoice)), p)"
| "serve_call K B is_shutdown_script p (SignGossipMessage msg) = (evaluate (Return (sign_gossip_message K p msg)), p)"
| "serve_call K B is_shutdown_script p (SignMessage msg) = (evaluate (Return (sign_message K p msg)), p)"
| "serve_call K B is_shutdown_script p (ChannelKeysId inbound user_channel_id) =
     (case generate_channel_keys_id K p inbound user_channel_id of (_, p') \<Rightarrow> (Return (), p'))"
| "serve_call K B is_shutdown_script p (ChannelSigner i) = (evaluate (Return (derive_channel_signer K p i)), p)"
| "serve_call K B is_shutdown_script p DestinationScript = call_result (locked_call (get_destination_script B) p)"
| "serve_call K B is_shutdown_script p ShutdownScriptpubkey =
     (case locked_call (next_address B) p of
        (address, p') \<Rightarrow> call_result (bind_outcome address (shutdown_script is_shutdown_script), p'))"
| "serve_call K B is_shutdown_script p ConfirmedUtxos = call_result (locked_call (\<lambda>w. (list_confirmed_utxos B w, w)) p)"
| "serve_call K B is_shutdown_script p ChangeScript = call_result (locked_call (get_change_script B) p)"
| "serve_call K B is_shutdown_script p ChangeDestinationScript =
     call_result (locked_call (get_change_destination_script B) p)"
| "serve_call K B is_shutdown_script p (SignPsbt psbt) = call_result (locked_call (\<lambda>w. (sign_psbt B w psbt, w)) p)"

definition wallet_calls :: "('k, 's) keys_ops \<Rightarrow> ('w, 'p) bdk_ops \<Rightarrow> (script \<Rightarrow> bool) \<Rightarrow> 'p provider_call list \<Rightarrow>
    ('k, 'w) provider \<Rightarrow> ('k, 'w) provider" where
  "wallet_calls K B is_shutdown_script cs p = fold (\<lambda>c p. snd (serve_call K B is_shutdown_script p c)) cs p"

definition uses_wallet :: "'p provider_call \<Rightarrow> bool" where
  "uses_wallet c = (case c of DestinationScript \<Rightarrow> True | ShutdownScriptpubkey \<Rightarrow> True | ConfirmedUtxos \<Rightarrow> True
     | ChangeScript \<Rightarrow> True | ChangeDestinationScript \<Rightarrow> True | SignPsbt _ \<Rightarrow> True | _ \<Rightarrow> False)"

section \<open>The two halves\<close>

text \<open>
  Seen on its own, the keys manager makes a step at the calls that use no wallet, and the wallet under its lock at the
  others: none of these panics while the lock is held.
\<close>

definition keys_step :: "('k, 's) keys_ops \<Rightarrow> 'p provider_call \<Rightarrow> 'k \<Rightarrow> 'k" where
  "keys_step K c k = (case c of
      SecureRandomBytes \<Rightarrow> snd (km_get_secure_random_bytes K k)
    | ChannelKeysId inbound i \<Rightarrow> snd (km_generate_channel_keys_id K k inbound i)
    | _ \<Rightarrow> k)"

definition wallet_after :: "('w, 'p) bdk_ops \<Rightarrow> 'p provider_call \<Rightarrow> 'w \<Rightarrow> 'w" where
  "wallet_after B c w = (case c of
      DestinationScript \<Rightarrow> snd (next_unused_address B w ExternalKeychain)
    | ShutdownScriptpubkey \<Rightarrow> snd (next_unused_address B w ExternalKeychain)
    | ChangeScript \<Rightarrow> snd (next_unused_address B w InternalKeychain)
    | ChangeDestinationScript \<Rightarrow> snd (next_unused_address B w InternalKeychain)
    | _ \<Rightarrow> w)"

definition lock_after :: "('w, 'p) bdk_ops \<Rightarrow> 'p provider_call \<Rightarrow> 'w mutex \<Rightarrow> 'w mutex" where
  "lock_after B c m = (if poisoned m then m else unlocked (wallet_after B c (guarded m)))"

lemma evaluate_panics [simp]: "panics (evaluate r) = panics r"
  by (cases r) simp_all

lemma locked_call_eq:
  "locked_call f p =
     (if poisoned (locked_wallet p) then (Panic poison_error, p)
      else (Return (fst (f (guarded (locked_wallet p)))),
            p\<lparr>locked_wallet := unlocked (snd (f (guarded (locked_wallet p))))\<rparr>))"
  by (simp add: locked_call_def with_lock_def unlocked_def split_pair_eq split: prod.split)

lemmas script_defs = next_address_def get_destination_script_def get_change_script_def get_change_destination_script_def

lemmas call_defs = locked_call_eq call_result_def script_defs get_secure_random_bytes_def generate_channel_keys_id_def

lemma serve_call_keys:
  "ldk_keys_manager (snd (serve_call K B ok p c)) = keys_step K c (ldk_keys_manager p)"
  by (cases c) (simp_all add: keys_step_def call_defs split_pair_eq)

lemma serve_call_wallet:
  "locked_wallet (snd (serve_call K B ok p c)) =
     (if uses_wallet c then lock_after B c (locked_wallet p) else locked_wallet p)"
  by (cases c) (simp_all add: uses_wallet_def wallet_after_def lock_after_def call_defs split_pair_eq)

lemma serve_call_panics:
  "panics (fst (serve_call K B ok p c)) \<longleftrightarrow>
     (if poisoned (locked_wallet p) then uses_wallet c
      else c = ShutdownScriptpubkey \<and> \<not> ok (fst (next_unused_address B (guarded (locked_wallet p)) ExternalKeychain)))"
  by (cases c) (simp_all add: uses_wallet_def call_defs shutdown_script_def split_pair_eq)

lemma lock_after_poisoned [simp]: "poisoned (lock_after B c m) = poisoned m"
  by (simp add: lock_after_def unlocked_def)

lemma wallet_calls_Nil [simp]: "wallet_calls K B ok [] p = p"
  by (simp add: wallet_calls_def)

lemma wallet_calls_Cons [simp]:
  "wallet_calls K B ok (c # cs) p = wallet_calls K B ok cs (snd (serve_call K B ok p c))"
  by (simp add: wallet_calls_def)

lemma keys_step_wallet: "uses_wallet c \<Longrightarrow> keys_step K c k = k"
  by (cases c) (simp_all add: uses_wallet_def keys_step_def)

lemma wallet_calls_halves:
  "ldk_keys_manager (wallet_calls K B ok cs p) =
     fold (keys_step K) (filter (\<lambda>c. \<not> uses_wallet c) cs) (ldk_keys_manager p)"
  "locked_wallet (wallet_calls K B ok cs p) = fold (lock_after B) (filter uses_wallet cs) (locked_wallet p)"
  by (induction cs arbitrary: p) (simp_all add: serve_call_keys serve_call_wallet keys_step_wallet)

lemma fold_lock_after_poisoned: "poisoned (fold (lock_after B) cs m) = poisoned m"
  by (induction cs arbitrary: m) simp_all

lemma fold_lock_after_dead: "poisoned m \<Longrightarrow> fold (lock_after B) cs m = m"
  by (induction cs arbitrary: m) (simp_all add: lock_after_def)

section \<open>A concrete provider for the witnesses\<close>

definition counting_keys :: "(nat, bytes) keys_ops" where
  "counting_keys =
     \<lparr>km_get_secure_random_bytes = (\<lambda>k. ([of_nat k], Suc k)), km_get_expanded_key = (\<lambda>k. [1]),
      km_get_peer_storage_key = (\<lambda>k. [2]), km_get_receive_auth_key = (\<lambda>k. [3]),
      km_get_node_id = (\<lambda>k r. case r of NodeRecipient \<Rightarrow> Inr (PublicKey [2]) | PhantomNodeRecipient \<Rightarrow> Inl ()),
      km_ecdh = (\<lambda>k r q t. Inr [4]), km_sign_invoice = (\<lambda>k i r. Inr i), km_sign_bolt12_invoice = (\<lambda>k i. Inr i),
      km_sign_gossip_message = (\<lambda>k m. Inr m), km_sign_message = (\<lambda>k m. Inr ''signed''),
      km_generate_channel_keys_id = (\<lambda>k i u. ([of_nat k], Suc k)), km_derive_channel_signer = (\<lambda>k i. i)\<rparr>"

definition sample_provider :: "(nat, u64) provider" where
  "sample_provider = \<lparr>ldk_keys_manager = 0, locked_wallet = \<lparr>guarded = 1000, poisoned = True\<rparr>\<rparr>"

section \<open>Properties\<close>

text \<open>
  C29: signing outlives the wallet: over any calls of LDK the keys manager makes exactly the steps of the calls
  that use no wallet, whatever happened to the wallet; no call ever poisons the wallet's lock, and a lock that the chain
  listener or the event handler has poisoned stays as it is; afterwards, with a poisoned lock exactly the calls that use
  the wallet panic, and with a usable one only a shutdown script does that LDK does not take.
\<close>

theorem signing_outlives_wallet:
  "ldk_keys_manager (wallet_calls K B ok cs p) =
     fold (keys_step K) (filter (\<lambda>c. \<not> uses_wallet c) cs) (ldk_keys_manager p) \<and>
   poisoned (locked_wallet (wallet_calls K B ok cs p)) = poisoned (locked_wallet p) \<and>
   (poisoned (locked_wallet p) \<longrightarrow> locked_wallet (wallet_calls K B ok cs p) = locked_wallet p) \<and>
   (panics (fst (serve_call K B ok (wallet_calls K B ok cs p) c)) \<longleftrightarrow>
      (if poisoned (locked_wallet p) then uses_wallet c
       else c = ShutdownScriptpubkey \<and>
         \<not> ok (fst (next_unused_address B (guarded (locked_wallet (wallet_calls K B ok cs p))) ExternalKeychain))))"
  by (simp add: wallet_calls_halves fold_lock_after_poisoned fold_lock_after_dead serve_call_panics)

theorem signing_outlives_wallet_witness:
  "poisoned (locked_wallet sample_provider) \<and>
   ldk_keys_manager (wallet_calls counting_keys ref_bdk (\<lambda>s. True) [SecureRandomBytes, ChangeScript, ChannelKeysId True 5]
     sample_provider) = 2 \<and>
   panics (fst (serve_call counting_keys ref_bdk (\<lambda>s. True)
     (wallet_calls counting_keys ref_bdk (\<lambda>s. True) [SecureRandomBytes, ChangeScript, ChannelKeysId True 5] sample_provider)
     ShutdownScriptpubkey)) \<and>
   \<not> panics (fst (serve_call counting_keys ref_bdk (\<lambda>s. True)
     (wallet_calls counting_keys ref_bdk (\<lambda>s. True) [SecureRandomBytes, ChangeScript, ChannelKeysId True 5] sample_provider)
     (SignMessage [1])))"
proof -
  let ?cs = "[SecureRandomBytes, ChangeScript, ChannelKeysId True 5] :: (script \<times> u64) list provider_call list"
  have poisoned: "poisoned (locked_wallet sample_provider)" by (simp add: sample_provider_def)
  have keys: "fold (keys_step counting_keys) (filter (\<lambda>c. \<not> uses_wallet c) ?cs) (ldk_keys_manager sample_provider) = 2"
    by code_simp
  have wallet: "uses_wallet (ShutdownScriptpubkey :: (script \<times> u64) list provider_call)"
    "\<not> uses_wallet (SignMessage [1] :: (script \<times> u64) list provider_call)"
    by (simp_all add: uses_wallet_def)
  note calls = signing_outlives_wallet [of counting_keys ref_bdk "\<lambda>s. True" ?cs sample_provider]
  from calls [of ShutdownScriptpubkey] calls [of "SignMessage [1]"] poisoned keys wallet show ?thesis by simp
qed

end
