(* ===== verification/ChainListener.thy ===== *)
theory ChainListener
  imports OnchainWallet
begin

text \<open>
  The chain listener of \<open>src/bitcoind_client.rs\<close> and the task of \<open>Node::start\<close>
  (\<open>src/node.rs\<close>) that drives it: the wallet is first brought to the tip, then every poll of the
  chain source delivers blocks to the channel manager, the chain monitor and the wallet, in this order.
  The wallet sits behind a lock, so a panic while it is held poisons it.
\<close>

section \<open>The listener\<close>

type_synonym best_block = "bytes \<times> u32"
type_synonym txdata = "(nat \<times> transaction) list"

record ('cm, 'mon) listen_ops =
  cm_block_connected :: "'cm \<Rightarrow> bytes \<Rightarrow> txdata \<Rightarrow> u32 \<Rightarrow> 'cm"
  cm_blocks_disconnected :: "'cm \<Rightarrow> best_block \<Rightarrow> 'cm"
  mon_block_connected :: "'mon \<Rightarrow> bytes \<Rightarrow> txdata \<Rightarrow> u32 \<Rightarrow> 'mon"
  mon_blocks_disconnected :: "'mon \<Rightarrow> best_block \<Rightarrow> 'mon"

record ('cm, 'mon, 'w) chain_listener =
  l_channel_manager :: 'cm
  l_chain_monitor :: 'mon
  l_wallet :: "'w mutex"

text \<open>\<open>lock().unwrap().apply_block(..).unwrap()\<close>: the guard lives until the second \<open>unwrap\<close>.\<close>

definition wallet_apply_block :: "('w, 'p) bdk_ops \<Rightarrow> bytes \<times> transaction list \<Rightarrow> u32 \<Rightarrow> 'w mutex \<Rightarrow>
    unit outcome \<times> 'w mutex" where
  "wallet_apply_block B block height =
     with_lock (\<lambda>w. case apply_block B w block height of (r, w') \<Rightarrow> (unwrap_result r, w'))"

definition filtered_block_connected :: "('cm, 'mon) listen_ops \<Rightarrow> ('w, 'p) bdk_ops \<Rightarrow>
    ('cm, 'mon, 'w) chain_listener \<Rightarrow> bytes \<Rightarrow> txdata \<Rightarrow> u32 \<Rightarrow> unit outcome \<times> ('cm, 'mon, 'w) chain_listener" where
  "filtered_block_connected L B s header txdata height =
     (let s1 = s\<lparr>l_channel_manager := cm_block_connected L (l_channel_manager s) header txdata height\<rparr>;
          s2 = s1\<lparr>l_chain_monitor := mon_block_connected L (l_chain_monitor s1) header txdata height\<rparr>;
          block = (header, map snd txdata)
      in case wallet_apply_block B block height (l_wallet s2) of
           (r, lock) \<Rightarrow> (r, s2\<lparr>l_wallet := lock\<rparr>))"

definition blocks_disconnected :: "('cm, 'mon) listen_ops \<Rightarrow> ('cm, 'mon, 'w) chain_listener \<Rightarrow> best_block \<Rightarrow>
    ('cm, 'mon, 'w) chain_listener" where
  "blocks_disconnected L s fork_point =
     s\<lparr>l_channel_manager := cm_blocks_disconnected L (l_channel_manager s) fork_point,
       l_chain_monitor := mon_blocks_disconnected L (l_chain_monitor s) fork_point\<rparr>"

section \<open>The task that follows the chain\<close>

datatype notification =
    Connected bytes txdata u32
  | Disconnected best_block

fun notify :: "('cm, 'mon) listen_ops \<Rightarrow> ('w, 'p) bdk_ops \<Rightarrow> ('cm, 'mon, 'w) chain_listener \<Rightarrow> notification \<Rightarrow>
    unit outcome \<times> ('cm, 'mon, 'w) chain_listener" where
  "notify L B s (Connected header txdata height) = filtered_block_connected L B s header txdata height"
| "notify L B s (Disconnected fork_point) = (Return (), blocks_disconnected L s fork_point)"

fun notify_all :: "('cm, 'mon) listen_ops \<Rightarrow> ('w, 'p) bdk_ops \<Rightarrow> ('cm, 'mon, 'w) chain_listener \<Rightarrow>
    notification list \<Rightarrow> unit outcome \<times> ('cm, 'mon, 'w) chain_listener" where
  "notify_all L B s [] = (Return (), s)"
| "notify_all L B s (n # ns) =
     (case notify L B s n of
        (Return _, s') \<Rightarrow> notify_all L B s' ns
      | (Panic m, s') \<Rightarrow> (Panic m, s'))"

text \<open>
  \<open>sync_wallet\<close> is the loop over the emitter: what \<open>next_block\<close> returns is a list, an error or a
  block with its height and the block it connects to. The whole loop holds the wallet's lock.
\<close>

type_synonym emitted_block = "(bytes \<times> transaction list) \<times> u32 \<times> best_block"

fun sync_wallet :: "('w, 'p) bdk_ops \<Rightarrow> 'w \<Rightarrow> (string + emitted_block) list \<Rightarrow>
    unit outcome \<times> 'w" where
  "sync_wallet B w [] = (Return (), w)"
| "sync_wallet B w (next_block # rest) =
     (case unwrap_result next_block of
        Panic m \<Rightarrow> (Panic m, w)
      | Return b \<Rightarrow>
          (case apply_block_connected_to B w b of
             (Inl e, w') \<Rightarrow> (unwrap_result (Inl e), w')
           | (Inr _, w') \<Rightarrow> sync_wallet B w' rest))"

text \<open>The address and the credentials of the wallet's own RPC client are literals of the source.\<close>

definition wallet_rpc :: "string \<times> string \<times> string" where
  "wallet_rpc = (''127.0.0.1:18446'', ''polaruser'', ''polarpass'')"

fun follow_chain :: "('cm, 'mon) listen_ops \<Rightarrow> ('w, 'p) bdk_ops \<Rightarrow> ('cm, 'mon, 'w) chain_listener \<Rightarrow>
    (string + notification list) list \<Rightarrow> unit outcome \<times> ('cm, 'mon, 'w) chain_listener" where
  "follow_chain L B s [] = (Return (), s)"
| "follow_chain L B s (Inl e # polls) = (unwrap_result (Inl e), s)"
| "follow_chain L B s (Inr ns # polls) =
     (case notify_all L B s ns of
        (Return _, s') \<Rightarrow> follow_chain L B s' polls
      | (Panic m, s') \<Rightarrow> (Panic m, s'))"

definition initial_sync :: "('w, 'p) bdk_ops \<Rightarrow>
    (string \<times> string \<times> string \<Rightarrow> 'w \<Rightarrow> string + (string + emitted_block) list) \<Rightarrow> 'w mutex \<Rightarrow> unit outcome \<times> 'w mutex" where
  "initial_sync B emit =
     with_lock (\<lambda>w. case unwrap_result (emit wallet_rpc w) of
                      Panic m \<Rightarrow> (Panic m, w)
                    | Return blocks \<Rightarrow> sync_wallet B w blocks)"

text \<open>
  The task: \<open>emit\<close> makes the RPC client and says what its emitter would return from the wallet's
  tip on; then the chain source is polled, each poll an error or the notifications it delivers.
\<close>

definition chain_task :: "('cm, 'mon) listen_ops \<Rightarrow> ('w, 'p) bdk_ops \<Rightarrow>
    (string \<times> string \<times> string \<Rightarrow> 'w \<Rightarrow> string + (string + emitted_block) list) \<Rightarrow>
    (string + notification list) list \<Rightarrow> ('cm, 'mon, 'w) chain_listener \<Rightarrow>
    unit outcome \<times> ('cm, 'mon, 'w) chain_listener" where
  "chain_task L B emit polls s =
     (case initial_sync B emit (l_wallet s) of
        (Panic m, lock) \<Rightarrow> (Panic m, s\<lparr>l_wallet := lock\<rparr>)
      | (Return _, lock) \<Rightarrow> follow_chain L B (s\<lparr>l_wallet := lock\<rparr>) polls)"

section \<open>What each listener is told\<close>

text \<open>
  The tip a listener should have after a notification. \<open>hash\<close> is the header hash of the
  \<open>bitcoin\<close> crate. \<open>tracks\<close> is what LDK documents of its listeners.
\<close>

fun tip_after :: "(bytes \<Rightarrow> bytes) \<Rightarrow> notification \<Rightarrow> best_block \<Rightarrow> best_block" where
  "tip_after hash (Connected header txdata height) t = (hash header, height)"
| "tip_after hash (Disconnected fork_point) t = fork_point"

definition tracks :: "(bytes \<Rightarrow> bytes) \<Rightarrow> ('cm \<Rightarrow> best_block) \<Rightarrow> ('mon \<Rightarrow> best_block) \<Rightarrow> ('cm, 'mon) listen_ops \<Rightarrow> bool" where
  "tracks hash cm_tip mon_tip L \<longleftrightarrow>
     (\<forall>c h t n. cm_tip (cm_block_connected L c h t n) = (hash h, n)) \<and>
     (\<forall>c b. cm_tip (cm_blocks_disconnected L c b) = b) \<and>
     (\<forall>m h t n. mon_tip (mon_block_connected L m h t n) = (hash h, n)) \<and>
     (\<forall>m b. mon_tip (mon_blocks_disconnected L m b) = b)"

lemma tracksD:
  assumes "tracks hash cm_tip mon_tip L"
  shows "cm_tip (cm_block_connected L c h t n) = (hash h, n)"
    and "cm_tip (cm_blocks_disconnected L c b) = b"
    and "mon_tip (mon_block_connected L m h t n) = (hash h, n)"
    and "mon_tip (mon_blocks_disconnected L m b) = b"
  using assms unfolding tracks_def by blast+

text \<open>What one notification does to a channel manager and to a chain monitor.\<close>

fun manager_notify :: "('cm, 'mon) listen_ops \<Rightarrow> notification \<Rightarrow> 'cm \<Rightarrow> 'cm" where
  "manager_notify L (Connected header txdata height) c = cm_block_connected L c header txdata height"
| "manager_notify L (Disconnected fork_point) c = cm_blocks_disconnected L c fork_point"

fun monitor_notify :: "('cm, 'mon) listen_ops \<Rightarrow> notification \<Rightarrow> 'mon \<Rightarrow> 'mon" where
  "monitor_notify L (Connected header txdata height) m = mon_block_connected L m header txdata height"
| "monitor_notify L (Disconnected fork_point) m = mon_blocks_disconnected L m fork_point"

lemma filtered_block_connected_eq:
  "filtered_block_connected L B s h t n =
     (fst (wallet_apply_block B (h, map snd t) n (l_wallet s)),
      \<lparr>l_channel_manager = cm_block_connected L (l_channel_manager s) h t n,
       l_chain_monitor = mon_block_connected L (l_chain_monitor s) h t n,
       l_wallet = snd (wallet_apply_block B (h, map snd t) n (l_wallet s))\<rparr>)"
  by (simp add: filtered_block_connected_def Let_def split_pair_eq)

lemma blocks_disconnected_sel [simp]:
  "l_channel_manager (blocks_disconnected L s b) = cm_blocks_disconnected L (l_channel_manager s) b"
  "l_chain_monitor (blocks_disconnected L s b) = mon_blocks_disconnected L (l_chain_monitor s) b"
  "l_wallet (blocks_disconnected L s b) = l_wallet s"
  by (simp_all add: blocks_disconnected_def)

lemma notify_tips:
  assumes "tracks hash cm_tip mon_tip L"
  shows "cm_tip (l_channel_manager (snd (notify L B s n))) = tip_after hash n t"
    and "mon_tip (l_chain_monitor (snd (notify L B s n))) = tip_after hash n t"
  by (cases n; simp add: filtered_block_connected_eq tracksD [OF assms])+

lemma notify_all_tips:
  assumes "tracks hash cm_tip mon_tip L"
  shows "notify_all L B s ns = (res, s') \<Longrightarrow> cm_tip (l_channel_manager s) = mon_tip (l_chain_monitor s) \<Longrightarrow>
    cm_tip (l_channel_manager s') = mon_tip (l_chain_monitor s') \<and>
    (res = Return () \<longrightarrow> cm_tip (l_channel_manager s') = fold (tip_after hash) ns (cm_tip (l_channel_manager s)))"
proof (induction ns arbitrary: s)
  case (Cons n ns)
  obtain r s1 where s1: "notify L B s n = (r, s1)" by (cases "notify L B s n")
  note tips = notify_tips [OF assms, of B s n "cm_tip (l_channel_manager s)", unfolded s1 snd_conv]
  show ?case
  proof (cases r)
    case (Return u)
    with Cons.prems(1) s1 have "notify_all L B s1 ns = (res, s')" by simp
    from Cons.IH [OF this] tips show ?thesis by auto
  next
    case (Panic m)
    with Cons.prems(1) s1 tips show ?thesis by auto
  qed
qed simp

lemma follow_chain_tips:
  assumes "tracks hash cm_tip mon_tip L"
  shows "cm_tip (l_channel_manager s) = mon_tip (l_chain_monitor s) \<Longrightarrow>
    cm_tip (l_channel_manager (snd (follow_chain L B s polls))) =
      mon_tip (l_chain_monitor (snd (follow_chain L B s polls)))"
proof (induction polls arbitrary: s)
  case (Cons p polls)
  show ?case
  proof (cases p)
    case (Inr ns)
    obtain r s1 where s1: "notify_all L B s ns = (r, s1)" by (cases "notify_all L B s ns")
    with notify_all_tips [OF assms s1 Cons.prems] Cons.IH [of s1] Inr show ?thesis
      by (cases r) simp_all
  qed (use Cons.prems in simp)
qed simp

lemma chain_task_cases:
  obtains (stopped) m lock where "chain_task L B emit polls s = (Panic m, s\<lparr>l_wallet := lock\<rparr>)"
  | (synced) lock where "chain_task L B emit polls s = follow_chain L B (s\<lparr>l_wallet := lock\<rparr>) polls"
  unfolding chain_task_def
  by (cases "initial_sync B emit (l_wallet s)"; cases "fst (initial_sync B emit (l_wallet s))") auto

text \<open>The blocks of a list of notifications, as the wallet is given them.\<close>

fun connected_block :: "notification \<Rightarrow> ((bytes \<times> transaction list) \<times> u32) option" where
  "connected_block (Connected h t n) = Some ((h, map snd t), n)"
| "connected_block (Disconnected b) = None"

fun apply_blocks :: "('w, 'p) bdk_ops \<Rightarrow> ((bytes \<times> transaction list) \<times> u32) list \<Rightarrow> 'w mutex \<Rightarrow>
    unit outcome \<times> 'w mutex" where
  "apply_blocks B [] lock = (Return (), lock)"
| "apply_blocks B (b # bs) lock =
     (case wallet_apply_block B (fst b) (snd b) lock of
        (Return _, lock') \<Rightarrow> apply_blocks B bs lock'
      | (Panic m, lock') \<Rightarrow> (Panic m, lock'))"

lemma notify_all_wallet:
  "(fst (notify_all L B s ns), l_wallet (snd (notify_all L B s ns))) =
     apply_blocks B (List.map_filter connected_block ns) (l_wallet s)"
proof (induction ns arbitrary: s)
  case (Cons n ns)
  show ?case
  proof (cases n)
    case (Connected h t k)
    with Cons.IH show ?thesis
      by (simp add: map_filter_simps filtered_block_connected_eq split: prod.split outcome.split)
  next
    case (Disconnected b)
    with Cons.IH show ?thesis
      by (simp add: map_filter_simps)
  qed
qed (simp add: map_filter_simps)

lemma notify_all_poisoned:
  assumes "poisoned (l_wallet s)" and "n \<in> set ns" and "connected_block n \<noteq> None"
  shows "panics (fst (notify_all L B s ns))"
proof -
  have "panics (fst (apply_blocks B bs lock)) \<and> snd (apply_blocks B bs lock) = lock"
    if "poisoned lock" "bs \<noteq> []" for bs lock
    using that by (cases bs) (simp_all add: wallet_apply_block_def with_lock_def)
  moreover have "List.map_filter connected_block ns \<noteq> []"
    using assms(2,3) by (auto simp: map_filter_def filter_empty_conv)
  moreover note assms(1) notify_all_wallet [of L B s ns]
  ultimately show ?thesis by (metis fst_conv)
qed

text \<open>Every notification of a successful batch reaches both, and nothing else does.\<close>

lemma notify_listeners:
  "l_channel_manager (snd (notify L B s n)) = manager_notify L n (l_channel_manager s)"
  "l_chain_monitor (snd (notify L B s n)) = monitor_notify L n (l_chain_monitor s)"
  by (cases n; simp add: filtered_block_connected_eq)+

lemma notify_all_listeners:
  assumes "notify_all L B s ns = (Return (), s')"
  shows "l_channel_manager s' = fold (manager_notify L) ns (l_channel_manager s)"
    and "l_chain_monitor s' = fold (monitor_notify L) ns (l_chain_monitor s)"
  using assms
  by (induction ns arbitrary: s) (auto simp: notify_listeners split: prod.splits outcome.splits,
      (metis notify_listeners snd_conv)+)

lemma follow_chain_listeners:
  assumes "follow_chain L B s (map Inr nss) = (Return (), s')"
  shows "l_channel_manager s' = fold (manager_notify L) (concat nss) (l_channel_manager s) \<and>
    l_chain_monitor s' = fold (monitor_notify L) (concat nss) (l_chain_monitor s)"
  using assms
proof (induction nss arbitrary: s)
  case (Cons ns nss)
  obtain r s1 where s1: "notify_all L B s ns = (r, s1)" by (cases "notify_all L B s ns")
  with Cons.prems have r: "r = Return ()" "follow_chain L B s1 (map Inr nss) = (Return (), s')"
    by (auto split: outcome.splits)
  from Cons.IH [OF r(2)] notify_all_listeners [OF s1 [unfolded r(1)]] show ?case by simp
qed simp

section \<open>Concrete listeners for the witnesses\<close>

text \<open>A listener that only keeps its tip, and a wallet that keeps the heights it was given and refuses
  height 0.\<close>

definition tip_listeners :: "(best_block, best_block) listen_ops" where
  "tip_listeners =
     \<lparr>cm_block_connected = (\<lambda>c h t n. (h, n)), cm_blocks_disconnected = (\<lambda>c b. b),
      mon_block_connected = (\<lambda>m h t n. (h, n)), mon_blocks_disconnected = (\<lambda>m b. b)\<rparr>"

definition height_bdk :: "(u32 list, unit) bdk_ops" where
  "height_bdk =
     \<lparr>wallet_balance = (\<lambda>w. \<lparr>confirmed = 0, trusted_pending = 0, untrusted_pending = 0\<rparr>),
      build_tx = (\<lambda>w rs f. (Inl ''no funds'', w)), sign = (\<lambda>w p t. Inl ''no keys''),
      extract_tx = (\<lambda>p. Inl ''no transaction''),
      next_unused_address = (\<lambda>w k. ([0], w)), list_unspent = (\<lambda>w. []),
      apply_block = (\<lambda>w b h. if h = 0 then (Inl ''cannot connect'', w) else (Inr (), w @ [h])),
      apply_block_connected_to = (\<lambda>w b. (Inr (), w @ [fst (snd b)]))\<rparr>"

definition sample_listener :: "(best_block, best_block, u32 list) chain_listener" where
  "sample_listener = \<lparr>l_channel_manager = ([], 0), l_chain_monitor = ([], 0), l_wallet = unlocked []\<rparr>"

lemma tip_listeners_track: "tracks (\<lambda>h. h) (\<lambda>c. c) (\<lambda>m. m) tip_listeners"
  by (simp add: tracks_def tip_listeners_def)

lemmas chain_samples = tip_listeners_def height_bdk_def sample_listener_def

section \<open>Properties\<close>

text \<open>
  C34: the channel manager and the chain monitor never disagree on the tip because of the listener:
  if they start at the same block, they end at the same block whatever the wallet, the emitter and the polls
  do, also when the task panics half-way.
\<close>

theorem listeners_in_step:
  assumes "tracks hash cm_tip mon_tip L"
    and "cm_tip (l_channel_manager s) = mon_tip (l_chain_monitor s)"
  shows "cm_tip (l_channel_manager (snd (chain_task L B emit polls s))) =
    mon_tip (l_chain_monitor (snd (chain_task L B emit polls s)))"
proof (cases rule: chain_task_cases [of L B emit polls s])
  case (stopped m lock)
  with assms(2) show ?thesis by simp
next
  case (synced lock)
  with follow_chain_tips [OF assms(1), of "s\<lparr>l_wallet := lock\<rparr>" B polls] assms(2) show ?thesis by simp
qed

theorem listeners_in_step_witness:
  "l_channel_manager (snd (chain_task tip_listeners height_bdk (\<lambda>rpc w. Inr [])
       [Inr [Connected [1] [] 1, Connected [2] [] 2, Disconnected ([1], 1), Connected [3] [] 0], Inr [Connected [4] [] 3]]
       sample_listener)) = ([3], 0) \<and>
   l_chain_monitor (snd (chain_task tip_listeners height_bdk (\<lambda>rpc w. Inr [])
       [Inr [Connected [1] [] 1, Connected [2] [] 2, Disconnected ([1], 1), Connected [3] [] 0], Inr [Connected [4] [] 3]]
       sample_listener)) = ([3], 0)"
proof -
  let ?polls = "[Inr [Connected [1] [] 1, Connected [2] [] 2, Disconnected ([1], 1), Connected [3] [] 0],
    Inr [Connected [4] [] 3]]"
  have "l_channel_manager (snd (chain_task tip_listeners height_bdk (\<lambda>rpc w. Inr []) ?polls
      sample_listener)) = ([3], 0)"
    by code_simp
  moreover have "l_channel_manager sample_listener = l_chain_monitor sample_listener"
    by (simp add: sample_listener_def)
  ultimately show ?thesis using listeners_in_step [OF tip_listeners_track] by metis
qed

text \<open>
  The wallet follows connections only: after any batch of notifications its lock is what applying
  the connected blocks alone, in order, makes of it; a reorganisation does not roll it back.
\<close>

theorem wallet_never_rolled_back:
  assumes "notify_all L B s ns = (Return (), s')"
  shows "apply_blocks B (List.map_filter connected_block ns) (l_wallet s) = (Return (), l_wallet s') \<and>
    l_wallet (snd (notify_all L B s' (map Disconnected forks))) = l_wallet s'"
proof
  show "apply_blocks B (List.map_filter connected_block ns) (l_wallet s) = (Return (), l_wallet s')"
    using notify_all_wallet [of L B s ns] assms by simp
  have "List.map_filter connected_block (map Disconnected forks) = []"
    by (induction forks) (simp_all add: map_filter_simps)
  with notify_all_wallet [of L B s' "map Disconnected forks"]
  show "l_wallet (snd (notify_all L B s' (map Disconnected forks))) = l_wallet s'" by simp
qed

theorem wallet_never_rolled_back_witness:
  "\<exists>s'. notify_all tip_listeners height_bdk sample_listener
       [Connected [1] [] 1, Connected [2] [] 2, Disconnected ([1], 1)] = (Return (), s') \<and>
     l_channel_manager s' = ([1], 1) \<and> l_wallet s' = unlocked [1, 2]"
proof -
  let ?ns = "[Connected [1] [] 1, Connected [2] [] 2, Disconnected ([1], 1)]"
  have r: "fst (notify_all tip_listeners height_bdk sample_listener ?ns) = Return ()" by code_simp
  then obtain s' where run: "notify_all tip_listeners height_bdk sample_listener ?ns = (Return (), s')"
    by (metis prod.collapse)
  have "l_channel_manager (snd (notify_all tip_listeners height_bdk sample_listener ?ns)) = ([1], 1)"
    by code_simp
  moreover have "snd (apply_blocks height_bdk (List.map_filter connected_block ?ns) (l_wallet sample_listener)) = unlocked [1, 2]"
    by code_simp
  ultimately show ?thesis using wallet_never_rolled_back [OF run] run by simp
qed

text \<open>
  One block that the wallet refuses is final: the listener panics with the lock held, the channel
  manager and the monitor have already taken the block, and from then on every use of the wallet's lock
  panics, whatever it would have done, with the wallet as the failed call left it.
\<close>

theorem refused_block_poisons_wallet:
  assumes "apply_block B (guarded (l_wallet s)) (h, map snd t) n = (Inl e, w)" and "\<not> poisoned (l_wallet s)"
  shows "\<exists>s'. (\<exists>m. notify L B s (Connected h t n) = (Panic m, s')) \<and>
    l_channel_manager s' = cm_block_connected L (l_channel_manager s) h t n \<and>
    panics (fst (with_lock f (l_wallet s'))) \<and> guarded (snd (with_lock f (l_wallet s'))) = w"
  using assms by (simp add: filtered_block_connected_eq wallet_apply_block_def with_lock_def)

theorem refused_block_poisons_wallet_witness:
  "\<exists>s'. (\<exists>m. notify tip_listeners height_bdk sample_listener (Connected [3] [] 0) = (Panic m, s')) \<and>
     panics (fst (with_lock (\<lambda>w. (Return w, w)) (l_wallet s')))"
proof -
  have "apply_block height_bdk (guarded (l_wallet sample_listener)) ([3], map snd []) 0 = (Inl ''cannot connect'', [])"
    "\<not> poisoned (l_wallet sample_listener)"
    by (simp_all add: height_bdk_def sample_listener_def)
  from refused_block_poisons_wallet [OF this, of tip_listeners "\<lambda>w. (Return w, w)"] show ?thesis by blast
qed

text \<open>
  One failed poll ends the following of the chain: whatever the later polls would have
  delivered, no listener hears of it, and the task ends in a panic.
\<close>

theorem failed_poll_ends_following:
  "follow_chain L B s (polls @ Inl e # later) = follow_chain L B s (polls @ [Inl e]) \<and>
   panics (fst (follow_chain L B s (polls @ Inl e # later)))"
proof (induction polls arbitrary: s)
  case (Cons p polls)
  show ?case
  proof (cases p)
    case (Inr ns)
    obtain r s1 where "notify_all L B s ns = (r, s1)" by (cases "notify_all L B s ns")
    with Inr Cons.IH [of s1] show ?thesis by (cases r) auto
  qed simp
qed simp

end
