(* ===== verification/Server.thy ===== *)
theory Server
  imports NodeOperations
begin

text \<open>
  \<open>src/server.rs\<close>: the Unix socket server. One connection carries one request, read into a buffer
  of 4096 bytes; the request is a JSON object whose \<open>method\<close> selects an operation of the node. Every
  malformed request is a panic of the server's task.
\<close>

section \<open>Environment\<close>

text \<open>
  The parsers and printers of the libraries: JSON text, public keys, invoices and socket addresses,
  the JSON forms of amounts, keys and outpoints, and what an outgoing connection does.
\<close>

record ('kv, 'cm, 'w, 'p, 'pm) server_env =
  se_node :: "('kv, 'cm, 'w, 'p, 'pm) node_env"
  se_parse_json :: "bytes \<Rightarrow> string + json"
  se_json_text :: "json \<Rightarrow> bytes"
  se_parse_pubkey :: "string \<Rightarrow> public_key option"
  se_parse_invoice :: "string \<Rightarrow> bolt11_invoice option"
  se_parse_socket_addr :: "string \<Rightarrow> ip_socket option"
  se_show_address :: "script \<Rightarrow> string"
  se_pubkey_json :: "public_key \<Rightarrow> json"
  se_outpoint_json :: "bytes \<times> u16 \<Rightarrow> json"
  se_amount_json :: "u64 \<Rightarrow> json"
  se_btc_json :: "u64 \<Rightarrow> json"
  se_dial :: "'pm \<Rightarrow> public_key \<Rightarrow> ip_socket \<Rightarrow> connect_step list option"

fun error_text :: "node_error \<Rightarrow> string" where
  "error_text (Message m) = m"
| "error_text (StoreError e) = message e"

definition json_u32 :: "u32 \<Rightarrow> json" where
  "json_u32 n = json_u64 (ucast n)"

definition serialize_channel_id :: "('kv, 'cm, 'w, 'p, 'pm) server_env \<Rightarrow> channel_id \<Rightarrow> json" where
  "serialize_channel_id E channel_id = JString (hex_encode (the_codec (ne_store (se_node E))) (channel_id_bytes channel_id))"

definition channel_info_json :: "('kv, 'cm, 'w, 'p, 'pm) server_env \<Rightarrow> channel_info \<Rightarrow> json" where
  "channel_info_json E c = JObject
     [(''channel_id'', serialize_channel_id E (ci_channel_id c)),
      (''counterparty'', se_pubkey_json E (ci_counterparty c)),
      (''funding_txo'', json_option (se_outpoint_json E) (ci_funding_txo c)),
      (''short_channel_id'', json_option json_u64 (ci_short_channel_id c)),
      (''channel_value_sat'', json_u64 (ci_channel_value_sat c)),
      (''local_reserve'', json_option json_u64 (ci_local_reserve c)),
      (''outbound_capacity_sat'', json_u64 (ci_outbound_capacity_sat c)),
      (''inbound_capacity_sat'', json_u64 (ci_inbound_capacity_sat c)),
      (''confirmations_required'', json_option json_u32 (ci_confirmations_required c)),
      (''is_outbound'', JBool (ci_is_outbound c)),
      (''is_channel_ready'', JBool (ci_is_channel_ready c)),
      (''is_usable'', JBool (ci_is_usable c)),
      (''is_announced'', JBool (ci_is_announced c))]"

section \<open>Parameters of a request\<close>

definition param :: "json \<Rightarrow> string \<Rightarrow> json" where
  "param request k = json_index (json_index request ''params'') k"

definition str_param :: "json \<Rightarrow> string \<Rightarrow> string outcome" where
  "str_param request k = unwrap (json_as_str (param request k))"

definition u64_param :: "json \<Rightarrow> string \<Rightarrow> u64 outcome" where
  "u64_param request k = unwrap (json_as_u64 (param request k))"

text \<open>\<open>hex::decode(..).unwrap().try_into().unwrap()\<close> to an array of 32 bytes.\<close>

definition array_param :: "('kv, 'cm, 'w, 'p, 'pm) server_env \<Rightarrow> json \<Rightarrow> string \<Rightarrow> bytes outcome" where
  "array_param E request k =
     bind_outcome (str_param request k) (\<lambda>text.
     bind_outcome (unwrap_result (hex_decode (the_codec (ne_store (se_node E))) text)) (\<lambda>bs.
     unwrap_result (if length bs = 32 then Inr bs else Inl bs)))"

section \<open>Requests\<close>

text \<open>An answer, a panic, or a request that never returns (a connection still waiting).\<close>

datatype reply = Answer json | Crash string | Hang

definition replied :: "json outcome \<Rightarrow> reply" where
  "replied r = (case r of Return v \<Rightarrow> Answer v | Panic m \<Rightarrow> Crash m)"

definition result_json :: "string \<Rightarrow> json" where
  "result_json text = JObject [(''result'', JString text)]"

type_synonym ('kv, 'cm, 'w, 'pm) served = "reply \<times> ('kv, 'cm, 'w, 'pm) node"

definition serve_new_address :: "('kv, 'cm, 'w, 'p, 'pm) server_env \<Rightarrow> ('kv, 'cm, 'w, 'pm) node \<Rightarrow>
    ('kv, 'cm, 'w, 'pm) served" where
  "serve_new_address E s =
     (case new_onchain_address (se_node E) s of
        (r, s') \<Rightarrow> (replied (bind_outcome r (\<lambda>a. Return (result_json (se_show_address E a)))), s'))"

definition serve_balance :: "('kv, 'cm, 'w, 'p, 'pm) server_env \<Rightarrow> ('kv, 'cm, 'w, 'pm) node \<Rightarrow>
    ('kv, 'cm, 'w, 'pm) served" where
  "serve_balance E s =
     (replied (bind_outcome (balance (se_node E) s) (\<lambda>b. Return (JObject
        [(''onchain'', JObject [(''confirmed'', se_btc_json E (onchain_confirmed b)),
                                (''pending'', se_amount_json E (onchain_pending b))]),
         (''lightning'', se_amount_json E (lightning b))]))), s)"

definition serve_open_channel :: "('kv, 'cm, 'w, 'p, 'pm) server_env \<Rightarrow> u128 \<Rightarrow> ('kv, 'cm, 'w, 'pm) node \<Rightarrow> json \<Rightarrow>
    ('kv, 'cm, 'w, 'pm) served" where
  "serve_open_channel E rand_id s request =
     (case bind_outcome (str_param request ''pubkey'') (\<lambda>pubkey.
           bind_outcome (u64_param request ''amount'') (\<lambda>amount.
           bind_outcome (unwrap (se_parse_pubkey E pubkey)) (\<lambda>k. Return (k, amount)))) of
        Panic m \<Rightarrow> (Crash m, s)
      | Return (k, amount) \<Rightarrow>
          (case open_channel (se_node E) rand_id s k amount 0 of
             (Inr _, s') \<Rightarrow> (Answer (result_json ''Channel opened''), s')
           | (Inl e, s') \<Rightarrow> (Answer (JObject [(''Error'', JString (error_text e))]), s')))"

definition serve_close_channel :: "('kv, 'cm, 'w, 'p, 'pm) server_env \<Rightarrow> ('kv, 'cm, 'w, 'pm) node \<Rightarrow> json \<Rightarrow>
    ('kv, 'cm, 'w, 'pm) served" where
  "serve_close_channel E s request =
     (case array_param E request ''channel_id'' of
        Panic m \<Rightarrow> (Crash m, s)
      | Return bs \<Rightarrow>
          (case close_channel (se_node E) s (ChannelId bs) of
             (Inr _, s') \<Rightarrow> (Answer (result_json ''Channel closed''), s')
           | (Inl e, s') \<Rightarrow> (Answer (result_json (''Could not close channel '' @ error_text e)), s')))"

definition serve_send_payment :: "('kv, 'cm, 'w, 'p, 'pm) server_env \<Rightarrow> ('kv, 'cm, 'w, 'pm) node \<Rightarrow> json \<Rightarrow>
    ('kv, 'cm, 'w, 'pm) served" where
  "serve_send_payment E s request =
     (case bind_outcome (str_param request ''invoice'') (\<lambda>text. unwrap (se_parse_invoice E text)) of
        Panic m \<Rightarrow> (Crash m, s)
      | Return invoice \<Rightarrow>
          (case pay_bolt11_invoice (se_node E) s invoice None of
             (Inr i, s') \<Rightarrow>
               (Answer (JObject [(''payment_id'',
                  JString (hex_encode (the_codec (ne_store (se_node E))) (payment_id_bytes i)))]), s')
           | (Inl e, s') \<Rightarrow> (Answer (result_json (''Could not make payment: '' @ error_text e)), s')))"

definition serve_receive :: "('kv, 'cm, 'w, 'p, 'pm) server_env \<Rightarrow> ('kv, 'cm, 'w, 'pm) node \<Rightarrow> json \<Rightarrow>
    ('kv, 'cm, 'w, 'pm) served" where
  "serve_receive E s request =
     (case u64_param request ''amount'' of
        Panic m \<Rightarrow> (Crash m, s)
      | Return msat \<Rightarrow>
          (case create_bolt11_invoice (se_node E) s (Some msat) of
             (r, s') \<Rightarrow>
               (replied (bind_outcome (unwrap_result r)
                  (\<lambda>invoice. Return (JObject [(''invoice'', JString (invoice_text invoice))]))), s')))"

definition serve_get_payment :: "('kv, 'cm, 'w, 'p, 'pm) server_env \<Rightarrow> ('kv, 'cm, 'w, 'pm) node \<Rightarrow> json \<Rightarrow>
    ('kv, 'cm, 'w, 'pm) served" where
  "serve_get_payment E s request =
     (replied (bind_outcome (array_param E request ''payment_id'') (\<lambda>bs.
        Return (case node_get_payment (se_node E) s (PaymentId bs) of
                  Some payment \<Rightarrow> payment_json payment
                | None \<Rightarrow> result_json ''Payment not found''))), s)"

definition serve_connect :: "('kv, 'cm, 'w, 'p, 'pm) server_env \<Rightarrow> ('kv, 'cm, 'w, 'pm) node \<Rightarrow> json \<Rightarrow>
    ('kv, 'cm, 'w, 'pm) served" where
  "serve_connect E s request =
     (case bind_outcome (str_param request ''pubkey'') (\<lambda>pubkey.
           bind_outcome (unwrap (se_parse_pubkey E pubkey)) (\<lambda>k.
           bind_outcome (str_param request ''address'') (\<lambda>text.
           bind_outcome (unwrap (se_parse_socket_addr E text)) (\<lambda>a. Return (k, a))))) of
        Panic m \<Rightarrow> (Crash m, s)
      | Return (k, a) \<Rightarrow>
          (case connect_to_peer (se_dial E) s k a of
             None \<Rightarrow> (Hang, s)
           | Some (Inr _) \<Rightarrow> (Answer (result_json ''Connected to peer''), s)
           | Some (Inl e) \<Rightarrow> (Answer (result_json (''Could not connect to peer '' @ e)), s)))"

definition serve :: "('kv, 'cm, 'w, 'p, 'pm) server_env \<Rightarrow> u128 \<Rightarrow> ('kv, 'cm, 'w, 'pm) node \<Rightarrow> json \<Rightarrow>
    ('kv, 'cm, 'w, 'pm) served" where
  "serve E rand_id s request =
     (case unwrap (json_as_str (json_index request ''method'')) of
        Panic m \<Rightarrow> (Crash m, s)
      | Return method \<Rightarrow>
          if method = ''node_pubkey'' then (Answer (JObject [(''result'', se_pubkey_json E (n_node_id s))]), s)
          else if method = ''new_address'' then serve_new_address E s
          else if method = ''balance'' then serve_balance E s
          else if method = ''open_channel'' then serve_open_channel E rand_id s request
          else if method = ''list_channels'' then
            (Answer (JObject [(''channels'', JArray (map (channel_info_json E) (list_channels (se_node E) s)))]), s)
          else if method = ''close_channel'' then serve_close_channel E s request
          else if method = ''send_payment'' then serve_send_payment E s request
          else if method = ''receive'' then serve_receive E s request
          else if method = ''get_payment'' then serve_get_payment E s request
          else if method = ''connect'' then serve_connect E s request
          else (Answer (JObject [(''error'', JString ''Unknown method'')]), s))"

section \<open>The accept loop\<close>

text \<open>
  What a turn of the loop sees: a connection with the bytes the client has sent (or a read error)
  and whether the reply can be written, a failed accept, or the shutdown token.
\<close>

datatype server_event =
    Connection "string + bytes" bool u128
  | AcceptFailed
  | ShutdownSignal

datatype server_status = Serving | Stopped | Crashed string | Blocked

definition handle_connection :: "('kv, 'cm, 'w, 'p, 'pm) server_env \<Rightarrow> ('kv, 'cm, 'w, 'pm) node \<Rightarrow>
    string + bytes \<Rightarrow> u128 \<Rightarrow> ('kv, 'cm, 'w, 'pm) served" where
  "handle_connection E s data rand_id =
     (case bind_outcome (unwrap_result data) (\<lambda>bs. unwrap_result (se_parse_json E (take 4096 bs))) of
        Panic m \<Rightarrow> (Crash m, s)
      | Return request \<Rightarrow> serve E rand_id s request)"

fun start_server :: "('kv, 'cm, 'w, 'p, 'pm) server_env \<Rightarrow> ('kv, 'cm, 'w, 'pm) node \<Rightarrow> server_event list \<Rightarrow>
    bytes list \<times> server_status \<times> ('kv, 'cm, 'w, 'pm) node" where
  "start_server E s [] = ([], Serving, s)"
| "start_server E s (AcceptFailed # es) = start_server E s es"
| "start_server E s (ShutdownSignal # es) = ([], Stopped, s)"
| "start_server E s (Connection data writes rand_id # es) =
     (case handle_connection E s data rand_id of
        (Crash m, s') \<Rightarrow> ([], Crashed m, s')
      | (Hang, s') \<Rightarrow> ([], Blocked, s')
      | (Answer v, s') \<Rightarrow>
          if writes then
            (case start_server E s' es of (replies, st, s'') \<Rightarrow> (se_json_text E v # replies, st, s''))
          else ([], Crashed ''called Result::unwrap() on an Err value'', s'))"

section \<open>What the loop does with a run of connections\<close>

lemma start_server_append:
  assumes "start_server E s es = (replies, Serving, s')"
  shows "start_server E s (es @ es') =
    (replies @ fst (start_server E s' es'), fst (snd (start_server E s' es')), snd (snd (start_server E s' es')))"
  using assms
proof (induction es arbitrary: s replies)
  case (Cons e es)
  show ?case
  proof (cases e)
    case (Connection data writes rand_id)
    obtain r s1 where h: "handle_connection E s data rand_id = (r, s1)"
      by (cases "handle_connection E s data rand_id")
    obtain v where v: "r = Answer v" "writes"
      using Cons.prems Connection h by (cases r) (auto split: if_splits)
    obtain rs st s2 where run: "start_server E s1 es = (rs, st, s2)" by (cases "start_server E s1 es")
    with Cons.prems Connection h v have eq: "replies = se_json_text E v # rs" "st = Serving" "s2 = s'"
      by simp_all
    with Cons.IH [of s1 rs] run Connection h v show ?thesis by (simp split: prod.split)
  qed (use Cons in simp_all)
qed simp

lemma start_server_crash:
  assumes "handle_connection E s data rand_id = (Crash m, s')"
  shows "start_server E s (Connection data writes rand_id # later) = ([], Crashed m, s')"
  using assms by simp

lemma param_object [simp]:
  "param (JObject [(''method'', m), (''params'', JObject ps)]) k =
     (case map_of ps k of None \<Rightarrow> JNull | Some v \<Rightarrow> v)"
  by (simp add: param_def)

lemmas serve_defs =
  serve_def serve_new_address_def serve_balance_def serve_open_channel_def serve_close_channel_def
  serve_send_payment_def serve_receive_def serve_get_payment_def serve_connect_def

end
