(* ===== verification/Cli.thy ===== *)
theory Cli
  imports Server
begin

text \<open>
  \<open>src/bin/lncli.rs\<close>: the command line client. Every command writes one JSON request to the
  server's socket and parses what one read into a buffer of fixed size gives. The last sections put the
  client and the server together.
\<close>

datatype command =
    NodePubkey
  | NewAddress
  | Balance
  | OpenChannel string u64
  | ListChannels
  | CloseChannel string
  | SendPayment string
  | Receive u64
  | ConnectPeer string string

definition plain_request :: "string \<Rightarrow> json" where
  "plain_request method = JObject [(''method'', JString method)]"

definition request_with :: "string \<Rightarrow> (string \<times> json) list \<Rightarrow> json" where
  "request_with method params = JObject [(''method'', JString method), (''params'', JObject params)]"

text \<open>\<open>checks\<close> is the overflow setting of the client's build; only \<open>amount * 1000\<close> can overflow.\<close>

fun request_of :: "bool \<Rightarrow> command \<Rightarrow> json outcome" where
  "request_of checks NodePubkey = Return (plain_request ''node_pubkey'')"
| "request_of checks NewAddress = Return (plain_request ''new_address'')"
| "request_of checks Balance = Return (plain_request ''balance'')"
| "request_of checks (OpenChannel pubkey amount) =
     Return (request_with ''open_channel'' [(''pubkey'', JString pubkey), (''amount'', json_u64 amount)])"
| "request_of checks ListChannels = Return (plain_request ''list_channels'')"
| "request_of checks (CloseChannel channel_id) =
     Return (request_with ''close_channel'' [(''channel_id'', JString channel_id)])"
| "request_of checks (SendPayment invoice) =
     Return (request_with ''send_payment'' [(''invoice'', JString invoice)])"
| "request_of checks (Receive amount) =
     bind_outcome (mul_u64 checks amount 1000) (\<lambda>msat.
       Return (request_with ''receive'' [(''amount'', json_u64 msat)]))"
| "request_of checks (ConnectPeer pubkey addr) =
     Return (request_with ''connect'' [(''pubkey'', JString pubkey), (''address'', JString addr)])"

definition BUFFER_SIZE :: nat where
  "BUFFER_SIZE = 4096"

fun read_buffer :: "command \<Rightarrow> nat" where
  "read_buffer NodePubkey = 1024"
| "read_buffer NewAddress = 1024"
| "read_buffer Balance = 1024"
| "read_buffer _ = BUFFER_SIZE"

text \<open>
  One run of the client, \<open>main\<close> with the function of the command: it connects, makes the request, writes it and
  reads once. \<open>linked\<close>, \<open>written\<close> and \<open>reply\<close> are what the socket does; the value printed is the
  result.
\<close>

definition run_command :: "(bytes \<Rightarrow> string + json) \<Rightarrow> bool \<Rightarrow> string + unit \<Rightarrow> (json \<Rightarrow> string + unit) \<Rightarrow>
    string + bytes \<Rightarrow> command \<Rightarrow> json outcome" where
  "run_command parse checks linked written reply cmd =
     bind_outcome (unwrap_result linked) (\<lambda>_.
     bind_outcome (request_of checks cmd) (\<lambda>request.
     bind_outcome (unwrap_result (written request)) (\<lambda>_.
     bind_outcome (unwrap_result reply) (\<lambda>response.
     unwrap_result (parse (take (read_buffer cmd) response))))))"

text \<open>
  What the server reads from a client that has connected: a client that panics on its way to the request closes
  the connection without a byte.
\<close>

definition client_data :: "('kv, 'cm, 'w, 'p, 'pm) server_env \<Rightarrow> bool \<Rightarrow> command \<Rightarrow> bytes" where
  "client_data E checks cmd =
     (case request_of checks cmd of Panic m \<Rightarrow> [] | Return request \<Rightarrow> se_json_text E request)"

section \<open>The client's requests at the server\<close>

text \<open>When a command makes the server's task panic.\<close>

fun crashes_server :: "('kv, 'cm, 'w, 'p, 'pm) server_env \<Rightarrow> ('kv, 'cm, 'w, 'pm) node \<Rightarrow> command \<Rightarrow> bool" where
  "crashes_server E s NewAddress = panics (fst (new_onchain_address (se_node E) s))"
| "crashes_server E s Balance = panics (balance (se_node E) s)"
| "crashes_server E s (OpenChannel pubkey amount) = (se_parse_pubkey E pubkey = None)"
| "crashes_server E s (CloseChannel text) =
     (case hex_decode (the_codec (ne_store (se_node E))) text of Inl _ \<Rightarrow> True | Inr bs \<Rightarrow> length bs \<noteq> 32)"
| "crashes_server E s (SendPayment text) = (se_parse_invoice E text = None)"
| "crashes_server E s (Receive amount) =
     (\<exists>e. fst (create_bolt11_invoice (se_node E) s (Some (amount * 1000))) = Inl e)"
| "crashes_server E s (ConnectPeer pubkey addr) =
     (se_parse_pubkey E pubkey = None \<or> se_parse_socket_addr E addr = None)"
| "crashes_server E s _ = False"

definition unknown_method :: json where
  "unknown_method = JObject [(''error'', JString ''Unknown method'')]"

lemma replied_simps [simp]: "replied (Return v) = Answer v" "replied (Panic m) = Crash m"
  by (simp_all add: replied_def)

lemma replied_Crash [simp]: "(\<exists>m. replied r = Crash m) \<longleftrightarrow> panics r"
  by (cases r) simp_all

lemma panics_bind_Return [simp]: "panics (bind_outcome r (\<lambda>x. Return (f x))) = panics r"
  by (cases r) simp_all

lemma request_params [simp]:
  "json_index (request_with m ps) ''method'' = JString m"
  "param (request_with m ps) k = (case map_of ps k of None \<Rightarrow> JNull | Some v \<Rightarrow> v)"
  "json_index (plain_request m) ''method'' = JString m"
  by (simp_all add: request_with_def plain_request_def)

lemma serve_plain:
  "serve E rand_id s (plain_request ''node_pubkey'') = (Answer (JObject [(''result'', se_pubkey_json E (n_node_id s))]), s)"
  "serve E rand_id s (plain_request ''new_address'') = serve_new_address E s"
  "serve E rand_id s (plain_request ''balance'') = serve_balance E s"
  "serve E rand_id s (plain_request ''list_channels'') =
     (Answer (JObject [(''channels'', JArray (map (channel_info_json E) (list_channels (se_node E) s)))]), s)"
  by (simp_all add: serve_def)

lemma serve_with:
  "serve E rand_id s (request_with ''open_channel'' ps) = serve_open_channel E rand_id s (request_with ''open_channel'' ps)"
  "serve E rand_id s (request_with ''close_channel'' ps) = serve_close_channel E s (request_with ''close_channel'' ps)"
  "serve E rand_id s (request_with ''send_payment'' ps) = serve_send_payment E s (request_with ''send_payment'' ps)"
  "serve E rand_id s (request_with ''receive'' ps) = serve_receive E s (request_with ''receive'' ps)"
  "serve E rand_id s (request_with ''get_payment'' ps) = serve_get_payment E s (request_with ''get_payment'' ps)"
  "serve E rand_id s (request_with ''connect'' ps) = serve_connect E s (request_with ''connect'' ps)"
  by (simp_all add: serve_def)

lemma mul_u64_Return: "mul_u64 checks a b = Return c \<Longrightarrow> c = a * b"
  by (simp add: mul_u64_def split: if_splits)

lemma serve_command_crash:
  assumes "request_of checks cmd = Return request"
  shows "(\<exists>m. fst (serve E rand_id s request) = Crash m) \<longleftrightarrow> crashes_server E s cmd"
proof (cases cmd)
  case NodePubkey
  with assms show ?thesis by (auto simp: serve_plain)
next
  case NewAddress
  with assms have "request = plain_request ''new_address''" by simp
  with NewAddress show ?thesis by (simp add: serve_plain serve_new_address_def split_pair_eq)
next
  case Balance
  with assms have "request = plain_request ''balance''" by simp
  with Balance show ?thesis by (simp add: serve_plain serve_balance_def)
next
  case (OpenChannel pubkey amount)
  with assms show ?thesis
    by (cases "se_parse_pubkey E pubkey")
      (auto simp: serve_with serve_open_channel_def str_param_def u64_param_def
        split: sum.splits prod.splits)
next
  case ListChannels
  with assms show ?thesis by (auto simp: serve_plain)
next
  case (CloseChannel arg)
  with assms show ?thesis
    by (cases "hex_decode (the_codec (ne_store (se_node E))) arg")
      (auto simp: serve_with serve_close_channel_def array_param_def str_param_def split: sum.splits prod.splits)
next
  case (SendPayment arg)
  with assms show ?thesis
    by (cases "se_parse_invoice E arg")
      (auto simp: serve_with serve_send_payment_def str_param_def split: sum.splits prod.splits)
next
  case (Receive amount)
  with assms obtain msat where "mul_u64 checks amount 1000 = Return msat"
      "request = request_with ''receive'' [(''amount'', json_u64 msat)]"
    by (auto simp: bind_outcome_Return_iff)
  with Receive mul_u64_Return [of checks amount 1000 msat] show ?thesis
    by (cases "fst (create_bolt11_invoice (se_node E) s (Some (amount * 1000)))")
      (auto simp: serve_with serve_receive_def u64_param_def split_pair_eq)
next
  case (ConnectPeer pubkey addr)
  with assms show ?thesis
    by (cases "se_parse_pubkey E pubkey"; cases "se_parse_socket_addr E addr")
      (auto simp: serve_with serve_connect_def str_param_def split: option.splits sum.splits)
qed

section \<open>The answers of the paying and receiving commands\<close>

lemma serve_receive_answer:
  assumes "request_of checks (Receive amount) = Return request"
    and "fst (serve E rand_id s request) = Answer v"
  obtains invoice where "create_bolt11_invoice (se_node E) s (Some (amount * 1000)) =
      (Inr invoice, snd (serve E rand_id s request))"
    and "v = JObject [(''invoice'', JString (invoice_text invoice))]"
proof -
  from assms(1) obtain msat where "mul_u64 checks amount 1000 = Return msat"
      "request = request_with ''receive'' [(''amount'', json_u64 msat)]"
    by (auto simp: bind_outcome_Return_iff)
  with mul_u64_Return [of checks amount 1000 msat] assms(2) show thesis
    by (cases "create_bolt11_invoice (se_node E) s (Some (amount * 1000))"; cases "fst
        (create_bolt11_invoice (se_node E) s (Some (amount * 1000)))")
      (auto simp: serve_with serve_receive_def u64_param_def intro: that)
qed

lemma serve_get_payment_known:
  assumes "codec_laws (the_codec (ne_store (se_node E)))" and "length h = 32"
    and "node_get_payment (se_node E) s (PaymentId h) = Some p"
  shows "serve E rand_id s (request_with ''get_payment'' [(''payment_id'',
      JString (hex_encode (the_codec (ne_store (se_node E))) h))]) = (Answer (payment_json p), s)"
  using assms by (simp add: serve_with serve_get_payment_def array_param_def str_param_def codec_lawsD(1))

section \<open>The answers of the channel commands\<close>

lemma listed_channel_id:
  "json_as_str (json_index (channel_info_json E c) ''channel_id'') =
     Some (hex_encode (the_codec (ne_store (se_node E))) (channel_id_bytes (ci_channel_id c)))"
  by (simp add: channel_info_json_def serialize_channel_id_def)

lemma serve_close_channel_known:
  assumes "codec_laws (the_codec (ne_store (se_node E)))" and "length (channel_id_bytes (cd_channel_id ch)) = 32"
    and "distinct (map cd_channel_id (cm_list_channels (ne_cm (se_node E)) (n_channel_manager s)))"
    and "ch \<in> set (cm_list_channels (ne_cm (se_node E)) (n_channel_manager s))"
    and "cm_close_channel (ne_cm (se_node E)) (n_channel_manager s) (cd_channel_id ch) (cd_counterparty ch) = (r, cm)"
  shows "serve E rand_id s (request_with ''close_channel'' [(''channel_id'',
      JString (hex_encode (the_codec (ne_store (se_node E))) (channel_id_bytes (cd_channel_id ch))))]) =
    (Answer (result_json (case r of Inr _ \<Rightarrow> ''Channel closed''
       | Inl e \<Rightarrow> ''Could not close channel '' @ error_text (Message (close_channel_error e)))),
     s\<lparr>n_channel_manager := cm\<rparr>)"
  using assms(2,5) find_distinct [OF assms(3,4)] codec_lawsD(1) [OF assms(1)]
  by (cases "cd_channel_id ch"; cases r)
    (simp_all add: serve_with serve_close_channel_def array_param_def str_param_def close_channel_def)

section \<open>A concrete server for the witnesses\<close>

definition sample_request :: json where
  "sample_request = request_with ''open_channel'' [(''pubkey'', JString ''zz''), (''amount'', json_u64 5)]"

text \<open>A JSON text for one request and the reply to it, and parsers that know one word each.\<close>

definition sample_server :: "(mem_store, cm_log, u64, (script \<times> u64) list, peer_details list) server_env" where
  "sample_server =
     \<lparr>se_node = sample_env\<lparr>ne_cm := recording_cm\<lparr>cm_create_bolt11_invoice := (\<lambda>l a.
          (Inr \<lparr>amount_milli_satoshis = a, invoice_payment_hash = replicate 32 9, invoice_text = ''lnbc''\<rparr>,
           log_call (InvoiceCreated a) l))\<rparr>\<rparr>,
      se_parse_json = (\<lambda>bs. if bs = [123, 1, 125] then Inr sample_request
                            else if bs = [123, 2, 125] then Inr unknown_method
                            else if bs = [123, 3, 125] then Inr (plain_request ''node_pubkey'') else Inl ''syntax''),
      se_json_text = (\<lambda>v. if v = sample_request then [123, 1, 125] else [123, 2, 125]),
      se_parse_pubkey = (\<lambda>t. if t = ''02'' then Some (PublicKey [2, 1]) else None),
      se_parse_invoice = (\<lambda>t. if t = ''lnbc'' then Some sample_invoice else None),
      se_parse_socket_addr = (\<lambda>t. None), se_show_address = (\<lambda>a. ''bc1''),
      se_pubkey_json = (\<lambda>k. JNull), se_outpoint_json = (\<lambda>p. JNull), se_amount_json = json_u64,
      se_btc_json = json_u64, se_dial = (\<lambda>pm k a. None)\<rparr>"

section \<open>Properties\<close>



text \<open>
  C31: receiving works end to end: when the server answers \<open>receive amount\<close>, the answer is the
  invoice's text, the store has a pending inbound payment of exactly \<open>1000 * amount\<close> millisatoshis (where
  that fits 64 bits), and the server's \<open>get_payment\<close> for the invoice's hash returns it.
\<close>

theorem receive_end_to_end:
  assumes "store_laws (ne_store (se_node E))" and "unat amount * 1000 < 2 ^ 64"
    and "request_of checks (Receive amount) = Return request"
    and "serve E rand_id s request = (Answer v, s')"
  shows "\<exists>(invoice :: bolt11_invoice) p. v = JObject [(''invoice'', JString (invoice_text invoice))] \<and>
    direction p = Inbound \<and> status p = Pending \<and>
    (\<exists>msat. amount_msat p = Some msat \<and> unat msat = 1000 * unat amount) \<and>
    node_get_payment (se_node E) s' (PaymentId (invoice_payment_hash invoice)) = Some p \<and>
    (length (invoice_payment_hash invoice) = 32 \<longrightarrow>
       serve E rand_id s' (request_with ''get_payment'' [(''payment_id'', JString
           (hex_encode (the_codec (ne_store (se_node E))) (invoice_payment_hash invoice)))]) =
         (Answer (payment_json p), s'))"
proof -
  obtain invoice where inv: "create_bolt11_invoice (se_node E) s (Some (amount * 1000)) = (Inr invoice, s')"
      "v = JObject [(''invoice'', JString (invoice_text invoice))]"
    by (rule serve_receive_answer [OF assms(3), of E rand_id s v]) (use assms(4) in simp_all)
  let ?p = "inbound_payment_of invoice (Some (amount * 1000))"
  have got: "node_get_payment (se_node E) s' (PaymentId (invoice_payment_hash invoice)) = Some ?p"
    by (rule create_invoice_get [OF assms(1) inv(1)])
  have "unat (amount * 1000) = 1000 * unat amount"
    using unat_mul_u64_Return [of amount 1000 True] assms(2) by simp
  moreover have "direction ?p = Inbound" "status ?p = Pending" "amount_msat ?p = Some (amount * 1000)"
    by (simp_all add: inbound_payment_of_def)
  moreover note inv(2) got serve_get_payment_known [OF store_lawsD(1) [OF assms(1)] _ got, of rand_id]
  ultimately show ?thesis
    by - (rule exI [of _ invoice], rule exI [of _ ?p], intro conjI impI exI [of _ "amount * 1000"])
qed

theorem receive_end_to_end_witness:
  "\<exists>v s' p. serve sample_server 1 one_peer_node (request_with ''receive'' [(''amount'', json_u64 7000)]) = (Answer v, s') \<and>
     v = JObject [(''invoice'', JString ''lnbc'')] \<and> direction p = Inbound \<and>
     (\<exists>msat. amount_msat p = Some msat \<and> unat msat = 7000) \<and>
     (\<exists>h. node_get_payment (se_node sample_server) s' (PaymentId h) = Some p)"
proof -
  let ?request = "request_with ''receive'' [(''amount'', json_u64 7000)]"
  have r: "request_of True (Receive 7) = Return ?request" by (simp add: mul_u64_def)
  have "fst (serve sample_server 1 one_peer_node ?request) = Answer (JObject [(''invoice'', JString ''lnbc'')])"
    by (simp add: serve_with serve_receive_def u64_param_def create_bolt11_invoice_def sample_server_def
        sample_env_def one_peer_node_def sample_node_def recording_cm_def add_payment_def ref_env_def
        mem_kv_def mem_write_def empty_store_def)
  then obtain s' where run: "serve sample_server 1 one_peer_node ?request =
      (Answer (JObject [(''invoice'', JString ''lnbc'')]), s')"
    by (metis prod.collapse)
  have "store_laws (ne_store (se_node sample_server))" by (simp add: sample_server_def ref_env_laws)
  from receive_end_to_end [OF this _ r run] run show ?thesis by auto
qed

text \<open>
  C32: a channel that is listed can be closed: given the id that the server's \<open>list_channels\<close> prints for a channel, the
  client's \<open>close_channel\<close> makes the server ask LDK to close exactly that channel, with its own counterparty; the server
  answers with LDK's verdict, and never panics or reports the channel as missing.
\<close>

theorem listed_channel_closes:
  assumes "codec_laws (the_codec (ne_store (se_node E)))"
    and "\<forall>ch \<in> set (cm_list_channels (ne_cm (se_node E)) (n_channel_manager s)). length (channel_id_bytes (cd_channel_id ch)) = 32"
    and "distinct (map cd_channel_id (cm_list_channels (ne_cm (se_node E)) (n_channel_manager s)))"
    and "request_of checks ListChannels = Return listing"
    and "serve E rand_id s listing = (Answer (JObject [(''channels'', JArray listed)]), s1)"
    and "c \<in> set listed" and "json_as_str (json_index c ''channel_id'') = Some arg"
    and "request_of checks (CloseChannel arg) = Return request"
  shows "\<exists>ch \<in> set (cm_list_channels (ne_cm (se_node E)) (n_channel_manager s)).
    c = channel_info_json E (channel_info_of ch) \<and>
    (case cm_close_channel (ne_cm (se_node E)) (n_channel_manager s) (cd_channel_id ch) (cd_counterparty ch) of
       (r, cm) \<Rightarrow> serve E rand_id' s1 request =
         (Answer (result_json (case r of Inr _ \<Rightarrow> ''Channel closed''
            | Inl e \<Rightarrow> ''Could not close channel '' @ error_text (Message (close_channel_error e)))),
          s\<lparr>n_channel_manager := cm\<rparr>))"
proof -
  from assms(4,5) have listed: "listed = map (channel_info_json E) (list_channels (se_node E) s)" and s1: "s1 = s"
    by (auto simp: serve_plain)
  then obtain ch where ch: "ch \<in> set (cm_list_channels (ne_cm (se_node E)) (n_channel_manager s))"
      "c = channel_info_json E (channel_info_of ch)"
    using assms(6) by (auto simp: list_channels_def)
  obtain r cm where close: "cm_close_channel (ne_cm (se_node E)) (n_channel_manager s) (cd_channel_id ch) (cd_counterparty ch) = (r, cm)"
    by (rule prod.exhaust)
  have "request = request_with ''close_channel'' [(''channel_id'',
      JString (hex_encode (the_codec (ne_store (se_node E))) (channel_id_bytes (cd_channel_id ch))))]"
    using assms(7,8) ch(2) by (simp add: listed_channel_id channel_info_of_def)
  with serve_close_channel_known [OF assms(1) bspec [OF assms(2) ch(1)] assms(3) ch(1) close, of rand_id'] close ch s1
  show ?thesis by auto
qed

definition two_channels_node :: "(mem_store, cm_log, u64, peer_details list) node" where
  "two_channels_node = sample_node empty_store
     (quiet_cm\<lparr>cm_channels := [(sample_channel 5)\<lparr>cd_channel_id := ChannelId (replicate 32 1)\<rparr>,
        (sample_channel 7)\<lparr>cd_channel_id := ChannelId (replicate 32 2), cd_counterparty := PublicKey [9]\<rparr>]\<rparr>) []"

definition second_listed :: json where
  "second_listed = channel_info_json sample_server (list_channels (se_node sample_server) two_channels_node ! 1)"

theorem listed_channel_closes_witness:
  "\<exists>arg s'. json_as_str (json_index second_listed ''channel_id'') = Some arg \<and>
     serve sample_server 1 two_channels_node (request_with ''close_channel'' [(''channel_id'', JString arg)]) =
       (Answer (result_json ''Channel closed''), s') \<and>
     cm_calls (n_channel_manager s') = [Closed (ChannelId (replicate 32 2)) (PublicKey [9])]"
proof -
  let ?chs = "cm_list_channels (ne_cm (se_node sample_server)) (n_channel_manager two_channels_node)"
  let ?listing = "plain_request ''list_channels''"
  let ?listed = "map (channel_info_json sample_server) (list_channels (se_node sample_server) two_channels_node)"
  have chs: "?chs = [(sample_channel 5)\<lparr>cd_channel_id := ChannelId (replicate 32 1)\<rparr>,
      (sample_channel 7)\<lparr>cd_channel_id := ChannelId (replicate 32 2), cd_counterparty := PublicKey [9]\<rparr>]"
    by (simp add: two_channels_node_def sample_server_def recording_cm_def)
  have laws: "codec_laws (the_codec (ne_store (se_node sample_server)))"
    using store_lawsD(1) [OF ref_env_laws] by (simp add: sample_server_def)
  have ids: "\<forall>ch \<in> set ?chs. length (channel_id_bytes (cd_channel_id ch)) = 32" "distinct (map cd_channel_id ?chs)"
    unfolding chs by code_simp+
  have listing: "request_of True ListChannels = Return ?listing"
    "serve sample_server 1 two_channels_node ?listing = (Answer (JObject [(''channels'', JArray ?listed)]), two_channels_node)"
    by (simp_all add: serve_plain)
  have second: "second_listed \<in> set ?listed"
    by (simp add: second_listed_def list_channels_def chs)
  obtain arg where arg: "json_as_str (json_index second_listed ''channel_id'') = Some arg"
    by (simp add: second_listed_def listed_channel_id)
  have request: "request_of True (CloseChannel arg) = Return (request_with ''close_channel'' [(''channel_id'', JString arg)])"
    by simp
  have counterparties: "\<not> (\<exists>ch \<in> set ?chs. second_listed = channel_info_json sample_server (channel_info_of ch) \<and>
      cd_channel_id ch \<noteq> ChannelId (replicate 32 2))"
    unfolding chs second_listed_def list_channels_def by code_simp
  from listed_channel_closes [OF laws ids listing second arg request, of 1] counterparties chs arg show ?thesis
    by (auto simp: sample_server_def recording_cm_def log_call_def two_channels_node_def quiet_cm_def)
qed

text \<open>
  The millisatoshi amount a \<open>receive\<close> command asks for is \<open>1000 * amount\<close> exactly when
  that fits 64 bits; beyond, a client built with overflow checks panics and one without sends another amount.
\<close>

theorem receive_amount_bounds:
  "(\<exists>msat. request_of checks (Receive amount) = Return (request_with ''receive'' [(''amount'', json_u64 msat)]) \<and>
      unat msat = 1000 * unat amount) \<longleftrightarrow> 1000 * unat amount < 2 ^ 64"
proof (cases "unat amount * 1000 < 2 ^ 64")
  case True
  then have "mul_u64 checks amount 1000 = Return (amount * 1000)" "unat (amount * 1000) = 1000 * unat amount"
    using unat_mul_u64_Return [of amount 1000 checks] by simp_all
  with True show ?thesis by auto
next
  case False
  have "unat msat \<noteq> 1000 * unat amount" for msat :: u64
    using unat_u64_bound [of msat] False by simp
  with False show ?thesis by auto
qed

text \<open>
  The client prints the server's reply exactly when its text fits the client's buffer (1024 bytes for
  the first three commands, 4096 for the others): of a longer reply it reads a prefix, which no parser of
  JSON accepts for an object, and panics.
\<close>

theorem reply_shown_iff_fits:
  assumes "request_of checks cmd = Return request" and "written request = Inr ()"
    and "parse reply = Inr v" and "\<forall>n < length reply. \<exists>e. parse (take n reply) = Inl e"
  shows "(run_command parse checks (Inr ()) written (Inr reply) cmd = Return v \<longleftrightarrow> length reply \<le> read_buffer cmd) \<and>
    (panics (run_command parse checks (Inr ()) written (Inr reply) cmd) \<longleftrightarrow> read_buffer cmd < length reply)"
proof (cases "length reply \<le> read_buffer cmd")
  case True
  with assms show ?thesis by (simp add: run_command_def)
next
  case False
  then have "read_buffer cmd < length reply" by simp
  with assms(4) obtain e where "parse (take (read_buffer cmd) reply) = Inl e" by blast
  with assms(1,2) False show ?thesis by (simp add: run_command_def)
qed

theorem reply_shown_iff_fits_witness:
  "run_command (se_parse_json sample_server) True (Inr ()) (\<lambda>r. Inr ()) (Inr [123, 2, 125]) ListChannels = Return unknown_method \<and>
   length [123, 2, 125 :: u8] \<le> read_buffer ListChannels"
proof -
  have req: "request_of True ListChannels = Return (plain_request ''list_channels'')" by simp
  have parse: "se_parse_json sample_server [123, 2, 125] = Inr unknown_method"
    by (simp add: sample_server_def)
  have "\<exists>e. se_parse_json sample_server (take n [123, 2, 125]) = Inl e" if "n < length [123, 2, 125 :: u8]" for n
  proof -
    from that have "length (take n [123, 2, 125 :: u8]) < 3" by simp
    then have "take n [123, 2, 125 :: u8] \<noteq> [123, 1, 125]" "take n [123, 2, 125 :: u8] \<noteq> [123, 2, 125]"
      "take n [123, 2, 125 :: u8] \<noteq> [123, 3, 125]"
      by (metis length_Cons list.size(3) less_irrefl numeral_3_eq_3)+
    then show ?thesis by (simp add: sample_server_def)
  qed
  with reply_shown_iff_fits [where written = "\<lambda>r. Inr ()" and reply = "[123, 2, 125]" and
      parse = "se_parse_json sample_server", OF req refl parse]
  show ?thesis by (simp add: BUFFER_SIZE_def)
qed

end
