(* ===== verification/NodeSystem.thy ===== *)
theory NodeSystem
  imports PaymentFlow ChainListener Cli
begin

text \<open>
  The running node: the tasks that share its state, each with whether it is still alive. The background
  processor handles LDK's events (\<open>src/event_handler.rs\<close>), the chain task delivers blocks
  (\<open>src/node.rs\<close>, \<open>src/bitcoind_client.rs\<close>) and the server answers requests one after the other
  (\<open>src/server.rs\<close>). A panic ends the task it happens in and nothing else; what it did to the state stays.
  The steps of the tasks interleave in any order.
\<close>

section \<open>State\<close>

text \<open>
  \<open>main\<close> spawns the task of \<open>Node::start\<close> and the server together: the server answers while \<open>start\<close> still
  synchronises, and the background processor and the chain task, which \<open>start\<close> spawns afterwards, take no step before
  that. A task that has not begun yet counts as alive.
\<close>

datatype start_state = Starting | Started | StartFailed string

record ('kv, 'cm, 'w, 'pm, 'b, 'mon) system =
  sys_flow :: "('kv, 'cm, 'w, 'pm, 'b) flow"
  sys_monitor :: 'mon
  sys_start :: start_state
  wallet_synced :: bool
  handler_alive :: bool
  chain_alive :: bool
  server_alive :: bool

abbreviation sys_node :: "('kv, 'cm, 'w, 'pm, 'b, 'mon) system \<Rightarrow> ('kv, 'cm, 'w, 'pm) node" where
  "sys_node s \<equiv> flow_node (sys_flow s)"

abbreviation sys_store :: "('kv, 'cm, 'w, 'pm, 'b, 'mon) system \<Rightarrow> 'kv" where
  "sys_store s \<equiv> n_node_store (sys_node s)"

text \<open>The chain listener holds the node's own channel manager and wallet.\<close>

definition listener_of :: "('kv, 'cm, 'w, 'pm, 'b, 'mon) system \<Rightarrow> ('cm, 'mon, 'w) chain_listener" where
  "listener_of s = \<lparr>l_channel_manager = n_channel_manager (sys_node s), l_chain_monitor = sys_monitor s,
     l_wallet = n_onchain_wallet (sys_node s)\<rparr>"

definition set_node :: "('kv, 'cm, 'w, 'pm, 'b, 'mon) system \<Rightarrow> ('kv, 'cm, 'w, 'pm) node \<Rightarrow>
    ('kv, 'cm, 'w, 'pm, 'b, 'mon) system" where
  "set_node s n = s\<lparr>sys_flow := (sys_flow s)\<lparr>flow_node := n\<rparr>\<rparr>"

definition with_listener :: "('kv, 'cm, 'w, 'pm, 'b, 'mon) system \<Rightarrow> ('cm, 'mon, 'w) chain_listener \<Rightarrow>
    ('kv, 'cm, 'w, 'pm, 'b, 'mon) system" where
  "with_listener s l = (set_node s ((sys_node s)\<lparr>n_channel_manager := l_channel_manager l,
     n_onchain_wallet := l_wallet l\<rparr>))\<lparr>sys_monitor := l_chain_monitor l\<rparr>"

section \<open>Steps\<close>

text \<open>
  \<open>Request\<close> is a connection that is served to its end; \<open>BeginPayment\<close> and \<open>EndPayment\<close> are
  the two halves of a \<open>send_payment\<close> request between which the other tasks can run. The server handles one
  connection at a time. The flag says whether the reply can be written. A request also shows the invoice that LDK drew for
  it, if it was one to receive. \<open>BackgroundFailed\<close> is LDK's
  background processor returning an error, which it does when it cannot persist its state. \<open>StartDone\<close> is
  the end of the first synchronisation, with what it has told the channel manager, and \<open>WalletSync\<close> the
  chain task's own synchronisation of the wallet, with what the emitter returned.
\<close>

datatype task_step =
    Event event
  | Request "string + bytes" u128 "bolt11_invoice option" bool
  | BeginPayment bolt11_invoice
  | EndPayment bool
  | Notification notification
  | PollFailed string
  | BackgroundFailed string
  | StartDone "string + unit" "notification list"
  | WalletSync "string + (string + emitted_block) list"

definition start_result :: "string + unit \<Rightarrow> start_state" where
  "start_result synced = (case synced of Inl e \<Rightarrow> StartFailed e | Inr _ \<Rightarrow> Started)"

definition answered :: "reply \<Rightarrow> bool" where
  "answered r = (case r of Answer _ \<Rightarrow> True | _ \<Rightarrow> False)"

text \<open>The request in a connection's bytes; a failed read or a text that is no JSON is none.\<close>

definition requested :: "('kv, 'cm, 'w, 'p, 'pm) server_env \<Rightarrow> string + bytes \<Rightarrow> json option" where
  "requested E data = (case data of Inl _ \<Rightarrow> None | Inr bs \<Rightarrow> result_ok (se_parse_json E (take 4096 bs)))"

definition asks_for :: "('kv, 'cm, 'w, 'p, 'pm) server_env \<Rightarrow> string \<Rightarrow> string + bytes \<Rightarrow> json option" where
  "asks_for E method data = Option.bind (requested E data) (\<lambda>j.
     if json_as_str (json_index j ''method'') = Some method then Some j else None)"

definition drawn_invoice :: "('kv, 'cm, 'w, 'p, 'pm) server_env \<Rightarrow> ('kv, 'cm, 'w, 'pm) node \<Rightarrow> string + bytes \<Rightarrow>
    bolt11_invoice option" where
  "drawn_invoice E n data =
     Option.bind (asks_for E ''receive'' data) (\<lambda>j.
     Option.bind (json_as_u64 (param j ''amount'')) (\<lambda>msat.
       result_ok (fst (cm_create_bolt11_invoice (ne_cm (se_node E)) (n_channel_manager n) (Some msat)))))"

inductive system_step :: "('kv, 'cm, 'w, 'p, 'pm) server_env \<Rightarrow> ('kv, 'cm, 'w, 'p, 'b) handler_env \<Rightarrow>
    ('cm, 'mon) listen_ops \<Rightarrow> ('kv, 'cm, 'w, 'pm, 'b, 'mon) system \<Rightarrow> task_step \<Rightarrow>
    ('kv, 'cm, 'w, 'pm, 'b, 'mon) system \<Rightarrow> bool"
  for E H L where
  event: "handler_alive s \<Longrightarrow> sys_start s = Started \<Longrightarrow> handle_event H (handler_of (sys_flow s)) e = (r, h) \<Longrightarrow>
    system_step E H L s (Event e)
      (s\<lparr>sys_flow := with_handler (sys_flow s) h, handler_alive := \<not> panics r\<rparr>)"
| request: "server_alive s \<Longrightarrow> flow_calls (sys_flow s) = [] \<Longrightarrow>
    handle_connection E (sys_node s) data rand_id = (r, n) \<Longrightarrow> drawn = drawn_invoice E (sys_node s) data \<Longrightarrow>
    system_step E H L s (Request data rand_id drawn writes)
      ((set_node s n)\<lparr>server_alive := answered r \<and> writes\<rparr>)"
| begin_payment: "server_alive s \<Longrightarrow> flow_calls (sys_flow s) = [] \<Longrightarrow>
    send_invoice (se_node E) (sys_node s) invoice None = (Inr p, n) \<Longrightarrow>
    system_step E H L s (BeginPayment invoice)
      (s\<lparr>sys_flow := (sys_flow s)\<lparr>flow_node := n, flow_calls := [p]\<rparr>\<rparr>)"
| end_payment: "server_alive s \<Longrightarrow> flow_calls (sys_flow s) = [p] \<Longrightarrow>
    record_payment (se_node E) (sys_node s) p = (r, n) \<Longrightarrow>
    system_step E H L s (EndPayment writes)
      (s\<lparr>sys_flow := (sys_flow s)\<lparr>flow_node := n, flow_calls := []\<rparr>, server_alive := writes\<rparr>)"
| notified: "chain_alive s \<Longrightarrow> sys_start s = Started \<Longrightarrow> wallet_synced s \<Longrightarrow> notify L (ne_bdk (se_node E)) (listener_of s) n = (r, l) \<Longrightarrow>
    system_step E H L s (Notification n) ((with_listener s l)\<lparr>chain_alive := \<not> panics r\<rparr>)"
| poll_failed: "chain_alive s \<Longrightarrow> sys_start s = Started \<Longrightarrow> wallet_synced s \<Longrightarrow> system_step E H L s (PollFailed e) (s\<lparr>chain_alive := False\<rparr>)"
| background_failed: "handler_alive s \<Longrightarrow> sys_start s = Started \<Longrightarrow>
    system_step E H L s (BackgroundFailed e) (s\<lparr>handler_alive := False\<rparr>)"
| start_done: "sys_start s = Starting \<Longrightarrow>
    system_step E H L s (StartDone synced ns)
      ((set_node s ((sys_node s)\<lparr>n_channel_manager := fold (manager_notify L) ns (n_channel_manager (sys_node s))\<rparr>))
        \<lparr>sys_start := start_result synced\<rparr>)"
| wallet_sync: "chain_alive s \<Longrightarrow> sys_start s = Started \<Longrightarrow> \<not> wallet_synced s \<Longrightarrow>
    initial_sync (ne_bdk (se_node E)) (\<lambda>rpc w. emitted) (n_onchain_wallet (sys_node s)) = (r, lock) \<Longrightarrow>
    system_step E H L s (WalletSync emitted)
      ((set_node s ((sys_node s)\<lparr>n_onchain_wallet := lock\<rparr>))\<lparr>wallet_synced := True, chain_alive := \<not> panics r\<rparr>)"

inductive_cases system_event_stepE: "system_step E H L s (Event e) s'"
inductive_cases request_stepE: "system_step E H L s (Request data rand_id drawn writes) s'"
inductive_cases begin_stepE: "system_step E H L s (BeginPayment invoice) s'"
inductive_cases end_stepE: "system_step E H L s (EndPayment writes) s'"
inductive_cases notified_stepE: "system_step E H L s (Notification n) s'"

abbreviation system_run :: "('kv, 'cm, 'w, 'p, 'pm) server_env \<Rightarrow> ('kv, 'cm, 'w, 'p, 'b) handler_env \<Rightarrow>
    ('cm, 'mon) listen_ops \<Rightarrow> ('kv, 'cm, 'w, 'pm, 'b, 'mon) system \<Rightarrow> task_step list \<Rightarrow>
    ('kv, 'cm, 'w, 'pm, 'b, 'mon) system \<Rightarrow> bool" where
  "system_run E H L \<equiv> steps (system_step E H L)"

section \<open>What a request does to the shared state\<close>

text \<open>The only writes of the operations of the node are additions of pending payments.\<close>

definition adds_pending :: "'kv store_env \<Rightarrow> 'kv \<Rightarrow> 'kv \<Rightarrow> bool" where
  "adds_pending S kv kv' \<longleftrightarrow> kv' = kv \<or> (\<exists>p. status p = Pending \<and> kv' = snd (add_payment S kv p))"

lemma adds_pending_refl [simp]: "adds_pending S kv kv"
  by (simp add: adds_pending_def)

lemma adds_pendingI: "add_payment S kv p = (r, kv') \<Longrightarrow> status p = Pending \<Longrightarrow> adds_pending S kv kv'"
  unfolding adds_pending_def by (metis snd_conv)

lemma record_payment_adds:
  "record_payment N n p = (r, n') \<Longrightarrow> n_node_store n' = snd (add_payment (ne_store N) (n_node_store n) p) \<and>
     n_onchain_wallet n' = n_onchain_wallet n"
  by (auto simp: record_payment_def split: prod.splits)

lemma send_invoice_frame:
  "send_invoice N n invoice msat = (r, n') \<Longrightarrow> n_node_store n' = n_node_store n \<and>
     n_onchain_wallet n' = n_onchain_wallet n \<and> (\<forall>p. r = Inr p \<longrightarrow> status p = Pending)"
  by (auto simp: send_invoice_def outbound_payment_def and_then_Inr_iff split: sum.splits prod.splits)

lemma pay_bolt11_invoice_adds:
  assumes "pay_bolt11_invoice N n invoice msat = (r, n')"
  shows "adds_pending (ne_store N) (n_node_store n) (n_node_store n') \<and> n_onchain_wallet n' = n_onchain_wallet n"
proof -
  obtain x n1 where sent: "send_invoice N n invoice msat = (x, n1)" by (cases "send_invoice N n invoice msat")
  note frame = send_invoice_frame [OF sent]
  show ?thesis
  proof (cases x)
    case (Inl e)
    with sent assms frame show ?thesis by (simp add: pay_bolt11_invoice_def)
  next
    case (Inr p)
    with sent assms have "record_payment N n1 p = (r, n')" by (simp add: pay_bolt11_invoice_def)
    from record_payment_adds [OF this] frame Inr show ?thesis unfolding adds_pending_def by auto
  qed
qed

lemma create_bolt11_invoice_adds:
  "create_bolt11_invoice N n msat = (r, n') \<Longrightarrow>
     adds_pending (ne_store N) (n_node_store n) (n_node_store n') \<and> n_onchain_wallet n' = n_onchain_wallet n"
  by (auto simp: create_bolt11_invoice_def inbound_payment_of_def split: sum.splits prod.splits
      intro: adds_pendingI)

lemma handle_connection_cases:
  assumes "handle_connection E n data rand_id = (r, n')"
  shows "n_node_store n' = n_node_store n \<and> n_onchain_wallet n' = n_onchain_wallet n \<or>
    (\<exists>invoice x. pay_bolt11_invoice (se_node E) n invoice None = (x, n')) \<or>
    (\<exists>msat x. create_bolt11_invoice (se_node E) n msat = (x, n')) \<or>
    (\<exists>x. new_onchain_address (se_node E) n = (x, n'))"
  using assms
  by (auto simp: handle_connection_def serve_defs open_channel_def close_channel_def
      split: outcome.splits prod.splits sum.splits if_splits option.splits)

lemma new_onchain_address_frame:
  "new_onchain_address N n = (r, n') \<Longrightarrow> n_node_store n' = n_node_store n \<and>
     poisoned (n_onchain_wallet n') = poisoned (n_onchain_wallet n)"
  by (auto simp: new_onchain_address_def with_lock_def split: prod.splits if_splits)

lemma handle_connection_effect:
  assumes "handle_connection E n data rand_id = (r, n')"
  shows "adds_pending (ne_store (se_node E)) (n_node_store n) (n_node_store n')"
    and "poisoned (n_onchain_wallet n') = poisoned (n_onchain_wallet n)"
  using handle_connection_cases [OF assms] pay_bolt11_invoice_adds create_bolt11_invoice_adds
    new_onchain_address_frame adds_pending_refl by metis+

section \<open>The stored payments over the steps of all tasks\<close>

definition has_status :: "payment_status \<Rightarrow> payment option \<Rightarrow> bool" where
  "has_status st x = (case x of None \<Rightarrow> False | Some p \<Rightarrow> status p = st)"

text \<open>The step handles an event that gives payment \<open>i\<close> the status \<open>st\<close>.\<close>

definition concludes :: "payment_id \<Rightarrow> payment_status \<Rightarrow> task_step \<Rightarrow> bool" where
  "concludes i st a \<longleftrightarrow> (\<exists>e. a = Event e \<and> event_target e = Some i \<and> event_status e = st)"

lemma has_status_event:
  "has_status st (map_option (event_effect i e) x) \<Longrightarrow> has_status st x \<or> concludes i st (Event e)"
  by (cases x; cases "event_target e = Some i")
    (auto simp: has_status_def concludes_def event_effect_status event_effect_other)

abbreviation sys_env_store :: "('kv, 'cm, 'w, 'p, 'pm) server_env \<Rightarrow> 'kv store_env" where
  "sys_env_store E \<equiv> ne_store (se_node E)"

lemma adds_pending_view:
  assumes "store_laws S" and "writable S good" and "payments_wf S kv" and "good kv" and "adds_pending S kv kv'"
  shows "payments_wf S kv' \<and> good kv'"
    and "st \<noteq> Pending \<Longrightarrow> has_status st (payments_view S kv' i) \<Longrightarrow> has_status st (payments_view S kv i)"
    and "peers_view S kv' = peers_view S kv \<and> peers_wf S kv' = peers_wf S kv"
proof -
  consider "kv' = kv" | p where "status p = Pending" "add_payment S kv p = (Inr (), kv')" "good kv'"
    using assms(5) writableD [OF assms(2,4)] unfolding adds_pending_def by (metis snd_conv)
  note cases = this
  show "payments_wf S kv' \<and> good kv'" using assms(3,4) payments.put_wf [OF assms(1,3)] by (cases rule: cases) auto
  show "has_status st (payments_view S kv i)" if "st \<noteq> Pending" "has_status st (payments_view S kv' i)"
    using that payments.put_refines [OF assms(1)]
    by (cases rule: cases) (auto simp: has_status_def split: if_splits)
  show "peers_view S kv' = peers_view S kv \<and> peers_wf S kv' = peers_wf S kv"
    using add_payment_peers [OF assms(1)] by (cases rule: cases) auto
qed

text \<open>Between the halves of a payment call, the payment to be recorded is pending.\<close>

definition system_inv :: "'kv store_env \<Rightarrow> ('kv \<Rightarrow> bool) \<Rightarrow> ('kv, 'cm, 'w, 'pm, 'b, 'mon) system \<Rightarrow> bool" where
  "system_inv S good s \<longleftrightarrow> payments_wf S (sys_store s) \<and> peers_wf S (sys_store s) \<and> good (sys_store s) \<and>
     (\<forall>p \<in> set (flow_calls (sys_flow s)). status p = Pending)"

text \<open>A step either handles an event or adds at most one pending payment to the store.\<close>

lemma system_step_store:
  assumes "system_step E H L s a s'"
    and "\<forall>p \<in> set (flow_calls (sys_flow s)). status p = Pending"
  shows "(\<exists>e r h. a = Event e \<and> handle_event H (handler_of (sys_flow s)) e = (r, h) \<and> sys_store s' = node_store h) \<or>
      adds_pending (sys_env_store E) (sys_store s) (sys_store s')"
    and "\<forall>p \<in> set (flow_calls (sys_flow s')). status p = Pending"
  using assms
  by (induction rule: system_step.induct)
    (auto simp: set_node_def with_handler_def with_listener_def dest!: handle_connection_effect(1) send_invoice_frame
      record_payment_adds intro: adds_pending_def [THEN iffD2])

text \<open>One event, whether it returns or panics.\<close>

lemma handle_event_inv:
  assumes "store_laws S" and "writable S good" and "env_store H = S"
    and "payments_wf S (node_store h)" and "good (node_store h)" and "handle_event H h e = (r, h')"
  shows "payments_wf S (node_store h') \<and> good (node_store h')"
    and "peers_view S (node_store h') = peers_view S (node_store h) \<and> peers_wf S (node_store h') = peers_wf S (node_store h)"
    and "has_status st (payments_view S (node_store h') i) \<Longrightarrow>
      has_status st (payments_view S (node_store h) i) \<or> concludes i st (Event e)"
proof -
  show "peers_view S (node_store h') = peers_view S (node_store h) \<and> peers_wf S (node_store h') = peers_wf S (node_store h)"
    using handle_event_peers [of H h e] assms(1,3,6) by simp
  have wf: "payments_wf S (node_store h') \<and> good (node_store h')"
    and view: "payments_view S (node_store h') i = map_option (event_effect i e) (payments_view S (node_store h) i) \<or>
      node_store h' = node_store h"
  proof (atomize (full), cases r)
    case (Return x)
    from handle_event_view [OF assms(1,3,2,4,5) assms(6) [unfolded Return]]
    show "(payments_wf S (node_store h') \<and> good (node_store h')) \<and>
      (payments_view S (node_store h') i = map_option (event_effect i e) (payments_view S (node_store h) i) \<or>
       node_store h' = node_store h)"
      by blast
  next
    case (Panic m)
    from handle_event_panic_store [OF assms(6) [unfolded Panic]] assms(4,5)
    show "(payments_wf S (node_store h') \<and> good (node_store h')) \<and>
      (payments_view S (node_store h') i = map_option (event_effect i e) (payments_view S (node_store h) i) \<or>
       node_store h' = node_store h)"
      by simp
  qed
  from wf show "payments_wf S (node_store h') \<and> good (node_store h')" .
  show "has_status st (payments_view S (node_store h) i) \<or> concludes i st (Event e)"
    if "has_status st (payments_view S (node_store h') i)"
    using view that has_status_event [of st i e] by auto
qed

lemma system_step_inv:
  assumes "store_laws (sys_env_store E)" and "writable (sys_env_store E) good" and "env_store H = sys_env_store E"
    and "system_step E H L s a s'" and "system_inv (sys_env_store E) good s"
  shows "system_inv (sys_env_store E) good s' \<and> peers_view (sys_env_store E) (sys_store s') =
      peers_view (sys_env_store E) (sys_store s)"
    and "st \<noteq> Pending \<Longrightarrow> has_status st (payments_view (sys_env_store E) (sys_store s') i) \<Longrightarrow>
      has_status st (payments_view (sys_env_store E) (sys_store s) i) \<or> concludes i st a"
proof -
  let ?S = "sys_env_store E"
  have inv: "payments_wf ?S (sys_store s)" "peers_wf ?S (sys_store s)" "good (sys_store s)"
    "\<forall>p \<in> set (flow_calls (sys_flow s)). status p = Pending"
    using assms(5) by (simp_all add: system_inv_def)
  note pending = system_step_store(2) [OF assms(4) inv(4)]
  from system_step_store(1) [OF assms(4) inv(4)] show
    "system_inv ?S good s' \<and> peers_view ?S (sys_store s') = peers_view ?S (sys_store s)"
    "st \<noteq> Pending \<Longrightarrow> has_status st (payments_view ?S (sys_store s') i) \<Longrightarrow>
      has_status st (payments_view ?S (sys_store s) i) \<or> concludes i st a"
  proof (atomize (full), elim disjE exE conjE)
    fix e r h
    assume e: "a = Event e" "handle_event H (handler_of (sys_flow s)) e = (r, h)" "sys_store s' = node_store h"
    have same: "node_store (handler_of (sys_flow s)) = sys_store s" by (simp add: handler_of_def)
    note event = handle_event_inv [OF assms(1-3) _ _ e(2), unfolded same, OF inv(1,3)]
    show "(system_inv ?S good s' \<and> peers_view ?S (sys_store s') = peers_view ?S (sys_store s)) \<and>
       (st \<noteq> Pending \<longrightarrow> has_status st (payments_view ?S (sys_store s') i) \<longrightarrow>
        has_status st (payments_view ?S (sys_store s) i) \<or> concludes i st a)"
      using event(1,2) event(3) [of st i] e(1,3) inv pending by (simp add: system_inv_def)
  next
    assume "adds_pending ?S (sys_store s) (sys_store s')"
    note view = adds_pending_view [OF assms(1,2) inv(1,3) this]
    with inv pending show "(system_inv ?S good s' \<and> peers_view ?S (sys_store s') = peers_view ?S (sys_store s)) \<and>
       (st \<noteq> Pending \<longrightarrow> has_status st (payments_view ?S (sys_store s') i) \<longrightarrow>
        has_status st (payments_view ?S (sys_store s) i) \<or> concludes i st a)"
      by (auto simp: system_inv_def)
  qed
qed

text \<open>The running node as a step relation: its environment also names the peers, which no step changes.\<close>

definition outcome :: "payment_status \<times> payment_id \<Rightarrow> (payment_id \<Rightarrow> payment option) \<Rightarrow> bool" where
  "outcome k m = (case k of (st, i) \<Rightarrow> st \<noteq> Pending \<and> has_status st (m i))"

definition system_laws :: "('kv, 'cm, 'w, 'p, 'pm) server_env \<times> ('kv, 'cm, 'w, 'p, 'b) handler_env \<times>
    ('cm, 'mon) listen_ops \<times> ('kv \<Rightarrow> bool) \<times> (public_key \<Rightarrow> peer_info option) \<Rightarrow> bool" where
  "system_laws e = (case e of (E, H, L, good, ps) \<Rightarrow>
     store_laws (sys_env_store E) \<and> writable (sys_env_store E) good \<and> env_store H = sys_env_store E)"

interpretation node_steps: caused_steps system_laws "\<lambda>(E, H, L, good, ps). system_step E H L"
  "\<lambda>(E, H, L, good, ps) s. system_inv (sys_env_store E) good s \<and> peers_view (sys_env_store E) (sys_store s) = ps"
  "\<lambda>(E, H, L, good, ps) k s. outcome k (payments_view (sys_env_store E) (sys_store s))"
  "\<lambda>e (st, i). concludes i st"
  by unfold_locales (auto simp: system_laws_def outcome_def dest: system_step_inv)

lemma system_run_inv:
  assumes "store_laws (sys_env_store E)" and "writable (sys_env_store E) good" and "env_store H = sys_env_store E"
    and "system_run E H L s as s'"
  shows "system_inv (sys_env_store E) good s \<Longrightarrow> system_inv (sys_env_store E) good s' \<and>
    peers_view (sys_env_store E) (sys_store s') = peers_view (sys_env_store E) (sys_store s)"
    and "system_inv (sys_env_store E) good s \<Longrightarrow> st \<noteq> Pending \<Longrightarrow>
      has_status st (payments_view (sys_env_store E) (sys_store s') i) \<Longrightarrow>
      has_status st (payments_view (sys_env_store E) (sys_store s) i) \<or> (\<exists>a \<in> set as. concludes i st a)"
  using assms node_steps.steps_inv [of "(E, H, L, good, peers_view (sys_env_store E) (sys_store s))" s as s']
    node_steps.steps_cause [of "(E, H, L, good, peers_view (sys_env_store E) (sys_store s))" s as s' "(st, i)"]
  by (auto simp: system_laws_def outcome_def)

section \<open>Tasks that have ended\<close>

fun task_alive :: "task_step \<Rightarrow> ('kv, 'cm, 'w, 'pm, 'b, 'mon) system \<Rightarrow> bool" where
  "task_alive (Event e) s = handler_alive s"
| "task_alive (Notification n) s = chain_alive s"
| "task_alive (PollFailed e) s = chain_alive s"
| "task_alive (BackgroundFailed e) s = handler_alive s"
| "task_alive (StartDone synced ns) s = (sys_start s = Starting)"
| "task_alive (WalletSync emitted) s = chain_alive s"
| "task_alive _ s = server_alive s"

lemma listener_alive [simp]:
  "handler_alive (with_listener s l) = handler_alive s" "chain_alive (with_listener s l) = chain_alive s"
  "server_alive (with_listener s l) = server_alive s" "handler_alive (set_node s n) = handler_alive s"
  "chain_alive (set_node s n) = chain_alive s" "server_alive (set_node s n) = server_alive s"
  "sys_start (with_listener s l) = sys_start s" "sys_start (set_node s n) = sys_start s"
  by (simp_all add: with_listener_def set_node_def)

lemma system_step_alive:
  assumes "system_step E H L s a s'"
  shows "task_alive a s" and "task_alive b s' \<Longrightarrow> task_alive b s"
  using assms by (induction rule: system_step.induct; cases b; auto simp: start_result_def split: sum.splits)+

lemma system_run_alive:
  assumes "system_run E H L s as s'"
  shows "a \<in> set as \<Longrightarrow> task_alive a s" and "task_alive b s' \<Longrightarrow> task_alive b s"
  by (rule steps_guard [where guard = task_alive, OF _ _ assms]; (assumption | erule (1) system_step_alive(2) | erule system_step_alive(1)))+

lemma panicking_event:
  assumes "system_step E H L s (Event e) s1" and "handler_panics H (handler_of (sys_flow s)) e"
    and "\<And>t. \<not> panics (env_estimate H t)"
  shows "\<not> handler_alive s1" and "sys_store s1 = sys_store s"
proof -
  obtain r h where h: "handle_event H (handler_of (sys_flow s)) e = (r, h)"
      "s1 = s\<lparr>sys_flow := with_handler (sys_flow s) h, handler_alive := \<not> panics r\<rparr>"
    using assms(1) by (auto elim: system_event_stepE)
  with handle_event_panics(1) [of H, OF assms(3)] assms(2) have "panics r" by (metis fst_conv)
  then obtain m where r: "r = Panic m" by (cases r) auto
  from h(2) handle_event_panic_store [OF h(1) [unfolded r]] r
  show "\<not> handler_alive s1" and "sys_store s1 = sys_store s" by (auto simp: with_handler_def handler_of_def)
qed

lemma dead_handler_run:
  assumes "system_run E H L s as s'" and "\<not> handler_alive s"
  shows "\<not> handler_alive s'" and "Event e \<notin> set as"
  using system_run_alive(2) [OF assms(1), of "Event e"] system_run_alive(1) [OF assms(1), of "Event e"] assms(2)
  by auto

text \<open>No event is handled before the start is done, and none at all when it failed.\<close>

lemma started_step:
  "system_step E H L s (Event e) s' \<Longrightarrow> sys_start s = Started"
  by (erule system_event_stepE) simp

lemma failed_start_step:
  "system_step E H L s a s' \<Longrightarrow> sys_start s = StartFailed e \<Longrightarrow> sys_start s' = StartFailed e"
  by (induction rule: system_step.induct) simp_all

lemma failed_start_after:
  "system_run E H L s as s' \<Longrightarrow> sys_start s = StartFailed e \<Longrightarrow> sys_start s' = StartFailed e \<and> Event ev \<notin> set as"
  by (induction rule: steps.induct) (auto dest: started_step failed_start_step)

lemma failed_start_run:
  "system_run E H L s as s' \<Longrightarrow> StartDone (Inl e) ns \<in> set as \<Longrightarrow> sys_start s' = StartFailed e \<and> Event ev \<notin> set as"
proof (induction rule: steps.induct)
  case (steps_more s a s1 as s')
  show ?case
  proof (cases "a = StartDone (Inl e) ns")
    case True
    with steps_more.hyps(1) have "sys_start s1 = StartFailed e"
      by (cases rule: system_step.cases) (simp_all add: start_result_def)
    with failed_start_after [OF steps_more.hyps(2)] True show ?thesis by auto
  next
    case False
    with steps_more.prems have later: "StartDone (Inl e) ns \<in> set as" by simp
    from system_run_alive(1) [OF steps_more.hyps(2) later] have "sys_start s1 = Starting" by simp
    then have "sys_start s = Starting"
      using system_step_alive(2) [OF steps_more.hyps(1), of "StartDone (Inl e) ns"] by simp
    with steps_more.IH [OF later] started_step [of E H L s _ s1] steps_more.hyps(1) show ?thesis by auto
  qed
qed simp

text \<open>Only \<open>main\<close> cancels the shutdown token, and only its own steps end the server.\<close>

lemma payment_token:
  "send_invoice N n invoice msat = (r, n') \<Longrightarrow> n_shutdown_token n' = n_shutdown_token n"
  "record_payment N n p = (r', n') \<Longrightarrow> n_shutdown_token n' = n_shutdown_token n"
  by (auto simp: send_invoice_def record_payment_def split: prod.splits sum.splits)

lemma pay_token: "pay_bolt11_invoice N n invoice msat = (r, n') \<Longrightarrow> n_shutdown_token n' = n_shutdown_token n"
  by (auto simp: pay_bolt11_invoice_def dest: payment_token split: prod.splits sum.splits)

lemma connection_token:
  "handle_connection E n data rand_id = (r, n') \<Longrightarrow> n_shutdown_token n' = n_shutdown_token n"
  by (auto simp: handle_connection_def serve_defs open_channel_def close_channel_def create_bolt11_invoice_def
      new_onchain_address_def split: outcome.splits prod.splits sum.splits if_splits option.splits dest: pay_token)

lemma system_step_token:
  "system_step E H L s a s' \<Longrightarrow> n_shutdown_token (sys_node s') = n_shutdown_token (sys_node s)"
  by (induction rule: system_step.induct)
    (auto simp: set_node_def with_handler_def with_listener_def dest: connection_token payment_token)

lemma system_run_token:
  assumes "system_run E H L s as s'"
  shows "n_shutdown_token (sys_node s') = n_shutdown_token (sys_node s)"
  using steps_keep [where I = "\<lambda>x. n_shutdown_token (sys_node x) = n_shutdown_token (sys_node s)", OF _ assms]
    system_step_token by metis

lemma started_run:
  assumes "system_run E H L s as s'"
  shows "sys_start s = Started \<Longrightarrow> sys_start s' = Started"
  by (rule steps_keep [where I = "\<lambda>x. sys_start x = Started", OF _ assms]) (erule system_step.cases; simp)+

fun serves :: "task_step \<Rightarrow> bool" where
  "serves (Request data rand_id drawn writes) = True"
| "serves (EndPayment writes) = True"
| "serves _ = False"

lemma system_step_serving: "system_step E H L s a s' \<Longrightarrow> \<not> serves a \<Longrightarrow> server_alive s' = server_alive s"
  by (induction rule: system_step.induct) simp_all

lemma system_run_serving:
  "system_run E H L s as s' \<Longrightarrow> \<forall>a \<in> set as. \<not> serves a \<Longrightarrow> server_alive s' = server_alive s"
  by (induction rule: steps.induct) (simp_all add: system_step_serving)

section \<open>The poisoned wallet\<close>

text \<open>LDK's fee-bumping handler takes the wallet's lock like everybody else: it does not clear its poison.\<close>

definition bump_keeps_poison :: "('kv, 'cm, 'w, 'p, 'b) handler_env \<Rightarrow> bool" where
  "bump_keeps_poison H \<longleftrightarrow> (\<forall>b m x. poisoned m \<longrightarrow> poisoned (snd (snd (env_bump H b m x))))"

abbreviation wallet_poisoned :: "('kv, 'cm, 'w, 'pm, 'b, 'mon) system \<Rightarrow> bool" where
  "wallet_poisoned s \<equiv> poisoned (n_onchain_wallet (sys_node s))"

lemma handle_event_poisoned:
  assumes "bump_keeps_poison H" and "poisoned (onchain_wallet s)"
  shows "poisoned (onchain_wallet (snd (handle_event H s e)))"
  using assms
  by (cases "(H, s, e)" rule: handle_event.cases)
    (auto simp: handler_defs with_lock_def bump_keeps_poison_def Let_def split: handler_splits,
      (metis snd_conv)+)

lemma notify_poisoned: "poisoned (l_wallet l) \<Longrightarrow> poisoned (l_wallet (snd (notify L B l n)))"
  by (cases n) (simp_all add: filtered_block_connected_def wallet_apply_block_def with_lock_def
      blocks_disconnected_def Let_def)

lemma system_step_poisoned:
  assumes "bump_keeps_poison H" and "system_step E H L s a s'" and "wallet_poisoned s"
  shows "wallet_poisoned s'"
  using assms(2,3)
proof (induction rule: system_step.induct)
  case (event s e r h)
  with handle_event_poisoned [OF assms(1), of "handler_of (sys_flow s)" e] show ?case
    by (simp add: handler_of_def with_handler_def)
next
  case (request s data rand_id r n drawn writes)
  with handle_connection_effect(2) [OF request(3)] show ?case by (simp add: set_node_def)
next
  case (notified s n r l)
  with notify_poisoned [of "listener_of s" L "ne_bdk (se_node E)" n] show ?case
    by (simp add: listener_of_def with_listener_def set_node_def)
next
  case (wallet_sync s emitted r lock)
  then show ?case by (auto simp: initial_sync_def with_lock_def set_node_def)
qed (auto simp: set_node_def dest!: send_invoice_frame record_payment_adds)

lemma system_run_poisoned:
  assumes "bump_keeps_poison H" and "system_run E H L s as s'"
  shows "wallet_poisoned s \<Longrightarrow> wallet_poisoned s'"
  by (rule steps_keep [where I = wallet_poisoned, OF system_step_poisoned [OF assms(1)] assms(2)])

text \<open>The steps that use the wallet: funding a channel, connecting a block, the balance and a new address.\<close>

fun needs_wallet :: "('kv, 'cm, 'w, 'p, 'pm) server_env \<Rightarrow> task_step \<Rightarrow> bool" where
  "needs_wallet E (Event (FundingGenerationReady c k value script)) = True"
| "needs_wallet E (Event (OpenChannelRequest c k value anchors)) = anchors"
| "needs_wallet E (Notification (Connected header txdata height)) = True"
| "needs_wallet E (WalletSync emitted) = True"
| "needs_wallet E (Request data rand_id drawn writes) =
     (case Option.bind (requested E data) (\<lambda>j. json_as_str (json_index j ''method'')) of
        None \<Rightarrow> False | Some method \<Rightarrow> method = ''balance'' \<or> method = ''new_address'')"
| "needs_wallet E _ = False"

lemma handle_connection_requested:
  "requested E data = Some j \<Longrightarrow> handle_connection E n data rand_id = serve E rand_id n j"
  by (auto simp: requested_def handle_connection_def split: sum.splits)

lemma needs_wallet_panics:
  assumes "system_step E H L s a s'" and "wallet_poisoned s" and "needs_wallet E a"
  shows "\<not> task_alive a s'"
  using assms
proof (induction rule: system_step.induct)
  case (event s e r h)
  then show ?case
    by (cases e) (auto simp: handler_of_def handle_funding_generation_ready_def handle_open_channel_request_eq
        with_lock_def split: if_splits)
next
  case (wallet_sync s emitted r lock)
  then show ?case by (auto simp: initial_sync_def with_lock_def)
next
  case (request s data rand_id r n drawn writes)
  from request.prems obtain j where j: "requested E data = Some j"
      "json_as_str (json_index j ''method'') = Some ''balance'' \<or> json_as_str (json_index j ''method'') = Some ''new_address''"
    by (cases "requested E data") (auto split: option.splits)
  with request handle_connection_requested [OF j(1), of "sys_node s" rand_id] show ?case
    by (auto simp: serve_def serve_balance_def serve_new_address_def balance_def new_onchain_address_def read_lock_def
        with_lock_def replied_def answered_def)
next
  case (notified s n r l)
  then show ?case
    by (cases n) (auto simp: filtered_block_connected_def wallet_apply_block_def with_lock_def listener_of_def Let_def)
qed simp_all

section \<open>Running the relation\<close>

text \<open>The relation is a partial function of the state and the step, which the witnesses evaluate.\<close>

fun system_exec :: "('kv, 'cm, 'w, 'p, 'pm) server_env \<Rightarrow> ('kv, 'cm, 'w, 'p, 'b) handler_env \<Rightarrow>
    ('cm, 'mon) listen_ops \<Rightarrow> ('kv, 'cm, 'w, 'pm, 'b, 'mon) system \<Rightarrow> task_step \<Rightarrow>
    ('kv, 'cm, 'w, 'pm, 'b, 'mon) system option" where
  "system_exec E H L s (Event e) =
     (if handler_alive s \<and> sys_start s = Started then
        (case handle_event H (handler_of (sys_flow s)) e of
           (r, h) \<Rightarrow> Some (s\<lparr>sys_flow := with_handler (sys_flow s) h, handler_alive := \<not> panics r\<rparr>))
      else None)"
| "system_exec E H L s (Request data rand_id drawn writes) =
     (if server_alive s \<and> flow_calls (sys_flow s) = [] \<and> drawn = drawn_invoice E (sys_node s) data then
        (case handle_connection E (sys_node s) data rand_id of
           (r, n) \<Rightarrow> Some ((set_node s n)\<lparr>server_alive := answered r \<and> writes\<rparr>))
      else None)"
| "system_exec E H L s (BeginPayment invoice) =
     (if server_alive s \<and> flow_calls (sys_flow s) = [] then
        (case send_invoice (se_node E) (sys_node s) invoice None of
           (Inr p, n) \<Rightarrow> Some (s\<lparr>sys_flow := (sys_flow s)\<lparr>flow_node := n, flow_calls := [p]\<rparr>\<rparr>)
         | (Inl e, n) \<Rightarrow> None)
      else None)"
| "system_exec E H L s (EndPayment writes) =
     (case flow_calls (sys_flow s) of
        [p] \<Rightarrow> if server_alive s then
            (case record_payment (se_node E) (sys_node s) p of
               (r, n) \<Rightarrow> Some (s\<lparr>sys_flow := (sys_flow s)\<lparr>flow_node := n, flow_calls := []\<rparr>, server_alive := writes\<rparr>))
          else None
      | _ \<Rightarrow> None)"
| "system_exec E H L s (Notification n) =
     (if chain_alive s \<and> sys_start s = Started \<and> wallet_synced s then
        (case notify L (ne_bdk (se_node E)) (listener_of s) n of
           (r, l) \<Rightarrow> Some ((with_listener s l)\<lparr>chain_alive := \<not> panics r\<rparr>))
      else None)"
| "system_exec E H L s (PollFailed e) =
     (if chain_alive s \<and> sys_start s = Started \<and> wallet_synced s then Some (s\<lparr>chain_alive := False\<rparr>) else None)"
| "system_exec E H L s (BackgroundFailed e) =
     (if handler_alive s \<and> sys_start s = Started then Some (s\<lparr>handler_alive := False\<rparr>) else None)"
| "system_exec E H L s (StartDone synced ns) =
     (if sys_start s = Starting then
        Some ((set_node s ((sys_node s)\<lparr>n_channel_manager := fold (manager_notify L) ns (n_channel_manager (sys_node s))\<rparr>))
          \<lparr>sys_start := start_result synced\<rparr>)
      else None)"
| "system_exec E H L s (WalletSync emitted) =
     (if chain_alive s \<and> sys_start s = Started \<and> \<not> wallet_synced s then
        (case initial_sync (ne_bdk (se_node E)) (\<lambda>rpc w. emitted) (n_onchain_wallet (sys_node s)) of
           (r, lock) \<Rightarrow> Some ((set_node s ((sys_node s)\<lparr>n_onchain_wallet := lock\<rparr>))
             \<lparr>wallet_synced := True, chain_alive := \<not> panics r\<rparr>))
      else None)"

lemma system_exec_iff: "system_step E H L s a s' \<longleftrightarrow> system_exec E H L s a = Some s'"
proof
  assume "system_step E H L s a s'"
  then show "system_exec E H L s a = Some s'" by (induction rule: system_step.induct) simp_all
next
  assume "system_exec E H L s a = Some s'"
  then show "system_step E H L s a s'"
    by (cases a) (auto split: if_splits prod.splits sum.splits list.splits intro: system_step.intros)
qed

fun system_exec_run :: "('kv, 'cm, 'w, 'p, 'pm) server_env \<Rightarrow> ('kv, 'cm, 'w, 'p, 'b) handler_env \<Rightarrow>
    ('cm, 'mon) listen_ops \<Rightarrow> ('kv, 'cm, 'w, 'pm, 'b, 'mon) system \<Rightarrow> task_step list \<Rightarrow>
    ('kv, 'cm, 'w, 'pm, 'b, 'mon) system option" where
  "system_exec_run E H L s [] = Some s"
| "system_exec_run E H L s (a # as) = Option.bind (system_exec E H L s a) (\<lambda>s1. system_exec_run E H L s1 as)"

lemma system_exec_run_iff: "system_run E H L s as s' \<longleftrightarrow> system_exec_run E H L s as = Some s'"
  by (induction as arbitrary: s) (auto simp: steps_Cons system_exec_iff bind_eq_Some_conv)

section \<open>A concrete node for the witnesses\<close>

definition idle_listeners :: "(cm_log, best_block) listen_ops" where
  "idle_listeners =
     \<lparr>cm_block_connected = (\<lambda>cm h t n. cm), cm_blocks_disconnected = (\<lambda>cm b. cm),
      mon_block_connected = (\<lambda>m h t n. (h, n)), mon_blocks_disconnected = (\<lambda>m b. b)\<rparr>"

definition sample_system :: "(mem_store, cm_log, u64, peer_details list, u8, best_block) system" where
  "sample_system = \<lparr>sys_flow = sample_flow, sys_monitor = ([], 0), sys_start = Started,
     wallet_synced = True, handler_alive = True, chain_alive = True,
     server_alive = True\<rparr>"

definition system_after :: "task_step list \<Rightarrow> (mem_store, cm_log, u64, peer_details list, u8, best_block) system" where
  "system_after as = (case system_exec_run sample_server sample_handler idle_listeners sample_system as of
     None \<Rightarrow> sample_system | Some s \<Rightarrow> s)"

lemma system_afterI:
  "(case system_exec_run sample_server sample_handler idle_listeners sample_system as of None \<Rightarrow> False | Some s \<Rightarrow> True) \<Longrightarrow>
     system_run sample_server sample_handler idle_listeners sample_system as (system_after as)"
  by (simp add: system_exec_run_iff system_after_def split: option.splits)

lemma sample_system_laws:
  "store_laws (sys_env_store sample_server)" "writable (sys_env_store sample_server) (\<lambda>kv. \<not> write_fails kv)"
  "env_store sample_handler = sys_env_store sample_server"
  "system_inv (sys_env_store sample_server) (\<lambda>kv. \<not> write_fails kv) sample_system"
proof -
  have "\<not> write_fails empty_store" by (simp add: empty_store_def)
  then show "store_laws (sys_env_store sample_server)" "writable (sys_env_store sample_server) (\<lambda>kv. \<not> write_fails kv)"
    "env_store sample_handler = sys_env_store sample_server"
    "system_inv (sys_env_store sample_server) (\<lambda>kv. \<not> write_fails kv) sample_system"
    by (simp_all add: sample_server_def ref_env_laws ref_writable system_inv_def sample_system_def sample_flow_def
        empty_store_wf)
qed

lemma sample_fees: "\<not> panics (env_estimate sample_handler t)"
proof -
  obtain r where "fee_cache (new_bitcoind_client ()) t = Some r"
    using new_client_ok [of "()"] unfolding fee_cache_ok_def by blast
  then show ?thesis by (simp add: get_est_sat_per_1000_weight_def)
qed

definition paid_steps :: "task_step list" where
  "paid_steps = [BeginPayment sample_invoice, EndPayment True, Event sent_event]"

lemma paid_run: "system_run sample_server sample_handler idle_listeners sample_system paid_steps (system_after paid_steps)"
  by (rule system_afterI) code_simp

section \<open>Properties\<close>

text \<open>
  C14: the invariant of the running node: whatever the tasks do, in whatever order, and also when some of them
  panic, every record of the store stays typed under its own key, the stored peers stay as they were, a payment
  that is about to be recorded is pending, and a task that has ended takes no step and stays ended.
\<close>

theorem running_node_invariant:
  assumes "store_laws (sys_env_store E)" and "writable (sys_env_store E) good" and "env_store H = sys_env_store E"
    and "system_inv (sys_env_store E) good s" and "system_run E H L s as s'"
  shows "system_inv (sys_env_store E) good s' \<and>
    peers_view (sys_env_store E) (sys_store s') = peers_view (sys_env_store E) (sys_store s) \<and>
    (\<forall>a. \<not> task_alive a s \<longrightarrow> a \<notin> set as \<and> \<not> task_alive a s')"
  using system_run_inv(1) [OF assms(1-3,5,4)] system_run_alive [OF assms(5)] by blast

theorem running_node_invariant_witness:
  "system_inv ref_env (\<lambda>kv. \<not> write_fails kv) (system_after paid_steps) \<and>
   peers_view ref_env (sys_store (system_after paid_steps)) = peers_view ref_env (sys_store sample_system)"
proof -
  have "sys_env_store sample_server = ref_env" by (simp add: sample_server_def)
  with running_node_invariant [OF sample_system_laws paid_run] show ?thesis by simp
qed

text \<open>
  No false outcome: however the server, the event handler and the chain task interleave, a stored payment that
  gets the status \<open>Succeeded\<close> or \<open>Failed\<close> got it from an event with that outcome for its id that was
  handled in between; no request, block or panic ever gives it one.
\<close>

theorem outcome_only_from_event:
  assumes "store_laws (sys_env_store E)" and "writable (sys_env_store E) good" and "env_store H = sys_env_store E"
    and "system_inv (sys_env_store E) good s" and "system_run E H L s as s'" and "st \<noteq> Pending"
    and "has_status st (payments_view (sys_env_store E) (sys_store s') i)"
    and "\<not> has_status st (payments_view (sys_env_store E) (sys_store s) i)"
  shows "\<exists>e. Event e \<in> set as \<and> event_target e = Some i \<and> event_status e = st"
  using system_run_inv(2) [OF assms(1-3,5,4,6,7)] assms(8) by (auto simp: concludes_def)

theorem outcome_only_from_event_witness:
  "has_status Succeeded (payments_view ref_env (sys_store (system_after paid_steps)) (PaymentId [7, 1])) \<and>
   (\<exists>e. Event e \<in> set paid_steps \<and> event_target e = Some (PaymentId [7, 1]) \<and> event_status e = Succeeded)"
proof -
  have "has_status Succeeded (payments_view (sys_env_store sample_server) (sys_store (system_after paid_steps)) (PaymentId [7, 1]))"
    by code_simp
  moreover have "\<not> has_status Succeeded (payments_view (sys_env_store sample_server) (sys_store sample_system) (PaymentId [7, 1]))"
    by code_simp
  moreover have "sys_env_store sample_server = ref_env" by (simp add: sample_server_def)
  ultimately show ?thesis
    using outcome_only_from_event [OF sample_system_laws paid_run, of Succeeded "PaymentId [7, 1]"] by simp
qed

text \<open>
  C23: one panic of the event handler freezes the payments: the background task ends with it, and from then on no
  payment that has not succeeded or failed yet ever does, whatever the server, the chain and LDK do.
\<close>

theorem dead_handler_settles_nothing:
  assumes "store_laws (sys_env_store E)" and "writable (sys_env_store E) good" and "env_store H = sys_env_store E"
    and "system_inv (sys_env_store E) good s" and "system_step E H L s (Event e) s1"
    and "handler_panics H (handler_of (sys_flow s)) e" and "\<And>t. \<not> panics (env_estimate H t)"
    and "system_run E H L s1 as s'" and "st \<noteq> Pending"
    and "\<not> has_status st (payments_view (sys_env_store E) (sys_store s) i)"
  shows "\<not> has_status st (payments_view (sys_env_store E) (sys_store s') i) \<and> \<not> handler_alive s'"
proof -
  note died = panicking_event [of E H L s e s1, OF assms(5-7)]
  have inv: "system_inv (sys_env_store E) good s1" using system_step_inv(1) [OF assms(1-3,5,4)] by simp
  from system_run_inv(2) [OF assms(1-3,8) inv assms(9), of i] dead_handler_run [OF assms(8) died(1)] died(2) assms(10)
  show ?thesis by (auto simp: concludes_def)
qed

definition stuck_event :: event where
  "stuck_event = PaymentSent None (PaymentPreimage [3]) (PaymentHash [7, 1]) (Some 2)"

theorem dead_handler_settles_nothing_witness:
  "\<exists>s1 s'. system_step sample_server sample_handler idle_listeners
       (system_after [BeginPayment sample_invoice, EndPayment True]) (Event stuck_event) s1 \<and>
     system_run sample_server sample_handler idle_listeners s1 [BeginPayment sample_invoice, EndPayment True] s' \<and>
     \<not> has_status Succeeded (payments_view (sys_env_store sample_server) (sys_store s') (PaymentId [7, 1]))"
proof -
  let ?s = "system_after [BeginPayment sample_invoice, EndPayment True]"
  have run: "system_run sample_server sample_handler idle_listeners sample_system
      [BeginPayment sample_invoice, EndPayment True] ?s"
    by (rule system_afterI) code_simp
  note inv = system_run_inv(1) [OF sample_system_laws(1-3) run sample_system_laws(4), THEN conjunct1]
  have "case Option.bind (system_exec sample_server sample_handler idle_listeners ?s (Event stuck_event)) (\<lambda>s1.
      system_exec_run sample_server sample_handler idle_listeners s1 [BeginPayment sample_invoice, EndPayment True]) of
      None \<Rightarrow> False | Some s' \<Rightarrow> True"
    by code_simp
  then obtain s1 s' where steps: "system_step sample_server sample_handler idle_listeners ?s (Event stuck_event) s1"
      "system_run sample_server sample_handler idle_listeners s1 [BeginPayment sample_invoice, EndPayment True] s'"
    by (auto simp: system_exec_iff system_exec_run_iff bind_eq_Some_conv split: option.splits simp del: system_exec_run.simps)
  have pending: "\<not> has_status Succeeded (payments_view (sys_env_store sample_server) (sys_store ?s) (PaymentId [7, 1]))"
    by code_simp
  have panics: "handler_panics sample_handler (handler_of (sys_flow ?s)) stuck_event" by (simp add: stuck_event_def)
  have fees: "\<And>t. \<not> panics (env_estimate sample_handler t)"
    by (rule sample_fees)
  from dead_handler_settles_nothing [OF sample_system_laws(1-3) inv steps(1) panics fees steps(2) _ pending] steps
  show ?thesis by blast
qed

text \<open>
  C24: a poisoned wallet takes the node down piece by piece: the lock stays poisoned over every run, and the next
  step of each task that needs the wallet ends that task: the background processor at a funding request or an anchor
  channel, the chain task at a block, the server at a \<open>balance\<close> or \<open>new_address\<close> request.
\<close>

theorem poison_spreads:
  assumes "bump_keeps_poison H" and "wallet_poisoned s" and "system_run E H L s as s'"
    and "system_step E H L s' a s''" and "needs_wallet E a"
  shows "wallet_poisoned s'' \<and> task_alive a s' \<and> \<not> task_alive a s''"
  using system_run_poisoned [OF assms(1,3,2)] system_step_poisoned [OF assms(1,4)] needs_wallet_panics [OF assms(4)]
    system_step_alive(1) [OF assms(4)] assms(5) by blast

definition poisoned_system :: "(mem_store, cm_log, u64, peer_details list, u8, best_block) system" where
  "poisoned_system = set_node sample_system ((sys_node sample_system)\<lparr>n_onchain_wallet := \<lparr>guarded = 700, poisoned = True\<rparr>\<rparr>)"

theorem poison_spreads_witness:
  "\<exists>s' s''. system_run sample_server sample_handler idle_listeners poisoned_system [BeginPayment sample_invoice, EndPayment True] s' \<and>
     system_step sample_server sample_handler idle_listeners s' (Notification (Connected [1] [] 5)) s'' \<and>
     handler_alive s'' \<and> server_alive s'' \<and> \<not> chain_alive s''"
proof -
  have "case Option.bind (system_exec_run sample_server sample_handler idle_listeners poisoned_system
      [BeginPayment sample_invoice, EndPayment True]) (\<lambda>s'. system_exec sample_server sample_handler idle_listeners s'
        (Notification (Connected [1] [] 5))) of None \<Rightarrow> False | Some s'' \<Rightarrow> handler_alive s'' \<and> server_alive s''"
    by code_simp
  then obtain s' s'' where steps:
      "system_run sample_server sample_handler idle_listeners poisoned_system [BeginPayment sample_invoice, EndPayment True] s'"
      "system_step sample_server sample_handler idle_listeners s' (Notification (Connected [1] [] 5)) s''"
      "handler_alive s''" "server_alive s''"
    by (auto simp: system_exec_iff system_exec_run_iff bind_eq_Some_conv split: option.splits
        simp del: system_exec_run.simps system_exec.simps)
  have "bump_keeps_poison sample_handler" by (simp add: bump_keeps_poison_def sample_handler_def)
  moreover have "wallet_poisoned poisoned_system" by (simp add: poisoned_system_def set_node_def)
  moreover have "needs_wallet sample_server (Notification (Connected [1] [] 5))" by simp
  ultimately show ?thesis using poison_spreads [OF _ _ steps(1,2)] steps by auto
qed

end
