(* ===== verification/NodeProcess.thy ===== *)
theory NodeProcess
  imports NodeSystem NodeConfig
begin

text \<open>
  The process: \<open>main\<close> of \<open>src/bin/lnnode.rs\<close> around the running node, the binding of the server's
  socket (\<open>src/server.rs\<close>) and the end of \<open>Node::start\<close> (\<open>src/node.rs\<close>), which stops the background
  processor and saves the peers; and the task of \<open>Node::start\<close> that accepts connections of peers. What
  the operating system answers (files, sockets, signals) is an argument.
\<close>

section \<open>Inbound connections\<close>

text \<open>
  Each \<open>accept\<close> gives an error or a stream with what \<open>into_std\<close> makes of it; a stream is set up in a
  task of its own, so only that task panics when the conversion fails.
\<close>

definition listen_address :: string where
  "listen_address = ''0.0.0.0:9735''"

fun accept_loop :: "(string + (string + 'c)) list \<Rightarrow> unit outcome \<times> 'c list" where
  "accept_loop [] = (Return (), [])"
| "accept_loop (accepted # later) =
     (case unwrap_result accepted of
        Panic m \<Rightarrow> (Panic m, [])
      | Return stream \<Rightarrow>
          (case accept_loop later of
             (r, cs) \<Rightarrow> (r, (case stream of Inl _ \<Rightarrow> cs | Inr c \<Rightarrow> c # cs))))"

definition listen_inbound :: "(string \<Rightarrow> string + unit) \<Rightarrow> (string + (string + 'c)) list \<Rightarrow> unit outcome \<times> 'c list" where
  "listen_inbound bind connections =
     (case unwrap_result (bind listen_address) of
        Panic m \<Rightarrow> (Panic m, [])
      | Return _ \<Rightarrow> accept_loop connections)"

section \<open>The end of Node::start\<close>

text \<open>
  When the shutdown token is cancelled, the background processor is told to stop through a channel whose only
  receivers belong to its own task, so the send fails when the task has ended; it may handle more events
  before it sees the message; the peers are saved after it has been joined.
\<close>

definition stop_node :: "('kv, 'cm, 'w, 'p, 'pm) node_env \<Rightarrow> ('kv, 'cm, 'w, 'p, 'b) handler_env \<Rightarrow> event list \<Rightarrow>
    ('kv, 'cm, 'w, 'pm, 'b, 'mon) system \<Rightarrow> unit outcome \<times> ('kv, 'cm, 'w, 'pm, 'b, 'mon) system" where
  "stop_node N H es s =
     (case unwrap_result (if handler_alive s then Inr () else Inl ()) of
        Panic m \<Rightarrow> (Panic m, s)
      | Return _ \<Rightarrow>
          (case run_events H (handler_of (sys_flow s)) es of
             (joined, h) \<Rightarrow>
               (let s1 = s\<lparr>sys_flow := with_handler (sys_flow s) h, handler_alive := False\<rparr> in
                case unwrap_result (case joined of Panic m \<Rightarrow> Inl m | Return _ \<Rightarrow> Inr ()) of
                  Panic m \<Rightarrow> (Panic m, s1)
                | Return _ \<Rightarrow> (Return (), set_node s1 (persist_and_disconnect_peers N (sys_node s1))))))"

text \<open>
  The task of the node: \<open>start\<close> synchronises first, an error of which is unwrapped by the task; then it
  waits for the token. \<open>None\<close> is a task that has not ended yet.
\<close>

definition node_task :: "('kv, 'cm, 'w, 'p, 'pm) node_env \<Rightarrow> ('kv, 'cm, 'w, 'p, 'b) handler_env \<Rightarrow>
    event list \<Rightarrow> ('kv, 'cm, 'w, 'pm, 'b, 'mon) system \<Rightarrow> unit outcome option \<times> ('kv, 'cm, 'w, 'pm, 'b, 'mon) system" where
  "node_task N H es s =
     (case sys_start s of
        Starting \<Rightarrow> (None, s)
      | StartFailed e \<Rightarrow> (Some (unwrap_result (Inl e)), s)
      | Started \<Rightarrow>
          if n_shutdown_token (sys_node s) then (case stop_node N H es s of (r, s') \<Rightarrow> (Some r, s'))
          else (None, s))"

section \<open>The socket\<close>

text \<open>
  Binding a Unix socket fails when its path exists, and makes the file; nothing removes it but \<open>main\<close>.
  \<open>bind_error\<close> is any other error; the result comes with whether the file exists afterwards.
\<close>

definition new_socket_server :: "string option \<Rightarrow> bool \<Rightarrow> (string + unit) \<times> bool" where
  "new_socket_server bind_error exists =
     (if exists then (Inl ''Address already in use'', True)
      else case bind_error of Some e \<Rightarrow> (Inl e, False) | None \<Rightarrow> (Inr (), True))"

section \<open>main\<close>

text \<open>
  \<open>main\<close> returns a result, panics or waits. \<open>lnnode_setup\<close> is its first half, up to the tasks:
  \<open>config_text\<close> is what reading the file gives, \<open>parse\<close> is \<open>serde_json::from_str\<close>, \<open>builds\<close> is
  \<open>NodeBuilder::build\<close>.
\<close>

datatype main_end = Returned "string + unit" | Panicked string | Waiting

definition lnnode_setup :: "ldk_config \<Rightarrow> string option \<Rightarrow> ('t \<Rightarrow> string + config) \<Rightarrow> (node_builder \<Rightarrow> (string + 'n) outcome) \<Rightarrow>
    string + 't \<Rightarrow> string option \<Rightarrow> bool \<Rightarrow> (main_end + 'n) \<times> bool" where
  "lnnode_setup ldk_default home parse builds config_text bind_error sock =
     (case and_then config_text parse of
        Inl e \<Rightarrow> (Inl (Returned (Inl e)), sock)
      | Inr conf \<Rightarrow>
          (case bind_outcome (lnnode_builder ldk_default home conf) builds of
             Panic m \<Rightarrow> (Inl (Panicked m), sock)
           | Return (Inl e) \<Rightarrow> (Inl (Returned (Inl e)), sock)
           | Return (Inr n) \<Rightarrow>
               (case new_socket_server bind_error sock of
                  (r, sock') \<Rightarrow>
                    (case unwrap_result r of Panic m \<Rightarrow> Inl (Panicked m) | Return _ \<Rightarrow> Inr n, sock'))))"

text \<open>
  The second half, from the signal on. When the signal handler could not be installed nothing is shut
  down, and \<open>main\<close> still waits for the node's task. A task that panicked is an error of the join, which
  \<open>?\<close> returns before the socket's file is removed.
\<close>

definition finish_main :: "unit outcome option \<Rightarrow> string + unit \<Rightarrow> ('kv, 'cm, 'w, 'pm, 'b, 'mon) system \<Rightarrow> bool \<Rightarrow>
    main_end \<times> ('kv, 'cm, 'w, 'pm, 'b, 'mon) system \<times> bool" where
  "finish_main joined removed s sock =
     (case joined of
        None \<Rightarrow> (Waiting, s, sock)
      | Some (Panic m) \<Rightarrow> (Returned (Inl m), s, sock)
      | Some (Return _) \<Rightarrow>
          (case unwrap_result (if sock then removed else Inl ''not found'') of
             Panic m \<Rightarrow> (Panicked m, s\<lparr>server_alive := False\<rparr>, sock)
           | Return _ \<Rightarrow> (Returned (Inr ()), s\<lparr>server_alive := False\<rparr>, False)))"

definition signalled :: "string + unit \<Rightarrow> ('kv, 'cm, 'w, 'pm, 'b, 'mon) system \<Rightarrow> ('kv, 'cm, 'w, 'pm, 'b, 'mon) system" where
  "signalled signal s =
     (case signal of
        Inr _ \<Rightarrow> (set_node s (node_shutdown (sys_node s)))\<lparr>server_alive := False\<rparr>
      | Inl _ \<Rightarrow> s)"

definition lnnode_shutdown :: "('kv, 'cm, 'w, 'p, 'pm) node_env \<Rightarrow> ('kv, 'cm, 'w, 'p, 'b) handler_env \<Rightarrow>
    string + unit \<Rightarrow> event list \<Rightarrow> string + unit \<Rightarrow> ('kv, 'cm, 'w, 'pm, 'b, 'mon) system \<Rightarrow> bool \<Rightarrow>
    main_end \<times> ('kv, 'cm, 'w, 'pm, 'b, 'mon) system \<times> bool" where
  "lnnode_shutdown N H signal es removed s sock =
     (case node_task N H es (signalled signal s) of (joined, s1) \<Rightarrow> finish_main joined removed s1 sock)"

section \<open>How main ends\<close>

lemma accept_loop_prefix:
  "accept_loop (map Inr streams @ Inl e # later) =
     (unwrap_result (Inl e), concat (map (\<lambda>x. case x of Inl _ \<Rightarrow> [] | Inr c \<Rightarrow> [c]) streams))"
  by (induction streams) (auto split: sum.splits)

lemma stop_node_returns:
  "fst (stop_node N H es s) = Return () \<longleftrightarrow>
     handler_alive s \<and> \<not> panics (fst (run_events H (handler_of (sys_flow s)) es))"
  by (cases "run_events H (handler_of (sys_flow s)) es"; cases "fst (run_events H (handler_of (sys_flow s)) es)")
    (simp_all add: stop_node_def Let_def)

lemma stop_node_dead: "\<not> handler_alive s \<Longrightarrow> stop_node N H es s = (unwrap_result (Inl ()), s)"
  by (simp add: stop_node_def)

lemma signalled_simps [simp]:
  "handler_of (sys_flow (signalled signal s)) = handler_of (sys_flow s)"
  "sys_start (signalled signal s) = sys_start s"
  "handler_alive (signalled signal s) = handler_alive s" "sys_store (signalled signal s) = sys_store s"
  "n_shutdown_token (sys_node (signalled signal s)) \<longleftrightarrow> signal = Inr () \<or> n_shutdown_token (sys_node s)"
  "n_peer_manager (sys_node (signalled signal s)) = n_peer_manager (sys_node s)"
  by (cases signal; simp add: signalled_def handler_of_def set_node_def node_shutdown_def)+

lemma finish_main_iff:
  "fst (finish_main joined removed s True) = Waiting \<longleftrightarrow> joined = None"
  "fst (finish_main joined removed s True) = Returned (Inr ()) \<longleftrightarrow>
     joined = Some (Return ()) \<and> removed = Inr ()"
  by (cases removed; auto simp: finish_main_def split: option.split outcome.split)+

lemma node_task_iff:
  "fst (node_task N H es s) = None \<longleftrightarrow>
     sys_start s = Starting \<or> sys_start s = Started \<and> \<not> n_shutdown_token (sys_node s)"
  "fst (node_task N H es s) = Some (Return ()) \<longleftrightarrow>
     sys_start s = Started \<and> n_shutdown_token (sys_node s) \<and> handler_alive s \<and>
     \<not> panics (fst (run_events H (handler_of (sys_flow s)) es))"
  by (auto simp: node_task_def split_pair_eq stop_node_returns split: start_state.splits)

lemma stop_node_store:
  assumes "stop_node N H es s = (Return (), s')"
  shows "sys_store s' = save_peers (ne_store N) (node_store (snd (run_events H (handler_of (sys_flow s)) es)))
      (pm_list_peers (ne_pm N) (n_peer_manager (sys_node s)))"
  using assms
  by (auto simp: stop_node_def Let_def with_handler_def set_node_def persist_and_disconnect_peers_def
      split: prod.splits outcome.splits if_splits)

lemma bound_socket_stays: "lnnode_setup ldk_default home parse builds config_text bind_error True = (r, sock) \<Longrightarrow>
    sock \<and> (\<exists>m. r = Inl m \<and> m \<noteq> Returned (Inr ()))"
  by (auto simp: lnnode_setup_def new_socket_server_def split: sum.splits outcome.splits prod.splits)

section \<open>The store at shutdown\<close>

text \<open>As \<open>writable\<close>, for the peers that are saved at shutdown.\<close>

definition peers_writable :: "'kv store_env \<Rightarrow> ('kv \<Rightarrow> bool) \<Rightarrow> bool" where
  "peers_writable S good \<longleftrightarrow> (\<forall>s q. good s \<longrightarrow> fst (add_peer S s q) = Inr () \<and> good (snd (add_peer S s q)))"

definition store_good :: "'kv store_env \<Rightarrow> ('kv \<Rightarrow> bool) \<Rightarrow> 'kv \<Rightarrow> bool" where
  "store_good S good kv \<longleftrightarrow> payments_wf S kv \<and> peers_wf S kv \<and> good kv"

lemma put_each_good:
  assumes "store_laws S" and "peers_writable S good"
  shows "store_good S good kv \<Longrightarrow> store_good S good (put_each add_peer S kv ps)"
proof (induction ps arbitrary: kv)
  case (Cons p ps)
  obtain kv' where kv': "add_peer S kv p = (Inr (), kv')" "good kv'"
    using assms(2) Cons.prems unfolding peers_writable_def store_good_def by (metis prod.collapse)
  with Cons.prems peers.put_wf [OF assms(1) _ kv'(1)] add_peer_payments(2) [OF assms(1) kv'(1)]
  have "store_good S good kv'" by (simp add: store_good_def)
  from Cons.IH [OF this] kv' show ?case by simp
qed simp

lemma run_events_inv:
  assumes "store_laws S" and "writable S good" and "env_store H = S"
  shows "store_good S good (node_store h) \<Longrightarrow> run_events H h es = (r, h') \<Longrightarrow>
    store_good S good (node_store h') \<and>
    (has_status st (payments_view S (node_store h') i) \<longrightarrow>
       has_status st (payments_view S (node_store h) i) \<or> (\<exists>e \<in> set es. concludes i st (Event e)))"
proof (induction es arbitrary: h)
  case (Cons e es)
  obtain x h1 where x: "handle_event H h e = (x, h1)" by (cases "handle_event H h e")
  have wf: "payments_wf S (node_store h)" "good (node_store h)" "peers_wf S (node_store h)"
    using Cons.prems(1) by (simp_all add: store_good_def)
  note event = handle_event_inv [OF assms wf(1,2) x]
  with wf(3) have good: "store_good S good (node_store h1)" by (simp add: store_good_def)
  show ?case
  proof (cases x)
    case (Return y)
    with Cons.prems(2) x have "run_events H h1 es = (r, h')" by simp
    from Cons.IH [OF good this] event(3) [of st i] show ?thesis by auto
  next
    case (Panic m)
    with Cons.prems(2) x good event(3) [of st i] show ?thesis by auto
  qed
qed simp

lemma stop_node_cases:
  assumes "stop_node N H es s = (r, s')"
  obtains "sys_store s' = sys_store s"
  | x h where "run_events H (handler_of (sys_flow s)) es = (x, h)" and "sys_store s' = node_store h"
  | x h where "run_events H (handler_of (sys_flow s)) es = (x, h)"
      and "sys_store s' = put_each add_peer (ne_store N) (node_store h)
        (addressed_peers (pm_list_peers (ne_pm N) (n_peer_manager (sys_node s))))"
  using assms
  by (auto simp: stop_node_def Let_def with_handler_def set_node_def persist_and_disconnect_peers_def
      save_peers_put_each split: prod.splits outcome.splits if_splits)

lemma lnnode_shutdown_store:
  assumes "lnnode_shutdown N H signal es removed s sock = (r, s', sock')"
  shows "sys_store s' = sys_store s \<or> (\<exists>x s1. stop_node N H es (signalled signal s) = (x, s1) \<and> sys_store s' = sys_store s1)"
proof -
  obtain joined s1 where task: "node_task N H es (signalled signal s) = (joined, s1)"
    by (cases "node_task N H es (signalled signal s)")
  with assms have "sys_store s' = sys_store s1"
    by (auto simp: lnnode_shutdown_def finish_main_def split: option.splits outcome.splits)
  with task show ?thesis
    by (auto simp: node_task_def split: start_state.splits if_splits prod.splits)
qed

lemma lnnode_shutdown_inv:
  assumes "store_laws (ne_store N)" and "writable (ne_store N) good" and "peers_writable (ne_store N) good"
    and "env_store H = ne_store N" and "store_good (ne_store N) good (sys_store s)"
    and "lnnode_shutdown N H signal es removed s sock = (r, s', sock')"
  shows "store_good (ne_store N) good (sys_store s') \<and>
    (has_status st (payments_view (ne_store N) (sys_store s') i) \<longrightarrow>
       has_status st (payments_view (ne_store N) (sys_store s) i) \<or> (\<exists>e \<in> set es. concludes i st (Event e)))"
proof -
  have start: "store_good (ne_store N) good (node_store (handler_of (sys_flow (signalled signal s))))"
    "node_store (handler_of (sys_flow (signalled signal s))) = sys_store s"
    using assms(5) by (simp_all add: handler_of_def)
  note events = run_events_inv [OF assms(1,2,4) start(1), unfolded start(2)]
  from lnnode_shutdown_store [OF assms(6)] show ?thesis
  proof (elim disjE exE conjE)
    fix x s1
    assume x: "stop_node N H es (signalled signal s) = (x, s1)" "sys_store s' = sys_store s1"
    from x(1) show ?thesis
    proof (cases rule: stop_node_cases)
      case 1
      with x(2) assms(5) show ?thesis by simp
    next
      case (2 y h)
      with x(2) events [OF 2(1), of st i] show ?thesis by simp
    next
      case (3 y h)
      with x(2) events [OF 3(1), of st i] put_each_good [OF assms(1,3)] put_each_add_peer_payments [OF assms(1)]
      show ?thesis by simp
    qed
  qed (use assms(5) in simp)
qed

section \<open>Properties\<close>

lemma shutdown_iff:
  "fst (lnnode_shutdown N H signal es removed s True) = Waiting \<longleftrightarrow>
     sys_start s = Starting \<or> sys_start s = Started \<and> signal \<noteq> Inr () \<and> \<not> n_shutdown_token (sys_node s)"
  "fst (lnnode_shutdown N H signal es removed s True) = Returned (Inr ()) \<longleftrightarrow>
     sys_start s = Started \<and> (signal = Inr () \<or> n_shutdown_token (sys_node s)) \<and> handler_alive s \<and>
     \<not> panics (fst (run_events H (handler_of (sys_flow s)) es)) \<and> removed = Inr ()"
  by (auto simp: lnnode_shutdown_def split_pair_eq finish_main_iff node_task_iff)

text \<open>
  C13: whether and how the process ends once \<open>ctrl_c\<close> has returned. \<open>main\<close> waits for ever, that is, over every
  further run of the tasks, exactly when the node has started, the signal handler could not be installed and nobody else
  cancelled the token: no task ever does. After a signal it waits only for the first synchronisation to end. It succeeds
  exactly when the start succeeded, the token was cancelled, the background processor was still alive and handled its last events
  without a panic, and the socket could be removed; a dead chain task or server makes no difference.
\<close>

theorem main_ends_iff:
  "((\<forall>as s'. system_run E H L s as s' \<longrightarrow> fst (lnnode_shutdown (se_node E) H signal es removed s' True) = Waiting) \<longleftrightarrow>
      sys_start s = Started \<and> signal \<noteq> Inr () \<and> \<not> n_shutdown_token (sys_node s)) \<and>
   (signal = Inr () \<longrightarrow>
      (fst (lnnode_shutdown (se_node E) H signal es removed s True) = Waiting \<longleftrightarrow> sys_start s = Starting)) \<and>
   (fst (lnnode_shutdown (se_node E) H signal es removed s True) = Returned (Inr ()) \<longleftrightarrow>
      sys_start s = Started \<and> (signal = Inr () \<or> n_shutdown_token (sys_node s)) \<and> handler_alive s \<and>
      \<not> panics (fst (run_events H (handler_of (sys_flow s)) es)) \<and> removed = Inr ())"
proof (intro conjI)
  let ?waits = "\<lambda>s. fst (lnnode_shutdown (se_node E) H signal es removed s True) = Waiting"
  show "(\<forall>as s'. system_run E H L s as s' \<longrightarrow> ?waits s') \<longleftrightarrow>
      sys_start s = Started \<and> signal \<noteq> Inr () \<and> \<not> n_shutdown_token (sys_node s)" (is "?ever \<longleftrightarrow> ?stuck")
  proof
    assume ever: ?ever
    have here: "?waits s" by (rule ever [rule_format, OF steps_none])
    have "sys_start s \<noteq> Starting"
    proof
      assume starting: "sys_start s = Starting"
      note s1 = system_step.start_done [OF starting, of E H L "Inl []" "[]"]
      let ?s1 = "(set_node s ((sys_node s)\<lparr>n_channel_manager := fold (manager_notify L) [] (n_channel_manager (sys_node s))\<rparr>))
        \<lparr>sys_start := start_result (Inl [])\<rparr>"
      have "sys_start ?s1 = StartFailed []" by (simp add: start_result_def)
      then have "\<not> ?waits ?s1" by (simp only: shutdown_iff) simp
      moreover have "system_run E H L s [StartDone (Inl []) []] ?s1" unfolding steps_single by (rule s1)
      from ever [rule_format, OF this] have "?waits ?s1" .
      ultimately show False by contradiction
    qed
    with here show ?stuck by (auto simp: shutdown_iff)
  next
    assume stuck: ?stuck
    show ?ever
    proof (intro allI impI)
      fix as s'
      assume run: "system_run E H L s as s'"
      from started_run [OF run] system_run_token [OF run] stuck show "?waits s'" by (simp add: shutdown_iff)
    qed
  qed
qed (auto simp: shutdown_iff)

theorem main_ends_iff_witness:
  "system_run sample_server sample_handler idle_listeners sample_system paid_steps (system_after paid_steps) \<and>
   fst (lnnode_shutdown (se_node sample_server) sample_handler (Inl ''no handler'') [] (Inr ()) (system_after paid_steps) True) =
     Waiting \<and>
   fst (lnnode_shutdown (se_node sample_server) sample_handler (Inr ()) [] (Inr ()) (system_after paid_steps) True) =
     Returned (Inr ())"
proof -
  have "sys_start sample_system = Started" "\<not> n_shutdown_token (sys_node sample_system)" by code_simp+
  then have waits: "fst (lnnode_shutdown (se_node sample_server) sample_handler (Inl ''no handler'') [] (Inr ())
      (system_after paid_steps) True) = Waiting"
    using main_ends_iff [of sample_server sample_handler idle_listeners sample_system "Inl ''no handler''" "[]" "Inr ()"] paid_run
    by blast
  have "sys_start (system_after paid_steps) = Started" "handler_alive (system_after paid_steps)" by code_simp+
  then have "fst (lnnode_shutdown (se_node sample_server) sample_handler (Inr ()) [] (Inr ()) (system_after paid_steps) True) =
      Returned (Inr ())"
    using main_ends_iff [of sample_server sample_handler idle_listeners "system_after paid_steps" "Inr ()" "[]" "Inr ()"] by simp
  with waits paid_run show ?thesis by blast
qed

text \<open>A node whose start failed, or whose background processor has ended, is not shut down in order.\<close>

definition broken :: "('kv, 'cm, 'w, 'pm, 'b, 'mon) system \<Rightarrow> bool" where
  "broken s \<longleftrightarrow> (case sys_start s of Starting \<Rightarrow> False | Started \<Rightarrow> \<not> handler_alive s | StartFailed _ \<Rightarrow> True)"

lemma broken_shutdown:
  assumes "broken s" and "lnnode_shutdown N H (Inr ()) es removed s True = (r, s', sock)"
  shows "(\<exists>m. r = Returned (Inl m)) \<and> sys_store s' = sys_store s \<and> sock"
proof -
  from assms(1) have "\<exists>m. node_task N H es (signalled (Inr ()) s) = (Some (Panic m), signalled (Inr ()) s)"
    by (cases "sys_start s") (simp_all add: node_task_def broken_def stop_node_dead)
  with assms(2) show ?thesis by (auto simp: lnnode_shutdown_def finish_main_def)
qed

text \<open>
  C12: one panic of the event handler keeps the node down: whatever happens after it, ctrl-c then makes \<open>main\<close>
  return an error without saving the peers and without removing the socket, and as long as nobody removes
  the file every later run of \<open>lnnode\<close> ends before it serves anything, whatever its configuration and disk.
\<close>

theorem handler_panic_blocks_restart:
  assumes "system_step E H L s (Event e) s1" and "handler_panics H (handler_of (sys_flow s)) e"
    and "\<And>t. \<not> panics (env_estimate H t)" and "system_run E H L s1 as s'"
    and "lnnode_shutdown (se_node E) H (Inr ()) es removed s' True = (r, s'', sock)"
  shows "(\<exists>m. r = Returned (Inl m)) \<and> sys_store s'' = sys_store s' \<and>
    (\<exists>m. lnnode_setup ldk_default home parse builds config_text bind_error sock = (Inl m, True) \<and> m \<noteq> Returned (Inr ()))"
proof -
  have dead: "\<not> handler_alive s'"
    using dead_handler_run(1) [OF assms(4)] panicking_event(1) [of E H L s e s1, OF assms(1-3)] by blast
  have "sys_start s1 \<noteq> Starting"
    using system_step_alive(2) [OF assms(1), of "StartDone (Inr ()) []"] started_step [OF assms(1)] by auto
  then have "sys_start s' \<noteq> Starting" using system_run_alive(2) [OF assms(4), of "StartDone (Inr ()) []"] by auto
  with dead have "broken s'" by (cases "sys_start s'") (simp_all add: broken_def)
  from broken_shutdown [OF this assms(5)] bound_socket_stays [of ldk_default home parse builds config_text bind_error]
  show ?thesis by (cases "lnnode_setup ldk_default home parse builds config_text bind_error True") auto
qed

definition sample_setup :: "bool \<Rightarrow> (main_end + unit) \<times> bool" where
  "sample_setup sock = lnnode_setup sample_ldk_config (Some ''/root'') Inr (\<lambda>b. Return (Inr ())) (Inr sample_config) None sock"

theorem handler_panic_blocks_restart_witness:
  "\<exists>s1 r s'' sock. system_step sample_server sample_handler idle_listeners sample_system (Event stuck_event) s1 \<and>
     lnnode_shutdown (se_node sample_server) sample_handler (Inr ()) [] (Inr ()) s1 True = (r, s'', sock) \<and>
     (\<exists>m. r = Returned (Inl m)) \<and> (\<exists>m. sample_setup sock = (Inl m, True)) \<and> fst (sample_setup False) = Inr ()"
proof -
  have "case system_exec sample_server sample_handler idle_listeners sample_system (Event stuck_event) of
      None \<Rightarrow> False | Some s1 \<Rightarrow> True"
    by code_simp
  then obtain s1 where step: "system_step sample_server sample_handler idle_listeners sample_system (Event stuck_event) s1"
    by (auto simp: system_exec_iff split: option.splits)
  obtain r s'' sock where down: "lnnode_shutdown (se_node sample_server) sample_handler (Inr ()) [] (Inr ()) s1 True
      = (r, s'', sock)"
    by (metis prod.collapse)
  have panics: "handler_panics sample_handler (handler_of (sys_flow sample_system)) stuck_event"
    by (simp add: stuck_event_def)
  have run: "system_run sample_server sample_handler idle_listeners s1 [] s1" by simp
  have fresh: "fst (sample_setup False) = Inr ()" by code_simp
  from handler_panic_blocks_restart [OF step panics sample_fees run down, of sample_ldk_config "Some ''/root''" Inr
      "\<lambda>b. Return (Inr ())" "Inr sample_config" None] step down fresh
  show ?thesis unfolding sample_setup_def by blast
qed

text \<open>
  C26: an orderly shutdown completes: when the background processor is alive and its last events do not panic, \<open>main\<close>
  returns, the socket is gone so that the next run can bind it, and every connected peer with an address is
  in the store, provided that the writes succeed.
\<close>

theorem orderly_shutdown:
  assumes "store_laws (ne_store N)" and "sys_start s = Started \<and> handler_alive s"
    and "run_events H (handler_of (sys_flow s)) es = (Return r, h)"
    and "peers = addressed_peers (pm_list_peers (ne_pm N) (n_peer_manager (sys_node s)))"
    and "all_puts_ok add_peer (ne_store N) (node_store h) peers" and "distinct (map node_id peers)"
  shows "\<exists>s' sock. lnnode_shutdown N H (Inr ()) es (Inr ()) s True = (Returned (Inr ()), s', sock) \<and>
    new_socket_server None sock = (Inr (), True) \<and>
    (\<forall>q. q \<in> set peers \<longrightarrow> peers_view (ne_store N) (sys_store s') (node_id q) = Some q)"
proof -
  let ?s = "signalled (Inr ()) s"
  have "fst (stop_node N H es ?s) = Return ()" using assms(2,3) by (simp add: stop_node_returns)
  then obtain s' where stop: "stop_node N H es ?s = (Return (), s')" by (metis prod.collapse)
  from stop_node_store [OF this] assms(3,4) have store: "sys_store s' = put_each add_peer (ne_store N) (node_store h) peers"
    by (simp add: save_peers_put_each)
  have "lnnode_shutdown N H (Inr ()) es (Inr ()) s True = (Returned (Inr ()), s'\<lparr>server_alive := False\<rparr>, False)"
    using assms(2) by (simp add: lnnode_shutdown_def node_task_def finish_main_def stop)
  moreover have "new_socket_server None False = (Inr (), True)" by (simp add: new_socket_server_def)
  moreover have "peers_view (ne_store N) (sys_store (s'\<lparr>server_alive := False\<rparr>)) (node_id q) = Some q" if "q \<in> set peers" for q
    using peers.put_each_found [OF assms(1,5,6) that] store by simp
  ultimately show ?thesis by blast
qed

definition connected_system :: "(mem_store, cm_log, u64, peer_details list, u8, best_block) system" where
  "connected_system = set_node sample_system one_peer_node"

theorem orderly_shutdown_witness:
  "\<exists>s' sock. lnnode_shutdown sample_env sample_handler (Inr ()) [PaymentForwarded] (Inr ()) connected_system True =
     (Returned (Inr ()), s', sock) \<and>
   peers_view ref_env (sys_store s') (PublicKey [2, 1]) = Some \<lparr>node_id = PublicKey [2, 1], address = TcpIpV4 [10, 0, 0, 1] 80\<rparr>"
proof -
  let ?q = "\<lparr>node_id = PublicKey [2, 1], address = TcpIpV4 [10, 0, 0, 1] 80\<rparr>"
  let ?h = "handler_of (sys_flow connected_system)"
  have node: "sys_node connected_system = one_peer_node" by (simp add: connected_system_def set_node_def)
  have run: "run_events sample_handler ?h [PaymentForwarded] = (Return (Inr ()), ?h)" by simp
  have peers: "[?q] = addressed_peers (pm_list_peers (ne_pm sample_env) (n_peer_manager (sys_node connected_system)))"
    unfolding node by code_simp
  have ok: "all_puts_ok add_peer (ne_store sample_env) (node_store ?h) [?q]" by code_simp
  have alive: "sys_start connected_system = Started \<and> handler_alive connected_system" by (simp add: connected_system_def sample_system_def)
  have laws: "store_laws (ne_store sample_env)" by (simp add: ref_env_laws)
  from orderly_shutdown [OF laws alive run peers ok] show ?thesis by auto
qed

end
