(* ===== verification/NodeWiring.thy ===== *)
theory NodeWiring
  imports NodeConfig "HOL-Library.State_Monad" "HOL-Library.Monad_Syntax"
begin

text \<open>
  The objects that \<open>NodeBuilder::build\<close> and \<open>Node::start\<close> (\<open>src/node.rs\<close>) construct and share
  through \<open>Arc\<close>s, and the tasks that \<open>Node::start\<close> spawns over them. What an object of LDK does is not
  in the repository; which objects it is given is. An \<open>Arc\<close> is an index into the list of objects made so
  far, and the construction is a state monad over that list. Constructing an object cannot fail; the steps
  of \<open>build\<close> that can are in \<open>NodeStart\<close>.
\<close>

section \<open>Objects\<close>

type_synonym arc = nat

text \<open>What a channel manager is given, new or restored; three of the arguments are the wallet manager.\<close>

record manager_parts =
  mp_fee_estimator :: arc
  mp_chain_monitor :: arc
  mp_broadcaster :: arc
  mp_router :: arc
  mp_message_router :: arc
  mp_logger :: arc
  mp_entropy_source :: arc
  mp_node_signer :: arc
  mp_signer_provider :: arc
  mp_config :: ldk_config

record messenger_parts =
  om_entropy_source :: arc
  om_node_signer :: arc
  om_logger :: arc
  om_node_id_lookup :: arc
  om_message_router :: arc
  om_offers_handler :: arc

text \<open>The custom message handler, like the messenger's last three, ignores every message.\<close>

record message_handler =
  chan_handler :: arc
  route_handler :: arc
  onion_message_handler :: arc
  send_only_message_handler :: arc

record event_parts =
  ev_bitcoind_client :: arc
  ev_onchain_wallet :: arc
  ev_bump_tx_handler :: arc
  ev_channel_manager :: arc
  ev_node_store :: arc
  ev_config :: config

datatype shared =
    LoggerObj
  | KvStoreObj string
  | BitcoindObj string "string \<times> u16"
  | WalletObj string network
  | GraphObj arc
  | ScorerObj arc arc
  | RouterObj arc arc arc arc
  | ChainMonitorObj arc arc arc arc arc bytes
  | MessageRouterObj arc arc
  | ManagerObj manager_parts
  | MessengerObj messenger_parts
  | GossipSyncObj arc "arc option" arc
  | PeerManagerObj message_handler u32 bytes arc arc
  | VerifierObj arc arc arc
  | NodeStoreObj string
  | TokenObj
  | LdkWalletObj arc arc
  | BumpHandlerObj arc arc arc arc
  | EventHandlerObj event_parts

definition new_arc :: "shared \<Rightarrow> (shared list, arc) state" where
  "new_arc x = State (\<lambda>h. (length h, h @ [x]))"

section \<open>NodeBuilder::build\<close>

text \<open>\<open>base64\<close> is the encoder of the credentials.\<close>

definition rpc_settings :: "(string \<Rightarrow> string) \<Rightarrow> config \<Rightarrow> string \<times> string \<times> u16" where
  "rpc_settings base64 conf =
     (base64 (bitcoind_username conf @ '':'' @ bitcoind_password conf), bitcoind_rpc_host conf, bitcoind_rpc_port conf)"

record routing_arcs =
  ra_logger :: arc
  ra_kv_store :: arc
  ra_bitcoind :: arc
  ra_wallet :: arc
  ra_graph :: arc
  ra_scorer :: arc
  ra_router :: arc
  ra_chain_monitor :: arc
  ra_message_router :: arc

definition wire_storage :: "(string \<Rightarrow> string) \<Rightarrow> config \<Rightarrow> (shared list, arc \<times> arc \<times> arc \<times> arc) state" where
  "wire_storage base64 conf = do {
     logger \<leftarrow> new_arc LoggerObj;
     kv_store \<leftarrow> new_arc (KvStoreObj (path_join (node_path conf) ''store''));
     bitcoind_client \<leftarrow> new_arc (BitcoindObj (fst (rpc_settings base64 conf)) (snd (rpc_settings base64 conf)));
     wallet_manager \<leftarrow> new_arc (WalletObj (node_path conf) (network conf));
     State_Monad.return (logger, kv_store, bitcoind_client, wallet_manager)
   }"

definition wire_routing :: "bytes \<Rightarrow> arc \<times> arc \<times> arc \<times> arc \<Rightarrow> (shared list, routing_arcs) state" where
  "wire_routing peer_storage_key arcs =
     (case arcs of (logger, kv_store, bitcoind_client, wallet_manager) \<Rightarrow> do {
       network_graph \<leftarrow> new_arc (GraphObj logger);
       scorer \<leftarrow> new_arc (ScorerObj network_graph logger);
       router \<leftarrow> new_arc (RouterObj network_graph logger wallet_manager scorer);
       chain_monitor \<leftarrow> new_arc (ChainMonitorObj bitcoind_client logger bitcoind_client kv_store wallet_manager
         peer_storage_key);
       onion_message_router \<leftarrow> new_arc (MessageRouterObj network_graph wallet_manager);
       State_Monad.return
         \<lparr>ra_logger = logger, ra_kv_store = kv_store, ra_bitcoind = bitcoind_client, ra_wallet = wallet_manager,
          ra_graph = network_graph, ra_scorer = scorer, ra_router = router, ra_chain_monitor = chain_monitor,
          ra_message_router = onion_message_router\<rparr>
     })"

definition manager_parts_of :: "ldk_config \<Rightarrow> routing_arcs \<Rightarrow> manager_parts" where
  "manager_parts_of ldk a =
     \<lparr>mp_fee_estimator = ra_bitcoind a, mp_chain_monitor = ra_chain_monitor a, mp_broadcaster = ra_bitcoind a,
      mp_router = ra_router a, mp_message_router = ra_message_router a, mp_logger = ra_logger a,
      mp_entropy_source = ra_wallet a, mp_node_signer = ra_wallet a, mp_signer_provider = ra_wallet a,
      mp_config = ldk\<rparr>"

text \<open>
  The gossip verifier needs the gossip sync and the other way round: the sync is made without one and gets
  it when the verifier, which needs the peer manager too, has been made.
\<close>

fun set_utxo_lookup :: "arc \<Rightarrow> shared \<Rightarrow> shared" where
  "set_utxo_lookup v (GossipSyncObj graph _ logger) = GossipSyncObj graph (Some v) logger"
| "set_utxo_lookup v x = x"

definition add_utxo_lookup :: "arc \<Rightarrow> arc \<Rightarrow> (shared list, unit) state" where
  "add_utxo_lookup gossip_sync v = State (\<lambda>h. ((), h[gossip_sync := set_utxo_lookup v (h ! gossip_sync)]))"

definition wire_messaging :: "u32 \<Rightarrow> bytes \<Rightarrow> routing_arcs \<Rightarrow> arc \<Rightarrow> (shared list, arc \<times> arc \<times> arc) state" where
  "wire_messaging cur_time ephemeral_bytes a channel_manager = do {
     onion_messenger \<leftarrow> new_arc (MessengerObj
       \<lparr>om_entropy_source = ra_wallet a, om_node_signer = ra_wallet a, om_logger = ra_logger a,
        om_node_id_lookup = channel_manager, om_message_router = ra_message_router a,
        om_offers_handler = channel_manager\<rparr>);
     gossip_sync \<leftarrow> new_arc (GossipSyncObj (ra_graph a) None (ra_logger a));
     peer_manager \<leftarrow> new_arc (PeerManagerObj
       \<lparr>chan_handler = channel_manager, route_handler = gossip_sync, onion_message_handler = onion_messenger,
        send_only_message_handler = ra_chain_monitor a\<rparr> cur_time ephemeral_bytes (ra_logger a) (ra_wallet a));
     gossip_verifier \<leftarrow> new_arc (VerifierObj (ra_bitcoind a) gossip_sync peer_manager);
     add_utxo_lookup gossip_sync gossip_verifier;
     State_Monad.return (onion_messenger, gossip_sync, peer_manager)
   }"

text \<open>The fields of \<open>Node\<close> that are \<open>Arc\<close>s or shared.\<close>

record node_arcs =
  na_bitcoind_client :: arc
  na_onchain_wallet :: arc
  na_channel_manager :: arc
  na_chain_monitor :: arc
  na_peer_manager :: arc
  na_kv_store :: arc
  na_gossip_sync :: arc
  na_scorer :: arc
  na_onion_messenger :: arc
  na_logger :: arc
  na_node_store :: arc
  na_shutdown_token :: arc

definition wire_node :: "(string \<Rightarrow> string) \<Rightarrow> node_builder \<Rightarrow> bytes \<Rightarrow> u32 \<Rightarrow> bytes \<Rightarrow> (shared list, node_arcs) state" where
  "wire_node base64 b peer_storage_key cur_time ephemeral_bytes = do {
     stores \<leftarrow> wire_storage base64 (builder_config b);
     a \<leftarrow> wire_routing peer_storage_key stores;
     channel_manager \<leftarrow> new_arc (ManagerObj (manager_parts_of (builder_ldk b) a));
     (onion_messenger, gossip_sync, peer_manager) \<leftarrow> wire_messaging cur_time ephemeral_bytes a channel_manager;
     node_store \<leftarrow> new_arc (NodeStoreObj (node_path (builder_config b)));
     cancellation_token \<leftarrow> new_arc TokenObj;
     State_Monad.return
       \<lparr>na_bitcoind_client = ra_bitcoind a, na_onchain_wallet = ra_wallet a, na_channel_manager = channel_manager,
        na_chain_monitor = ra_chain_monitor a, na_peer_manager = peer_manager, na_kv_store = ra_kv_store a,
        na_gossip_sync = gossip_sync, na_scorer = ra_scorer a, na_onion_messenger = onion_messenger,
        na_logger = ra_logger a, na_node_store = node_store, na_shutdown_token = cancellation_token\<rparr>
   }"

section \<open>Node::start\<close>

text \<open>What LDK's background processor is given; its liquidity manager and output sweeper are none.\<close>

record background_parts =
  bg_persister :: arc
  bg_event_handler :: arc
  bg_chain_monitor :: arc
  bg_channel_manager :: arc
  bg_onion_messenger :: arc
  bg_gossip_sync :: arc
  bg_peer_manager :: arc
  bg_logger :: arc
  bg_scorer :: arc
  bg_mobile_interruptable_platform :: bool

text \<open>
  The tasks: the fee estimates with the token that ends them, the reconnection to stored peers, the
  background processor, the chain task (the source it polls with its network, the listener's parts and the
  tip it starts from) and the listener for inbound connections.
\<close>

datatype 't spawned =
    FeeTask arc arc
  | ReconnectTask arc arc
  | BackgroundTask background_parts
  | ChainTask arc network arc arc arc 't
  | AcceptTask arc

definition wire_event_handler :: "node_arcs \<Rightarrow> config \<Rightarrow> (shared list, arc) state" where
  "wire_event_handler a conf = do {
     ldk_wallet \<leftarrow> new_arc (LdkWalletObj (na_onchain_wallet a) (na_logger a));
     bump_tx_handler \<leftarrow> new_arc (BumpHandlerObj (na_bitcoind_client a) ldk_wallet (na_onchain_wallet a) (na_logger a));
     new_arc (EventHandlerObj
       \<lparr>ev_bitcoind_client = na_bitcoind_client a, ev_onchain_wallet = na_onchain_wallet a,
        ev_bump_tx_handler = bump_tx_handler, ev_channel_manager = na_channel_manager a,
        ev_node_store = na_node_store a, ev_config = conf\<rparr>)
   }"

definition background_parts_of :: "node_arcs \<Rightarrow> arc \<Rightarrow> background_parts" where
  "background_parts_of a event_handler =
     \<lparr>bg_persister = na_kv_store a, bg_event_handler = event_handler, bg_chain_monitor = na_chain_monitor a,
      bg_channel_manager = na_channel_manager a, bg_onion_messenger = na_onion_messenger a,
      bg_gossip_sync = na_gossip_sync a, bg_peer_manager = na_peer_manager a, bg_logger = na_logger a,
      bg_scorer = na_scorer a, bg_mobile_interruptable_platform = False\<rparr>"

text \<open>In the order in which they are spawned.\<close>

definition start_tasks :: "node_arcs \<Rightarrow> config \<Rightarrow> 't \<Rightarrow> (shared list, 't spawned list) state" where
  "start_tasks a conf chain_tip = do {
     event_handler \<leftarrow> wire_event_handler a conf;
     State_Monad.return
       [FeeTask (na_bitcoind_client a) (na_shutdown_token a),
        ReconnectTask (na_peer_manager a) (na_node_store a),
        BackgroundTask (background_parts_of a event_handler),
        ChainTask (na_bitcoind_client a) (network conf) (na_channel_manager a) (na_chain_monitor a)
          (na_onchain_wallet a) chain_tip,
        AcceptTask (na_peer_manager a)]
   }"

text \<open>
  Nothing is spawned before the listeners are found and synchronised: \<open>synchronize\<close> is
  \<open>init::synchronize_listeners\<close>, told the network.
\<close>

definition node_start :: "node_arcs \<Rightarrow> config \<Rightarrow> string + 'l list \<Rightarrow> (network \<Rightarrow> 'l list \<Rightarrow> string + 't) \<Rightarrow>
    (shared list, string + 't spawned list) state" where
  "node_start a conf listeners synchronize =
     (case and_then listeners (synchronize (network conf)) of
        Inl e \<Rightarrow> State_Monad.return (Inl e)
      | Inr chain_tip \<Rightarrow> do { tasks \<leftarrow> start_tasks a conf chain_tip; State_Monad.return (Inr tasks) })"

section \<open>References\<close>

datatype object_kind =
    Logger | KvStore | Bitcoind | Wallet | Graph | Scorer | Router | ChainMonitor | MessageRouter | Manager
  | Messenger | GossipSync | PeerManager | Verifier | NodeStore | Token | LdkWallet | BumpHandler | EventHandler

fun kind_of :: "shared \<Rightarrow> object_kind" where
  "kind_of LoggerObj = Logger"
| "kind_of (KvStoreObj _) = KvStore"
| "kind_of (BitcoindObj _ _) = Bitcoind"
| "kind_of (WalletObj _ _) = Wallet"
| "kind_of (GraphObj _) = Graph"
| "kind_of (ScorerObj _ _) = Scorer"
| "kind_of (RouterObj _ _ _ _) = Router"
| "kind_of (ChainMonitorObj _ _ _ _ _ _) = ChainMonitor"
| "kind_of (MessageRouterObj _ _) = MessageRouter"
| "kind_of (ManagerObj _) = Manager"
| "kind_of (MessengerObj _) = Messenger"
| "kind_of (GossipSyncObj _ _ _) = GossipSync"
| "kind_of (PeerManagerObj _ _ _ _ _) = PeerManager"
| "kind_of (VerifierObj _ _ _) = Verifier"
| "kind_of (NodeStoreObj _) = NodeStore"
| "kind_of TokenObj = Token"
| "kind_of (LdkWalletObj _ _) = LdkWallet"
| "kind_of (BumpHandlerObj _ _ _ _) = BumpHandler"
| "kind_of (EventHandlerObj _) = EventHandler"

text \<open>The references an object holds, each with the kind its type in the source demands.\<close>

fun refs_of :: "shared \<Rightarrow> (object_kind \<times> arc) list" where
  "refs_of (GraphObj l) = [(Logger, l)]"
| "refs_of (ScorerObj g l) = [(Graph, g), (Logger, l)]"
| "refs_of (RouterObj g l w s) = [(Graph, g), (Logger, l), (Wallet, w), (Scorer, s)]"
| "refs_of (ChainMonitorObj b l f k w key) = [(Bitcoind, b), (Logger, l), (Bitcoind, f), (KvStore, k), (Wallet, w)]"
| "refs_of (MessageRouterObj g w) = [(Graph, g), (Wallet, w)]"
| "refs_of (ManagerObj p) =
     [(Bitcoind, mp_fee_estimator p), (ChainMonitor, mp_chain_monitor p), (Bitcoind, mp_broadcaster p),
      (Router, mp_router p), (MessageRouter, mp_message_router p), (Logger, mp_logger p),
      (Wallet, mp_entropy_source p), (Wallet, mp_node_signer p), (Wallet, mp_signer_provider p)]"
| "refs_of (MessengerObj p) =
     [(Wallet, om_entropy_source p), (Wallet, om_node_signer p), (Logger, om_logger p),
      (Manager, om_node_id_lookup p), (MessageRouter, om_message_router p), (Manager, om_offers_handler p)]"
| "refs_of (GossipSyncObj g v l) = [(Graph, g), (Logger, l)] @ (case v of None \<Rightarrow> [] | Some v \<Rightarrow> [(Verifier, v)])"
| "refs_of (PeerManagerObj h time e l w) =
     [(Manager, chan_handler h), (GossipSync, route_handler h), (Messenger, onion_message_handler h),
      (ChainMonitor, send_only_message_handler h), (Logger, l), (Wallet, w)]"
| "refs_of (VerifierObj b g p) = [(Bitcoind, b), (GossipSync, g), (PeerManager, p)]"
| "refs_of (LdkWalletObj w l) = [(Wallet, w), (Logger, l)]"
| "refs_of (BumpHandlerObj b s w l) = [(Bitcoind, b), (LdkWallet, s), (Wallet, w), (Logger, l)]"
| "refs_of (EventHandlerObj p) =
     [(Bitcoind, ev_bitcoind_client p), (Wallet, ev_onchain_wallet p), (BumpHandler, ev_bump_tx_handler p),
      (Manager, ev_channel_manager p), (NodeStore, ev_node_store p)]"
| "refs_of _ = []"

fun task_refs :: "'t spawned \<Rightarrow> (object_kind \<times> arc) list" where
  "task_refs (FeeTask b t) = [(Bitcoind, b), (Token, t)]"
| "task_refs (ReconnectTask p s) = [(PeerManager, p), (NodeStore, s)]"
| "task_refs (BackgroundTask p) =
     [(KvStore, bg_persister p), (EventHandler, bg_event_handler p), (ChainMonitor, bg_chain_monitor p),
      (Manager, bg_channel_manager p), (Messenger, bg_onion_messenger p), (GossipSync, bg_gossip_sync p),
      (PeerManager, bg_peer_manager p), (Logger, bg_logger p), (Scorer, bg_scorer p)]"
| "task_refs (ChainTask b n c m w tip) = [(Bitcoind, b), (Manager, c), (ChainMonitor, m), (Wallet, w)]"
| "task_refs (AcceptTask p) = [(PeerManager, p)]"

definition node_refs :: "node_arcs \<Rightarrow> (object_kind \<times> arc) list" where
  "node_refs a =
     [(Bitcoind, na_bitcoind_client a), (Wallet, na_onchain_wallet a), (Manager, na_channel_manager a),
      (ChainMonitor, na_chain_monitor a), (PeerManager, na_peer_manager a), (KvStore, na_kv_store a),
      (GossipSync, na_gossip_sync a), (Scorer, na_scorer a), (Messenger, na_onion_messenger a),
      (Logger, na_logger a), (NodeStore, na_node_store a), (Token, na_shutdown_token a)]"

definition all_refs :: "node_arcs \<Rightarrow> 't spawned list \<Rightarrow> shared list \<Rightarrow> (object_kind \<times> arc) list" where
  "all_refs a tasks h = node_refs a @ concat (map task_refs tasks) @ concat (map refs_of h)"

definition leads :: "shared list \<Rightarrow> object_kind \<times> arc \<Rightarrow> bool" where
  "leads h r \<longleftrightarrow> snd r < length h \<and> kind_of (h ! snd r) = fst r"

text \<open>When every kind has one object and every reference leads to its kind, references of a kind are one.\<close>

lemma one_per_kind:
  assumes "distinct (map kind_of h)" and "list_all (leads h) rs" and "(k, i) \<in> set rs" and "(k, j) \<in> set rs"
  shows "i = j"
proof -
  from assms(2-4) have "leads h (k, i)" "leads h (k, j)" by (auto simp: list_all_iff)
  then have "i < length h" "j < length h" "kind_of (h ! i) = kind_of (h ! j)" by (simp_all add: leads_def)
  with assms(1) show ?thesis by (metis distinct_conv_nth length_map nth_map)
qed

section \<open>A started node\<close>

text \<open>A build followed by a start whose synchronisation succeeds, from no objects.\<close>

definition constructed :: "(string \<Rightarrow> string) \<Rightarrow> node_builder \<Rightarrow> bytes \<Rightarrow> u32 \<Rightarrow> bytes \<Rightarrow> 't \<Rightarrow>
    (node_arcs \<times> 't spawned list) \<times> shared list" where
  "constructed base64 b peer_storage_key cur_time ephemeral_bytes chain_tip = run_state (do {
     a \<leftarrow> wire_node base64 b peer_storage_key cur_time ephemeral_bytes;
     tasks \<leftarrow> start_tasks a (builder_config b) chain_tip;
     State_Monad.return (a, tasks) }) []"

lemmas wiring_defs = constructed_def wire_node_def wire_storage_def wire_routing_def wire_messaging_def
  start_tasks_def wire_event_handler_def new_arc_def add_utxo_lookup_def State_Monad.bind_def

lemmas refs_defs = all_refs_def node_refs_def leads_def manager_parts_of_def background_parts_of_def

lemma constructed_shape:
  assumes "constructed base64 b key time ephemeral tip = ((a, tasks), h)"
  shows "distinct (map kind_of h)" and "list_all (leads h) (all_refs a tasks h)"
    and "\<exists>v g. h ! na_gossip_sync a = GossipSyncObj g (Some v) (na_logger a) \<and>
      h ! v = VerifierObj (na_bitcoind_client a) (na_gossip_sync a) (na_peer_manager a)"
  using assms by (auto simp: wiring_defs refs_defs split: prod.splits)


section \<open>Property\<close>

text \<open>
  C38: the parts of a started node share one object of each kind: any two references to a channel manager, a
  node store, a wallet, a chain monitor and so on, wherever they are held (in the node, in one of LDK's objects, in the
  event handler or in a task), are the same, and lead to an object of that kind; and the gossip sync, which is made before
  its verifier, ends with a verifier that belongs to this gossip sync and to the node's peer manager.
\<close>

theorem parts_share_objects:
  assumes "constructed base64 b key time ephemeral tip = ((a, tasks), h)"
    and "(k, i) \<in> set (all_refs a tasks h)" and "(k, j) \<in> set (all_refs a tasks h)"
  shows "i = j \<and> i < length h \<and> kind_of (h ! i) = k \<and>
    (\<exists>v g. h ! na_gossip_sync a = GossipSyncObj g (Some v) (na_logger a) \<and>
       h ! v = VerifierObj (na_bitcoind_client a) (na_gossip_sync a) (na_peer_manager a))"
proof -
  note shape = constructed_shape [OF assms(1)]
  from shape(2) assms(2) have "leads h (k, i)" by (auto simp: list_all_iff)
  with one_per_kind [OF shape(1,2) assms(2,3)] shape(3) show ?thesis by (simp add: leads_def)
qed

text \<open>The event handler's channel manager and the one of the task that follows the chain.\<close>

definition sample_constructed :: "(node_arcs \<times> unit spawned list) \<times> shared list" where
  "sample_constructed = constructed (\<lambda>t. t)
     \<lparr>builder_config = sample_config, builder_ldk = sample_ldk_config\<rparr> [1] 2 [3] ()"

theorem parts_share_objects_witness:
  "\<exists>a tasks h p i. sample_constructed = ((a, tasks), h) \<and> EventHandlerObj p \<in> set h \<and>
     (\<exists>b n m w. ChainTask b n i m w () \<in> set tasks) \<and> ev_channel_manager p = i \<and> kind_of (h ! i) = Manager"
proof -
  obtain a tasks h where run: "sample_constructed = ((a, tasks), h)" by (metis prod.collapse)
  have "\<exists>p. EventHandlerObj p \<in> set h" "\<exists>b n i m w. ChainTask b n i m w () \<in> set tasks"
    using run by (auto simp: sample_constructed_def wiring_defs split: prod.splits)
  then obtain p b n i m w where held: "EventHandlerObj p \<in> set h" "ChainTask b n i m w () \<in> set tasks"
    by blast
  then have "(Manager, ev_channel_manager p) \<in> set (all_refs a tasks h)" "(Manager, i) \<in> set (all_refs a tasks h)"
    by (force simp: all_refs_def)+
  from parts_share_objects [OF run [unfolded sample_constructed_def] this] run held show ?thesis by blast
qed

end
