(* ===== verification/NodeStart.thy ===== *)
theory NodeStart
  imports NodeWiring BitcoindClient OnchainWallet ChainListener
begin

text \<open>
  \<open>NodeBuilder::build\<close> and the first part of \<open>Node::start\<close> (\<open>src/node.rs\<close>): what start-up
  does with the files it finds. The objects that are constructed on the way, none of which can fail, are
  those of \<open>NodeWiring\<close>. The readers of LDK's own formats are parameters.
\<close>

section \<open>The disk and the libraries\<close>

text \<open>
  \<open>store_dir\<close> is what \<open>exists\<close> says of the key-value store's directory; the store's keys are
  read through \<open>kv_ops\<close>; \<open>manager_file\<close> is the file \<open>manager\<close> in it.
\<close>

record ('kv, 'w) node_disk =
  node_dir :: "string + bool"
  create_dir_error :: "string option"
  wallet_files :: "'w wallet_disk"
  store_dir :: "string + bool"
  store_kv :: 'kv
  manager_file :: "string + bytes"

datatype monitor_update_status = Completed | InProgress | UnrecoverableError

record ('g, 'sc, 'cm, 'mon, 'cmon) build_libs =
  graph_key :: "string \<times> string \<times> string"
  read_graph :: "bytes \<Rightarrow> string + 'g"
  new_graph :: "network \<Rightarrow> 'g"
  scorer_key :: "string \<times> string \<times> string"
  read_scorer :: "'g \<Rightarrow> bytes \<Rightarrow> string + 'sc"
  new_scorer :: "'g \<Rightarrow> 'sc"
  new_chain_monitor :: 'cmon
  new_manager :: "ldk_config \<Rightarrow> network \<Rightarrow> best_block \<Rightarrow> u32 \<Rightarrow> 'cm"
  read_manager :: "ldk_config \<Rightarrow> 'mon list \<Rightarrow> bytes \<Rightarrow> string + best_block \<times> 'cm"
  monitor_channel_id :: "'mon \<Rightarrow> channel_id"
  watch_channel :: "'cmon \<Rightarrow> channel_id \<Rightarrow> 'mon \<Rightarrow> (unit + monitor_update_status) \<times> 'cmon"
  node_id_of_keys :: "bytes \<Rightarrow> unit + public_key"
  peer_storage_key_of_keys :: "bytes \<Rightarrow> bytes"
  base64_encode :: "string \<Rightarrow> string"

section \<open>The steps of build\<close>

text \<open>A persisted object is read back, made anew when its key is not found, and any other error of the
  store ends start-up.\<close>

definition read_or_new :: "'kv kv_ops \<Rightarrow> 'kv \<Rightarrow> string \<times> string \<times> string \<Rightarrow> (bytes \<Rightarrow> string + 'a) \<Rightarrow> 'a \<Rightarrow>
    string \<Rightarrow> string \<Rightarrow> string + 'a" where
  "read_or_new K kv k parse fresh parse_text read_text =
     (case k of (primary, secondary, key) \<Rightarrow>
       (case kv_read K kv primary secondary key of
          Inr d \<Rightarrow> map_err (\<lambda>e. parse_text @ e) (parse d)
        | Inl e \<Rightarrow> if kind e = NotFound then Inr fresh else Inl (read_text @ message e)))"

definition load_graph :: "('g, 'sc, 'cm, 'mon, 'cmon) build_libs \<Rightarrow> 'kv kv_ops \<Rightarrow> network \<Rightarrow> 'kv \<Rightarrow> string + 'g" where
  "load_graph B K net kv = read_or_new K kv (graph_key B) (read_graph B) (new_graph B net)
     ''Failed to deserialize NetworkGraph: '' ''Could not read network graph from disk ''"

definition load_scorer :: "('g, 'sc, 'cm, 'mon, 'cmon) build_libs \<Rightarrow> 'kv kv_ops \<Rightarrow> 'g \<Rightarrow> 'kv \<Rightarrow> string + 'sc" where
  "load_scorer B K g kv = read_or_new K kv (scorer_key B) (read_scorer B g) (new_scorer B g)
     ''Failed to deserialize scorer: '' ''Could not scoring data from disk ''"

text \<open>The loop that hands the monitors to the chain monitor; its \<open>assert!\<close> can panic.\<close>

fun watch_all :: "('g, 'sc, 'cm, 'mon, 'cmon) build_libs \<Rightarrow> 'cmon \<Rightarrow> 'mon list \<Rightarrow> (string + 'cmon) outcome" where
  "watch_all B c [] = Return (Inr c)"
| "watch_all B c (monitor # monitors) =
     (case watch_channel B c (monitor_channel_id B monitor) monitor of
        (Inl _, c') \<Rightarrow> Return (Inl ''Could not pass Channel Monitors to the Chain Monitor'')
      | (Inr update_status, c') \<Rightarrow>
          (if update_status = Completed then watch_all B c' monitors
           else Panic ''assertion failed: update_status == ChannelMonitorUpdateStatus::Completed''))"

definition fresh_manager :: "('g, 'sc, 'cm, 'mon, 'cmon) build_libs \<Rightarrow> 'r rpc_ops \<Rightarrow> (string \<Rightarrow> bytes option) \<Rightarrow>
    node_builder \<Rightarrow> u32 \<Rightarrow> 'r \<Rightarrow> (string + 'cm) outcome \<times> 'r" where
  "fresh_manager B R from_str b cur_time r =
     (case get_best_block R from_str r of
        (best, r') \<Rightarrow>
          (bind_outcome best (\<lambda>best. Return (and_then best (\<lambda>best_block.
             Inr (new_manager B (builder_ldk b) (network (builder_config b)) best_block cur_time)))), r'))"

text \<open>\<open>monitors\<close> is what \<open>read_channel_monitors\<close> returns.\<close>

definition restored_manager :: "('g, 'sc, 'cm, 'mon, 'cmon) build_libs \<Rightarrow> node_builder \<Rightarrow> string + 'mon list \<Rightarrow>
    string + bytes \<Rightarrow> (string + 'cm \<times> 'cmon) outcome" where
  "restored_manager B b monitors file =
     (case and_then monitors (\<lambda>ms. and_then file (\<lambda>d.
             and_then (map_err (\<lambda>e. ''Could not read channel manager from disk '' @ e)
                         (read_manager B (builder_ldk b) ms d)) (\<lambda>(block_hash, cm). Inr (ms, cm)))) of
        Inl e \<Rightarrow> Return (Inl e)
      | Inr (ms, cm) \<Rightarrow>
          bind_outcome (watch_all B (new_chain_monitor B) ms) (\<lambda>watched.
            Return (and_then watched (\<lambda>c. Inr (cm, c)))))"

text \<open>The node that is returned: its values, and its references into the objects that were made.\<close>

record ('g, 'sc, 'cm, 'cmon, 'w) built_node =
  bn_node_id :: public_key
  bn_config :: config
  bn_wallet :: "'w wallet_manager"
  bn_graph :: 'g
  bn_scorer :: 'sc
  bn_channel_manager :: 'cm
  bn_chain_monitor :: 'cmon
  bn_shutdown_token :: bool
  bn_arcs :: node_arcs
  bn_objects :: "shared list"

text \<open>
  \<open>build\<close> in the order of the code: the node's directory, the wallet, the graph, the scorer, the
  time, then the channel manager, new when the store's directory is missing and restored otherwise.
  \<open>entropy\<close> is what the operating system gives for a new seed and for the peer manager. The
  result comes with what is left of the disk and of the RPC client.
\<close>

definition wallet_step :: "('m, 'w) key_ops \<Rightarrow> network \<Rightarrow> bytes \<Rightarrow> ('kv, 'w) node_disk \<Rightarrow>
    (string + 'w wallet_manager) \<times> ('kv, 'w) node_disk" where
  "wallet_step Ks net entropy d =
     (case node_dir d of
        Inl e \<Rightarrow> (Inl e, d)
      | Inr there \<Rightarrow>
          (case (if there then None else create_dir_error d) of
             Some e \<Rightarrow> (Inl e, d)
           | None \<Rightarrow>
               (case new_wallet_manager Ks net entropy (wallet_files d) of
                  (r, wd) \<Rightarrow> (r, d\<lparr>node_dir := Inr True, wallet_files := wd\<rparr>))))"

definition manager_step :: "('g, 'sc, 'cm, 'mon, 'cmon) build_libs \<Rightarrow> 'r rpc_ops \<Rightarrow> (string \<Rightarrow> bytes option) \<Rightarrow>
    node_builder \<Rightarrow> u32 \<Rightarrow> (string + 'mon list) \<Rightarrow> ('kv, 'w) node_disk \<Rightarrow> 'r \<Rightarrow>
    (string + 'cm \<times> 'cmon) outcome \<times> 'r" where
  "manager_step B R from_str b cur_time monitors d r =
     (case store_dir d of
        Inl e \<Rightarrow> (Return (Inl e), r)
      | Inr False \<Rightarrow>
          (case fresh_manager B R from_str b cur_time r of
             (res, r') \<Rightarrow>
               (bind_outcome res (\<lambda>m. Return (and_then m (\<lambda>cm. Inr (cm, new_chain_monitor B)))), r'))
      | Inr True \<Rightarrow> (restored_manager B b monitors (manager_file d), r))"

definition build :: "('g, 'sc, 'cm, 'mon, 'cmon) build_libs \<Rightarrow> ('m, 'w) key_ops \<Rightarrow> 'kv kv_ops \<Rightarrow> 'r rpc_ops \<Rightarrow>
    (string \<Rightarrow> bytes option) \<Rightarrow> bytes \<times> bytes \<Rightarrow> string + u64 \<Rightarrow> string + 'mon list \<Rightarrow> node_builder \<Rightarrow>
    ('kv, 'w) node_disk \<Rightarrow> 'r \<Rightarrow>
    (string + ('g, 'sc, 'cm, 'cmon, 'w) built_node) outcome \<times> ('kv, 'w) node_disk \<times> 'r" where
  "build B Ks K R from_str entropy now monitors b d r =
     (case wallet_step Ks (network (builder_config b)) (fst entropy) d of
        (Inl e, d') \<Rightarrow> (Return (Inl e), d', r)
      | (Inr wm, d') \<Rightarrow>
          (case and_then (load_graph B K (network (builder_config b)) (store_kv d')) (\<lambda>g.
                and_then (load_scorer B K g (store_kv d')) (\<lambda>sc.
                and_then now (\<lambda>secs. Inr (g, sc, ucast secs :: u32)))) of
             Inl e \<Rightarrow> (Return (Inl e), d', r)
           | Inr (g, sc, cur_time) \<Rightarrow>
               (case manager_step B R from_str b cur_time monitors d' r of
                  (managed, r') \<Rightarrow>
                    (bind_outcome managed (\<lambda>m. Return (and_then m (\<lambda>(cm, cmon).
                       and_then (map_err (\<lambda>_. ''could not get node id'') (node_id_of_keys B (ldk_keys_seed wm)))
                         (\<lambda>node_id. let wired = run_state (wire_node (base64_encode B) b
                               (peer_storage_key_of_keys B (ldk_keys_seed wm)) cur_time (snd entropy)) [] in Inr
                           \<lparr>bn_node_id = node_id, bn_config = builder_config b, bn_wallet = wm, bn_graph = g,
                            bn_scorer = sc, bn_channel_manager = cm, bn_chain_monitor = cmon,
                            bn_shutdown_token = False, bn_arcs = fst wired, bn_objects = snd wired\<rparr>)))), d', r'))))"

section \<open>The listeners of the first synchronisation\<close>

text \<open>
  \<open>Node::start\<close> brings the channel manager and every monitor to one tip. \<open>monitor_of\<close> is
  \<open>get_monitor\<close>; a monitor that is listed but not found ends start-up.
\<close>

datatype 'mon chain_client = ManagerListener | MonitorListener 'mon

fun monitor_listeners :: "(channel_id \<Rightarrow> unit + 'mon) \<Rightarrow> ('mon \<Rightarrow> best_block) \<Rightarrow> channel_id list \<Rightarrow>
    string + (bytes \<times> 'mon chain_client) list" where
  "monitor_listeners monitor_of tip [] = Inr []"
| "monitor_listeners monitor_of tip (m # ms) =
     and_then (map_err (\<lambda>_. ''monitor not found'') (monitor_of m)) (\<lambda>mon.
     and_then (monitor_listeners monitor_of tip ms) (\<lambda>rest.
       Inr ((fst (tip mon), MonitorListener mon) # rest)))"

definition sync_listeners :: "('cm \<Rightarrow> best_block) \<Rightarrow> 'cm \<Rightarrow> (channel_id \<Rightarrow> unit + 'mon) \<Rightarrow> ('mon \<Rightarrow> best_block) \<Rightarrow>
    channel_id list \<Rightarrow> string + (bytes \<times> 'mon chain_client) list" where
  "sync_listeners cm_tip cm monitor_of tip monitors =
     and_then (monitor_listeners monitor_of tip monitors) (\<lambda>ls.
       Inr ((fst (cm_tip cm), ManagerListener) # ls))"

text \<open>
  The monitor of a listener is a clone: \<open>synchronize_listeners\<close>, which is given the block each listener
  starts from and says what it told each of them, brings the channel manager and the copies to the tip, and
  the copies are dropped at the end.
\<close>

record ('cm, 'cmon, 'mon, 'tip) sync_ops =
  manager_tip :: "'cm \<Rightarrow> best_block"
  monitor_tip :: "'mon \<Rightarrow> best_block"
  list_monitors :: "'cmon \<Rightarrow> channel_id list"
  get_monitor :: "'cmon \<Rightarrow> channel_id \<Rightarrow> unit + 'mon"
  copy_notify :: "notification \<Rightarrow> 'mon \<Rightarrow> 'mon"
  synchronize_listeners :: "bytes list \<Rightarrow> (string + 'tip) \<times> notification list list"

fun tell :: "('cm, 'cmon) listen_ops \<Rightarrow> ('cm, 'cmon, 'mon, 'tip) sync_ops \<Rightarrow>
    (bytes \<times> 'mon chain_client) list \<Rightarrow> notification list list \<Rightarrow> 'cm \<Rightarrow> 'cm \<times> 'mon list" where
  "tell L S ((_, ManagerListener) # ls) (ns # told) cm = tell L S ls told (fold (manager_notify L) ns cm)"
| "tell L S ((_, MonitorListener m) # ls) (ns # told) cm =
     (case tell L S ls told cm of (cm', copies) \<Rightarrow> (cm', fold (copy_notify S) ns m # copies))"
| "tell L S _ _ cm = (cm, [])"

definition start_sync :: "('cm, 'cmon) listen_ops \<Rightarrow> ('cm, 'cmon, 'mon, 'tip) sync_ops \<Rightarrow> 'cm \<Rightarrow> 'cmon \<Rightarrow>
    (string + 'tip) \<times> 'cm \<times> 'mon list \<times> 'cmon" where
  "start_sync L S cm cmon =
     (case sync_listeners (manager_tip S) cm (get_monitor S cmon) (monitor_tip S) (list_monitors S cmon) of
        Inl e \<Rightarrow> (Inl e, cm, [], cmon)
      | Inr listeners \<Rightarrow>
          (case synchronize_listeners S (map fst listeners) of
             (chain_tip, told) \<Rightarrow>
               (case tell L S listeners told cm of (cm', copies) \<Rightarrow> (chain_tip, cm', copies, cmon))))"

section \<open>What a successful build has done\<close>

definition watched :: "('g, 'sc, 'cm, 'mon, 'cmon) build_libs \<Rightarrow> 'mon list \<Rightarrow> 'cmon \<Rightarrow> 'cmon" where
  "watched B ms c = fold (\<lambda>m c. snd (watch_channel B c (monitor_channel_id B m) m)) ms c"

lemma watch_all_Inr: "watch_all B c ms = Return (Inr c') \<Longrightarrow> c' = watched B ms c"
  by (induction B c ms rule: watch_all.induct)
    (auto simp: watched_def split: prod.splits sum.splits if_splits)

lemma wallet_step_store:
  assumes "wallet_step Ks net entropy d = (res, d')"
  shows "store_dir d' = store_dir d \<and> manager_file d' = manager_file d \<and> store_kv d' = store_kv d"
  using assms
  by (auto simp: wallet_step_def split: sum.splits option.splits prod.splits if_splits)

lemma restored_manager_Inr:
  assumes "restored_manager B b monitors file = Return (Inr (cm, cmon))"
  obtains ms data hash where "monitors = Inr ms" and "file = Inr data"
    and "read_manager B (builder_ldk b) ms data = Inr (hash, cm)"
    and "cmon = watched B ms (new_chain_monitor B)"
  using assms
  by (auto simp: restored_manager_def and_then_Inr_iff bind_outcome_Return_iff dest!: watch_all_Inr
      split: sum.splits)

lemma fresh_manager_Inr:
  assumes "fresh_manager B R from_str b cur_time r = (Return (Inr cm), r')"
  obtains best where "get_best_block R from_str r = (Return (Inr best), r')"
    and "cm = new_manager B (builder_ldk b) (network (builder_config b)) best cur_time"
  using assms
  by (auto simp: fresh_manager_def bind_outcome_Return_iff and_then_Inr_iff split: prod.splits)

lemma build_Inr:
  assumes "build B Ks K R from_str entropy now monitors b d r = (Return (Inr n), d', r')"
  obtains wm cur_time where "wallet_step Ks (network (builder_config b)) (fst entropy) d = (Inr wm, d')"
    and "manager_step B R from_str b cur_time monitors d' r =
      (Return (Inr (bn_channel_manager n, bn_chain_monitor n)), r')"
    and "node_id_of_keys B (ldk_keys_seed wm) = Inr (bn_node_id n)" and "bn_wallet n = wm"
    and "bn_config n = builder_config b"
    and "run_state (wire_node (base64_encode B) b (peer_storage_key_of_keys B (ldk_keys_seed wm)) cur_time
      (snd entropy)) [] = (bn_arcs n, bn_objects n)"
  using assms
  by (auto simp: build_def Let_def and_then_Inr_iff bind_outcome_Return_iff split: prod.splits sum.splits)

section \<open>What the first synchronisation has done\<close>

text \<open>
  What LDK documents: a listener's tip follows what it is told, and a successful synchronisation tells every
  listener what leads from the block it starts from to the returned tip. Blocks are compared by their hashes.
\<close>

definition reaches :: "(bytes \<Rightarrow> bytes) \<Rightarrow> best_block \<Rightarrow> bytes \<Rightarrow> notification list \<Rightarrow> bool" where
  "reaches hash tip h ns \<longleftrightarrow> (\<forall>b. fst b = h \<longrightarrow> fst (fold (tip_after hash) ns b) = fst tip)"

lemma reachesD: "reaches hash tip (fst b) ns \<Longrightarrow> fst (fold (tip_after hash) ns b) = fst tip"
  by (simp only: reaches_def)

definition sync_laws :: "(bytes \<Rightarrow> bytes) \<Rightarrow> ('cm, 'cmon) listen_ops \<Rightarrow> ('cm, 'cmon, 'mon, best_block) sync_ops \<Rightarrow> bool" where
  "sync_laws hash L S \<longleftrightarrow>
     (\<forall>n c. manager_tip S (manager_notify L n c) = tip_after hash n (manager_tip S c)) \<and>
     (\<forall>n m. monitor_tip S (copy_notify S n m) = tip_after hash n (monitor_tip S m)) \<and>
     (\<forall>hs tip told. synchronize_listeners S hs = (Inr tip, told) \<longrightarrow>
        list_all2 (reaches hash tip) hs told)"

lemma sync_tips:
  assumes "sync_laws hash L S"
  shows "manager_tip S (fold (manager_notify L) ns c) = fold (tip_after hash) ns (manager_tip S c)"
    and "monitor_tip S (fold (copy_notify S) ns m) = fold (tip_after hash) ns (monitor_tip S m)"
  using assms by (induction ns arbitrary: c m) (simp_all add: sync_laws_def)

lemma monitor_listeners_Inr:
  "monitor_listeners monitor_of tip ids = Inr ls \<Longrightarrow>
     \<exists>ms. map monitor_of ids = map Inr ms \<and> ls = map (\<lambda>m. (fst (tip m), MonitorListener m)) ms"
proof (induction ids arbitrary: ls)
  case (Cons i ids)
  then obtain m rest where m: "monitor_of i = Inr m" "monitor_listeners monitor_of tip ids = Inr rest"
      "ls = (fst (tip m), MonitorListener m) # rest"
    by (cases "monitor_of i") (auto simp: and_then_Inr_iff)
  from Cons.IH [OF m(2)] obtain ms where "map monitor_of ids = map Inr ms"
      "rest = map (\<lambda>m. (fst (tip m), MonitorListener m)) ms" by blast
  with m show ?case by (intro exI [of _ "m # ms"]) simp
qed simp

lemma tell_copies:
  assumes "length told = length ms"
  shows "tell L S (map (\<lambda>m. (f m, MonitorListener m)) ms) told cm = (cm, map2 (fold (copy_notify S)) told ms)"
  using assms by (induction told ms rule: list_induct2) simp_all

lemma start_sync_Inr:
  assumes "sync_laws hash L S" and "start_sync L S cm cmon = (Inr tip, cm', copies, cmon')"
  shows "fst (manager_tip S cm') = fst tip" and "list_all (\<lambda>m. fst (monitor_tip S m) = fst tip) copies"
    and "length copies = length (list_monitors S cmon)" and "cmon' = cmon"
proof -
  from assms(2) obtain ls where ls: "sync_listeners (manager_tip S) cm (get_monitor S cmon) (monitor_tip S)
      (list_monitors S cmon) = Inr ls"
    by (auto simp: start_sync_def split: sum.splits)
  then obtain rest where rest: "monitor_listeners (get_monitor S cmon) (monitor_tip S) (list_monitors S cmon) = Inr rest"
      "ls = (fst (manager_tip S cm), ManagerListener) # rest"
    by (auto simp: sync_listeners_def and_then_Inr_iff)
  from monitor_listeners_Inr [OF rest(1)] obtain ms where ms: "map (get_monitor S cmon) (list_monitors S cmon) = map Inr ms"
      "rest = map (\<lambda>m. (fst (monitor_tip S m), MonitorListener m)) ms" by blast
  obtain x told where x: "synchronize_listeners S (map fst ls) = (x, told)" by (cases "synchronize_listeners S (map fst ls)")
  have res: "x = Inr tip" "cmon' = cmon" "tell L S ls told cm = (cm', copies)"
    using assms(2) ls x by (auto simp: start_sync_def split: prod.splits)
  have "list_all2 (reaches hash tip) (map fst ls) told"
    using assms(1) x unfolding sync_laws_def res(1) by blast
  then obtain ns told' where told: "told = ns # told'"
      "fst (fold (tip_after hash) ns (manager_tip S cm)) = fst tip"
      "list_all2 (reaches hash tip) (map fst rest) told'"
    using rest(2) by (auto simp: list_all2_Cons1 dest: reachesD)
  have len: "length told' = length ms" using list_all2_lengthD [OF told(3)] ms(2) by simp
  with res(3) told(1) rest(2) ms(2) tell_copies [OF len, of L S "\<lambda>m. fst (monitor_tip S m)"]
  have ends: "cm' = fold (manager_notify L) ns cm" "copies = map2 (fold (copy_notify S)) told' ms" by simp_all
  show "fst (manager_tip S cm') = fst tip" using ends(1) told(2) sync_tips(1) [OF assms(1)] by simp
  show "list_all (\<lambda>m. fst (monitor_tip S m) = fst tip) copies"
    using told(3) sync_tips(2) [OF assms(1)] unfolding ends(2) ms(2)
    by (auto simp: list_all_length list_all2_conv_all_nth dest: reachesD)
  show "length copies = length (list_monitors S cmon)" using ends(2) len map_eq_imp_length_eq [OF ms(1)] by simp
  show "cmon' = cmon" by (rule res(2))
qed

section \<open>Starts of one node\<close>

text \<open>
  Between two starts everything may change except the seed file and the wallet database, which nothing but
  \<open>WalletManager::new\<close> writes: \<open>at_disk\<close> is the rest of the disk as the start finds it.
\<close>

record ('kv, 'w, 'mon, 'r) attempt =
  at_entropy :: "bytes \<times> bytes"
  at_now :: "string + u64"
  at_monitors :: "string + 'mon list"
  at_builder :: node_builder
  at_disk :: "('kv, 'w) node_disk"
  at_rpc :: 'r

definition disk_for :: "'w wallet_disk \<Rightarrow> ('kv, 'w, 'mon, 'r) attempt \<Rightarrow> ('kv, 'w) node_disk" where
  "disk_for wd a = (at_disk a)\<lparr>wallet_files := (wallet_files (at_disk a))
     \<lparr>seed_file := seed_file wd, wallet_db := wallet_db wd\<rparr>\<rparr>"

definition attempt_build :: "('g, 'sc, 'cm, 'mon, 'cmon) build_libs \<Rightarrow> ('m, 'w) key_ops \<Rightarrow> 'kv kv_ops \<Rightarrow> 'r rpc_ops \<Rightarrow>
    (string \<Rightarrow> bytes option) \<Rightarrow> 'w wallet_disk \<Rightarrow> ('kv, 'w, 'mon, 'r) attempt \<Rightarrow>
    (string + ('g, 'sc, 'cm, 'cmon, 'w) built_node) outcome \<times> 'w wallet_disk" where
  "attempt_build B Ks K R from_str wd a =
     (case build B Ks K R from_str (at_entropy a) (at_now a) (at_monitors a) (at_builder a) (disk_for wd a) (at_rpc a) of
        (res, d', r') \<Rightarrow> (res, wallet_files d'))"

fun attempts :: "('g, 'sc, 'cm, 'mon, 'cmon) build_libs \<Rightarrow> ('m, 'w) key_ops \<Rightarrow> 'kv kv_ops \<Rightarrow> 'r rpc_ops \<Rightarrow>
    (string \<Rightarrow> bytes option) \<Rightarrow> 'w wallet_disk \<Rightarrow> ('kv, 'w, 'mon, 'r) attempt list \<Rightarrow>
    (string + ('g, 'sc, 'cm, 'cmon, 'w) built_node) outcome list" where
  "attempts B Ks K R from_str wd [] = []"
| "attempts B Ks K R from_str wd (a # as) =
     (case attempt_build B Ks K R from_str wd a of (res, wd') \<Rightarrow> res # attempts B Ks K R from_str wd' as)"

lemma build_wallet_files:
  "wallet_files (fst (snd (build B Ks K R from_str entropy now monitors b d r))) =
     wallet_files (snd (wallet_step Ks (network (builder_config b)) (fst entropy) d))"
  by (simp add: build_def split: prod.split sum.split)

lemma wallet_step_Inr:
  assumes "wallet_step Ks net entropy d = (Inr wm, d')"
  shows "new_wallet_manager Ks net entropy (wallet_files d) = (Inr wm, wallet_files d')"
  using assms by (auto simp: wallet_step_def split: sum.splits option.splits prod.splits if_splits)

lemma settled_wallet_step:
  assumes "key_laws Ks" and "settled Ks (wallet_files d) wm"
  shows "settled Ks (wallet_files (snd (wallet_step Ks net entropy d))) wm"
    and "wallet_step Ks net entropy d = (Inr wm', d') \<Longrightarrow> wm' = wm"
  using assms(2) settled_start(1) [OF assms] settled_start(2) [OF assms _ refl]
  by (auto simp: wallet_step_def split: sum.splits option.splits prod.splits if_splits)

lemma settled_attempt:
  assumes "key_laws Ks" and "settled Ks wd wm" and "attempt_build B Ks K R from_str wd a = (res, wd')"
  shows "settled Ks wd' wm"
    and "res = Return (Inr n) \<Longrightarrow> bn_wallet n = wm \<and> node_id_of_keys B (ldk_keys_seed wm) = Inr (bn_node_id n)"
proof -
  have files: "settled Ks (wallet_files (disk_for wd a)) wm" using assms(2) by (simp add: disk_for_def settled_def)
  from assms(3) have wd': "wd' = wallet_files (snd (wallet_step Ks (network (builder_config (at_builder a))) (fst (at_entropy a)) (disk_for wd a)))"
    using build_wallet_files [of B Ks K R from_str "at_entropy a" "at_now a" "at_monitors a" "at_builder a"
        "disk_for wd a" "at_rpc a"]
    by (auto simp: attempt_build_def split: prod.splits)
  then show "settled Ks wd' wm" using settled_wallet_step(1) [OF assms(1) files] by simp
  assume "res = Return (Inr n)"
  with assms(3) obtain d' r' where "build B Ks K R from_str (at_entropy a) (at_now a) (at_monitors a)
      (at_builder a) (disk_for wd a) (at_rpc a) = (Return (Inr n), d', r')"
    by (auto simp: attempt_build_def split: prod.splits)
  then obtain wm' where "wallet_step Ks (network (builder_config (at_builder a))) (fst (at_entropy a)) (disk_for wd a) = (Inr wm', d')"
      "node_id_of_keys B (ldk_keys_seed wm') = Inr (bn_node_id n)" "bn_wallet n = wm'"
    by (rule build_Inr)
  with settled_wallet_step(2) [OF assms(1) files] show
    "bn_wallet n = wm \<and> node_id_of_keys B (ldk_keys_seed wm) = Inr (bn_node_id n)" by blast
qed

lemma settled_attempts:
  assumes "key_laws Ks"
  shows "settled Ks wd wm \<Longrightarrow> Return (Inr n) \<in> set (attempts B Ks K R from_str wd as) \<Longrightarrow>
    bn_wallet n = wm \<and> node_id_of_keys B (ldk_keys_seed wm) = Inr (bn_node_id n)"
proof (induction as arbitrary: wd)
  case (Cons a as)
  obtain res wd' where a: "attempt_build B Ks K R from_str wd a = (res, wd')"
    by (cases "attempt_build B Ks K R from_str wd a")
  from Cons settled_attempt [OF assms Cons.prems(1) a] a show ?case by auto
qed simp

section \<open>A concrete start-up for the witnesses\<close>

definition sample_libs :: "(bytes, bytes, best_block, channel_id, channel_id list) build_libs" where
  "sample_libs =
     \<lparr>graph_key = (''g'', '''', ''g''), read_graph = Inr, new_graph = (\<lambda>n. []),
      scorer_key = (''s'', '''', ''s''), read_scorer = (\<lambda>g. Inr), new_scorer = (\<lambda>g. []),
      new_chain_monitor = [], new_manager = (\<lambda>c n best t. best),
      read_manager = (\<lambda>c ms d. Inr ((d, 1), (d, 1))), monitor_channel_id = (\<lambda>m. m),
      watch_channel = (\<lambda>c i m. (Inr Completed, c @ [m])), node_id_of_keys = (\<lambda>seed. Inr (PublicKey seed)),
      peer_storage_key_of_keys = (\<lambda>seed. seed), base64_encode = (\<lambda>t. t)\<rparr>"

definition no_keys :: "unit kv_ops" where
  "no_keys =
     \<lparr>kv_read = (\<lambda>s p n k. Inl (IoError NotFound ''not found'')), kv_write = (\<lambda>s p n k v. (Inr (), s)),
      kv_remove = (\<lambda>s p n k l. (Inr (), s)), kv_list = (\<lambda>s p n. Inr [])\<rparr>"

definition started_disk :: "string + bytes \<Rightarrow> (unit, network \<times> string) node_disk" where
  "started_disk file =
     \<lparr>node_dir = Inr True, create_dir_error = None,
      wallet_files = empty_disk\<lparr>seed_file := Some ''ab'', wallet_db := Some (Regtest, ''ab'')\<rparr>,
      store_dir = Inr True, store_kv = (), manager_file = file\<rparr>"

definition sample_builder :: node_builder where
  "sample_builder =
     \<lparr>builder_config =
        \<lparr>bitcoind_rpc_host = ''h'', bitcoind_rpc_port = 1, bitcoind_username = ''u'',
         bitcoind_password = ''p'', node_path = ''/n'', network = Regtest,
         min_channel_value_sat = 0, default_channel_public = True, max_pending_htlcs = 1\<rparr>,
      builder_ldk =
        \<lparr>min_funding_satoshis = 0, announce_for_forwarding = True, negotiate_anchors_zero_fee_htlc_tx = True,
         manually_accept_inbound_channels = True, our_max_accepted_htlcs = 1,
         accept_forwards_to_priv_channels = True\<rparr>\<rparr>"

definition sample_build :: "string + bytes \<Rightarrow>
    (string + (bytes, bytes, best_block, channel_id list, network \<times> string) built_node) outcome \<times>
    (unit, network \<times> string) node_disk \<times> unit" where
  "sample_build file =
     build sample_libs ref_keys no_keys (stateless_rpc (\<lambda>m args. Inl ''down'')) (\<lambda>t. Some [])
       ([0, 1], [5]) (Inr 1000) (Inr [ChannelId [1], ChannelId [2]]) sample_builder (started_disk file) ()"

text \<open>A first start on an empty wallet database, and a later one after the store got another manager.\<close>

definition first_build :: "(string + (bytes, bytes, best_block, channel_id list, network \<times> string) built_node) outcome \<times>
    (unit, network \<times> string) node_disk \<times> unit" where
  "first_build = build sample_libs ref_keys no_keys (stateless_rpc (\<lambda>m args. Inl ''down'')) (\<lambda>t. Some [])
     ([0, 1], [5]) (Inr 1000) (Inr []) sample_builder ((started_disk (Inr [7]))\<lparr>wallet_files := empty_disk\<rparr>) ()"

definition later_attempts :: "(unit, network \<times> string, channel_id, unit) attempt list" where
  "later_attempts =
     [\<lparr>at_entropy = ([1, 1, 1], [6]), at_now = Inr 2000, at_monitors = Inr [ChannelId [4]], at_builder = sample_builder,
       at_disk = started_disk (Inr [8]), at_rpc = ()\<rparr>]"

text \<open>
  A channel manager and a chain monitor that keep everything they were told, newest first; the one channel's
  monitor is the chain monitor itself. bitcoind is at block 3.
\<close>

definition logging_listeners :: "(best_block list, best_block list) listen_ops" where
  "logging_listeners =
     \<lparr>cm_block_connected = (\<lambda>c h t n. (h, n) # c), cm_blocks_disconnected = (\<lambda>c b. b # c),
      mon_block_connected = (\<lambda>m h t n. (h, n) # m), mon_blocks_disconnected = (\<lambda>m b. b # m)\<rparr>"

definition sync_to_three :: "(best_block list, best_block list, best_block list, best_block) sync_ops" where
  "sync_to_three =
     \<lparr>manager_tip = hd, monitor_tip = hd, list_monitors = (\<lambda>m. [ChannelId [1]]), get_monitor = (\<lambda>m c. Inr m),
      copy_notify = monitor_notify logging_listeners,
      synchronize_listeners = (\<lambda>hs. (Inr ([3], 3), map (\<lambda>h. [Connected [2] [] 2, Connected [3] [] 3]) hs))\<rparr>"

lemma sync_to_three_laws: "sync_laws (\<lambda>h. h) logging_listeners sync_to_three"
proof -
  have "manager_tip sync_to_three (manager_notify logging_listeners n c) = tip_after (\<lambda>h. h) n (manager_tip sync_to_three c)"
    and "monitor_tip sync_to_three (copy_notify sync_to_three n c) = tip_after (\<lambda>h. h) n (monitor_tip sync_to_three c)" for n c
    by (cases n; simp add: sync_to_three_def logging_listeners_def)+
  then show ?thesis
    by (auto simp: sync_laws_def sync_to_three_def list_all2_map2 list_all2_same reaches_def)
qed

section \<open>Properties\<close>

text \<open>
  C35: where the channel manager of a started node comes from: it is new, at bitcoind's best block, only
  when the store's directory does not exist; otherwise it was read from the store together with the channel
  monitors, all of which have then been handed, in order, to the node's chain monitor.
\<close>

theorem manager_provenance:
  assumes "build B Ks K R from_str entropy now monitors b d r = (Return (Inr n), d', r')"
  shows "(store_dir d = Inr False \<and>
      (\<exists>best cur_time. fst (get_best_block R from_str r) = Return (Inr best) \<and>
         bn_channel_manager n = new_manager B (builder_ldk b) (network (builder_config b)) best cur_time)) \<or>
    (store_dir d = Inr True \<and>
      (\<exists>ms data hash. monitors = Inr ms \<and> manager_file d = Inr data \<and>
         read_manager B (builder_ldk b) ms data = Inr (hash, bn_channel_manager n) \<and>
         bn_chain_monitor n = watched B ms (new_chain_monitor B)))"
proof -
  obtain wm cur_time where step: "wallet_step Ks (network (builder_config b)) (fst entropy) d = (Inr wm, d')"
      "manager_step B R from_str b cur_time monitors d' r =
        (Return (Inr (bn_channel_manager n, bn_chain_monitor n)), r')"
    using assms by (rule build_Inr)
  note disk = wallet_step_store [OF step(1)]
  from step(2) consider (fresh) "store_dir d' = Inr False" | (restored) "store_dir d' = Inr True"
    by (auto simp: manager_step_def split: sum.splits)
  then show ?thesis
  proof cases
    case fresh
    with step(2) have "fresh_manager B R from_str b cur_time r = (Return (Inr (bn_channel_manager n)), r')"
      by (auto simp: manager_step_def bind_outcome_Return_iff and_then_Inr_iff split: prod.splits)
    then obtain best where "get_best_block R from_str r = (Return (Inr best), r')"
        "bn_channel_manager n = new_manager B (builder_ldk b) (network (builder_config b)) best cur_time"
      by (rule fresh_manager_Inr)
    with fresh disk show ?thesis by auto
  next
    case restored
    with step(2) have "restored_manager B b monitors (manager_file d') =
        Return (Inr (bn_channel_manager n, bn_chain_monitor n))"
      by (simp add: manager_step_def)
    then obtain ms data hash where "monitors = Inr ms" "manager_file d' = Inr data"
        "read_manager B (builder_ldk b) ms data = Inr (hash, bn_channel_manager n)"
        "bn_chain_monitor n = watched B ms (new_chain_monitor B)"
      by (rule restored_manager_Inr)
    moreover from restored disk have "store_dir d = Inr True" "manager_file d = manager_file d'" by simp_all
    ultimately show ?thesis by metis
  qed
qed

theorem manager_provenance_witness:
  "\<exists>n d' r'. sample_build (Inr [7]) = (Return (Inr n), d', r') \<and>
     bn_chain_monitor n = watched sample_libs [ChannelId [1], ChannelId [2]] [] \<and> bn_channel_manager n = ([7], 1)"
proof -
  have "case fst (sample_build (Inr [7])) of Return (Inr n) \<Rightarrow> True | _ \<Rightarrow> False" by code_simp
  then have "\<exists>n. fst (sample_build (Inr [7])) = Return (Inr n)"
    by (auto split: outcome.splits sum.splits)
  then obtain n d' r' where run: "sample_build (Inr [7]) = (Return (Inr n), d', r')"
    by (cases "sample_build (Inr [7])") auto
  from manager_provenance [OF run [unfolded sample_build_def]] run show ?thesis
    by (auto simp: started_disk_def sample_libs_def)
qed

text \<open>
  C7: a restored channel is not brought to the tip: a successful first synchronisation brings the channel manager and a
  copy of every monitor there, and drops the copies; the node's chain monitor has heard nothing, and over all later polls it hears
  of exactly the blocks they deliver, which follow the tip. The blocks that came while the node was down never reach it.
\<close>

theorem restored_monitors_miss_blocks:
  assumes "sync_laws hash L S" and "start_sync L S cm cmon = (Inr tip, cm', copies, cmon')"
    and "follow_chain L B \<lparr>l_channel_manager = cm', l_chain_monitor = cmon', l_wallet = w\<rparr> (map Inr nss) = (Return (), s')"
  shows "fst (manager_tip S cm') = fst tip \<and>
    length copies = length (list_monitors S cmon) \<and> list_all (\<lambda>m. fst (monitor_tip S m) = fst tip) copies \<and>
    l_channel_manager s' = fold (manager_notify L) (concat nss) cm' \<and>
    l_chain_monitor s' = fold (monitor_notify L) (concat nss) cmon"
  using start_sync_Inr [OF assms(1,2)] follow_chain_listeners [OF assms(3)] by simp

theorem restored_monitors_miss_blocks_witness:
  "\<exists>cm' copies s'. start_sync logging_listeners sync_to_three [([1], 1)] [([1], 1)] = (Inr ([3], 3), cm', copies, [([1], 1)]) \<and>
     follow_chain logging_listeners height_bdk \<lparr>l_channel_manager = cm', l_chain_monitor = [([1], 1)], l_wallet = unlocked []\<rparr>
       (map Inr [[Connected [4] [] 4]]) = (Return (), s') \<and>
     l_channel_manager s' = [([4], 4), ([3], 3), ([2], 2), ([1], 1)] \<and> l_chain_monitor s' = [([4], 4), ([1], 1)]"
proof -
  let ?cm = "[([3], 3), ([2], 2), ([1], 1)] :: best_block list"
  let ?l = "\<lparr>l_channel_manager = ?cm, l_chain_monitor = [([1], 1)], l_wallet = unlocked []\<rparr>"
  have sync: "start_sync logging_listeners sync_to_three [([1], 1)] [([1], 1)] = (Inr ([3], 3), ?cm, [?cm], [([1], 1)])"
    by code_simp
  have "fst (follow_chain logging_listeners height_bdk ?l (map Inr [[Connected [4] [] 4]])) = Return ()" by code_simp
  then obtain s' where run: "follow_chain logging_listeners height_bdk ?l (map Inr [[Connected [4] [] 4]]) = (Return (), s')"
    by (metis prod.collapse)
  from restored_monitors_miss_blocks [OF sync_to_three_laws sync run] sync run
  show ?thesis by (auto simp: logging_listeners_def)
qed

text \<open>
  C36: a first start that stops after the store's directory was made and before the file \<open>manager\<close> was
  written there can never be repeated: every later \<open>build\<close> on that disk returns an error, whatever the
  other files, the entropy, the time and bitcoind say, and leaves the disk in the same condition.
\<close>

theorem missing_manager_is_permanent:
  assumes "store_dir d = Inr True" and "manager_file d = Inl e"
    and "build B Ks K R from_str entropy now monitors b d r = (res, d', r')"
  shows "(\<exists>m. res = Return (Inl m)) \<and> store_dir d' = Inr True \<and> manager_file d' = Inl e"
proof -
  have stuck: "\<exists>m. manager_step B R from_str b cur_time monitors d1 r = (Return (Inl m), r)"
    if "store_dir d1 = Inr True" "manager_file d1 = Inl e" for d1 :: "('a, 'b) node_disk" and cur_time
    using that by (cases monitors) (simp_all add: manager_step_def restored_manager_def)
  obtain w d1 where w: "wallet_step Ks (network (builder_config b)) (fst entropy) d = (w, d1)" by (cases "wallet_step Ks (network (builder_config b)) (fst entropy) d")
  with wallet_step_store assms(1,2) have "store_dir d1 = Inr True" "manager_file d1 = Inl e"
    by (metis, metis)
  note d1 = this
  show ?thesis
  proof (cases w)
    case (Inl m)
    with w assms(3) d1 show ?thesis by (auto simp: build_def)
  next
    case (Inr wm)
    let ?loaded = "and_then (load_graph B K (network (builder_config b)) (store_kv d1)) (\<lambda>g.
        and_then (load_scorer B K g (store_kv d1)) (\<lambda>sc.
        and_then now (\<lambda>secs. Inr (g, sc, ucast secs :: u32))))"
    show ?thesis
    proof (cases ?loaded)
      case (Inl m)
      with w \<open>w = Inr wm\<close> assms(3) d1 show ?thesis by (auto simp: build_def)
    next
      case (Inr x)
      obtain g sc cur_time where "x = (g, sc, cur_time)" by (cases x)
      with Inr w \<open>w = Inr wm\<close> assms(3) d1 stuck [OF d1, of cur_time] show ?thesis
        by (auto simp: build_def)
    qed
  qed
qed

theorem missing_manager_is_permanent_witness:
  "store_dir (started_disk (Inl ''no such file'')) = Inr True \<and>
   (\<exists>m. fst (sample_build (Inl ''no such file'')) = Return (Inl m))"
proof -
  have d: "store_dir (started_disk (Inl ''no such file'')) = Inr True"
    "manager_file (started_disk (Inl ''no such file'')) = Inl ''no such file''"
    by (simp_all add: started_disk_def)
  obtain res d' r' where run: "sample_build (Inl ''no such file'') = (res, d', r')"
    by (cases "sample_build (Inl ''no such file'')")
  from missing_manager_is_permanent [OF d run [unfolded sample_build_def]] run d show ?thesis by simp
qed



text \<open>
  C27: a node keeps its identity: after a first successful start on an empty wallet database, every later start
  that succeeds, whatever happened to the rest of the disk in between and whatever the entropy, the time, the configuration
  and bitcoind are, has the same node id and opens the very same wallet, not the one the earlier runs left
  in memory: addresses they handed out are handed out again.
\<close>

theorem rebuild_same_identity:
  assumes "key_laws Ks" and "wallet_db (wallet_files d) = None"
    and "build B Ks K R from_str entropy now monitors b d r = (Return (Inr n), d', r')"
    and "Return (Inr n') \<in> set (attempts B Ks K R from_str (wallet_files d') as)"
  shows "bn_node_id n' = bn_node_id n \<and> bn_wallet n' = bn_wallet n"
proof -
  obtain wm where first: "wallet_step Ks (network (builder_config b)) (fst entropy) d = (Inr wm, d')"
      "node_id_of_keys B (ldk_keys_seed wm) = Inr (bn_node_id n)" "bn_wallet n = wm"
    using assms(3) by (rule build_Inr)
  have "settled Ks (wallet_files d') wm"
    by (rule first_start_settles [OF assms(1,2) wallet_step_Inr [OF first(1)]])
  from settled_attempts [OF assms(1) this assms(4)] first show ?thesis by simp
qed

theorem rebuild_same_identity_witness:
  "\<exists>n d' r' n'. first_build = (Return (Inr n), d', r') \<and> bn_node_id n = PublicKey [2] \<and>
     Return (Inr n') \<in> set (attempts sample_libs ref_keys no_keys (stateless_rpc (\<lambda>m args. Inl ''down''))
        (\<lambda>t. Some []) (wallet_files d') later_attempts) \<and>
     bn_channel_manager n' = ([8], 1) \<and> bn_node_id n' = PublicKey [2]"
proof -
  let ?later = "attempts sample_libs ref_keys no_keys (stateless_rpc (\<lambda>m args. Inl ''down'')) (\<lambda>t. Some [])
      (wallet_files (fst (snd first_build))) later_attempts"
  have "case fst first_build of Return (Inr n) \<Rightarrow> bn_node_id n = PublicKey [2] | _ \<Rightarrow> False" by code_simp
  then obtain n where "fst first_build = Return (Inr n)" and n: "bn_node_id n = PublicKey [2]"
    by (auto split: outcome.splits sum.splits)
  then obtain d' r' where run: "first_build = (Return (Inr n), d', r')" by (metis prod.collapse)
  have "case hd ?later of Return (Inr n') \<Rightarrow> bn_channel_manager n' = ([8], 1) | _ \<Rightarrow> False" by code_simp
  then obtain n' where "hd ?later = Return (Inr n')" and n': "bn_channel_manager n' = ([8], 1)"
    by (auto split: outcome.splits sum.splits)
  moreover have "?later \<noteq> []" by (simp add: later_attempts_def split: prod.split)
  ultimately have "Return (Inr n') \<in> set ?later" by (metis hd_in_set)
  then have later: "Return (Inr n') \<in> set (attempts sample_libs ref_keys no_keys (stateless_rpc (\<lambda>m args. Inl ''down''))
      (\<lambda>t. Some []) (wallet_files d') later_attempts)"
    unfolding run by simp
  have "wallet_db (wallet_files ((started_disk (Inr [7]))\<lparr>wallet_files := empty_disk\<rparr>)) = None"
    by (simp add: empty_disk_def)
  from rebuild_same_identity [OF ref_keys_laws this run [unfolded first_build_def] later] run later n n'
  show ?thesis by auto
qed

end
