(* ===== verification/NodeLives.thy ===== *)
theory NodeLives
  imports NodeProcess NodeStart
begin

text \<open>
  Run after run of the program on one machine: \<open>main\<close> of \<open>src/bin/lnnode.rs\<close> from the configuration
  over \<open>NodeBuilder::build\<close>, the tasks and the shutdown to its exit, or to where it is refused or killed: before the socket is bound, while the tasks run, while
  the peers are saved, or after the socket's file is removed. What
  outlives a run is the node's store and the file of the server's socket.
\<close>

section \<open>One run\<close>

text \<open>The libraries, with the parser of the configuration file, the home directory and LDK's defaults.\<close>

record ('g, 'sc, 'cm, 'mon, 'cmon, 'm, 'w, 'lkv, 'r, 't) world =
  wo_libs :: "('g, 'sc, 'cm, 'mon, 'cmon) build_libs"
  wo_keys :: "('m, 'w) key_ops"
  wo_kv :: "'lkv kv_ops"
  wo_rpc :: "'r rpc_ops"
  wo_block_hash :: "string \<Rightarrow> bytes option"
  wo_ldk_default :: ldk_config
  wo_home :: "string option"
  wo_parse :: "'t \<Rightarrow> string + config"

text \<open>What a run meets: the files, the entropy, the time, the monitors LDK reads, bitcoind.\<close>

record ('lkv, 'w, 'mon, 'r, 't) found =
  f_config_text :: "string + 't"
  f_entropy :: "bytes \<times> bytes"
  f_now :: "string + u64"
  f_monitors :: "string + 'mon list"
  f_disk :: "('lkv, 'w) node_disk"
  f_rpc :: 'r
  f_bind_error :: "string option"

definition node_setup :: "('g, 'sc, 'cm, 'mon, 'cmon, 'm, 'w, 'lkv, 'r, 't) world \<Rightarrow> ('lkv, 'w, 'mon, 'r, 't) found \<Rightarrow> bool \<Rightarrow>
    (main_end + ('g, 'sc, 'cm, 'cmon, 'w) built_node) \<times> bool" where
  "node_setup W f sock =
     lnnode_setup (wo_ldk_default W) (wo_home W) (wo_parse W)
       (\<lambda>b. fst (build (wo_libs W) (wo_keys W) (wo_kv W) (wo_rpc W) (wo_block_hash W) (f_entropy f) (f_now f) (f_monitors f)
          b (f_disk f) (f_rpc f)))
       (f_config_text f) (f_bind_error f) sock"

text \<open>
  The state in which the tasks begin: the node that was built over the node's store \<open>kv\<close>, no peer task or
  payment call in progress; \<open>pm\<close> and \<open>bump\<close> are LDK's peer manager and fee-bumping handler as constructed.
\<close>

definition booted :: "('g, 'sc, 'cm, 'cmon, 'w) built_node \<Rightarrow> 'kv \<Rightarrow> 'pm \<Rightarrow> 'b \<Rightarrow>
    ('kv, 'cm, 'w, 'pm, 'b, 'cmon) system" where
  "booted n kv pm bump =
     \<lparr>sys_flow =
        \<lparr>flow_node =
           \<lparr>n_node_id = bn_node_id n, n_node_store = kv, n_channel_manager = bn_channel_manager n,
            n_onchain_wallet = unlocked (bdk_wallet (bn_wallet n)), n_peer_manager = pm,
            n_shutdown_token = bn_shutdown_token n\<rparr>,
         flow_bump = bump, flow_calls = []\<rparr>,
      sys_monitor = bn_chain_monitor n, sys_start = Starting, wallet_synced = False,
      handler_alive = True, chain_alive = True, server_alive = True\<rparr>"

text \<open>
  How far a run gets. \<open>Refused\<close>: its first half returns or panics. \<open>Run\<close>: it gets to its tasks and ends by itself, with
  the events that were handed over during the shutdown. It can be killed at any moment: before the socket is bound
  (\<open>KilledEarly\<close>), while the tasks run (\<open>Killed\<close>), while the node is being stopped (\<open>KilledStopping\<close>, with the events that
  were handled since, some of the peers saved), or when \<open>main\<close> has removed the socket's file (\<open>KilledFreed\<close>).
  \<open>Cleaned\<close> is somebody else removing that file.
\<close>

datatype process_step =
    Refused main_end
  | Run "task_step list" "event list" main_end
  | KilledEarly
  | Killed "task_step list"
  | KilledStopping "task_step list" "event list"
  | KilledFreed "task_step list" "event list"
  | Cleaned

text \<open>What is in the store in the middle of \<open>stop_node\<close>, after the last events and with \<open>k\<close> of the peers saved.\<close>

definition stopping_store :: "('kv, 'cm, 'w, 'p, 'pm) node_env \<Rightarrow> ('kv, 'cm, 'w, 'p, 'b) handler_env \<Rightarrow> event list \<Rightarrow> nat \<Rightarrow>
    ('kv, 'cm, 'w, 'pm, 'b, 'mon) system \<Rightarrow> 'kv" where
  "stopping_store N H es k s =
     (case run_events H (handler_of (sys_flow s)) es of
        (Panic m, h) \<Rightarrow> node_store h
      | (Return _, h) \<Rightarrow> save_peers (ne_store N) (node_store h) (take k (pm_list_peers (ne_pm N) (n_peer_manager (sys_node s)))))"

inductive process :: "('g, 'sc, 'cm, 'mon, 'cmon, 'm, 'w, 'lkv, 'r, 't) world \<Rightarrow> ('kv, 'cm, 'w, 'p, 'pm) server_env \<Rightarrow>
    ('kv, 'cm, 'w, 'p, 'b) handler_env \<Rightarrow> ('cm, 'cmon) listen_ops \<Rightarrow> 'kv \<times> bool \<Rightarrow> process_step \<Rightarrow> 'kv \<times> bool \<Rightarrow> bool"
  for W E H L where
  refused: "node_setup W f sock = (Inl r, sock') \<Longrightarrow> process W E H L (kv, sock) (Refused r) (kv, sock')"
| killed_early: "process W E H L (kv, sock) KilledEarly (kv, sock)"
| killed: "node_setup W f sock = (Inr n, sock1) \<Longrightarrow> system_run E H L (booted n kv pm bump) as s \<Longrightarrow>
    process W E H L (kv, sock) (Killed as) (sys_store s, sock1)"
| killed_stopping: "node_setup W f sock = (Inr n, sock1) \<Longrightarrow> system_run E H L (booted n kv pm bump) as s \<Longrightarrow>
    sys_start s = Started \<Longrightarrow> handler_alive s \<Longrightarrow>
    process W E H L (kv, sock) (KilledStopping as es) (stopping_store (se_node E) H es k s, sock1)"
| killed_freed: "node_setup W f sock = (Inr n, sock1) \<Longrightarrow> system_run E H L (booted n kv pm bump) as s \<Longrightarrow>
    lnnode_shutdown (se_node E) H signal es removed s sock1 = (Returned (Inr ()), s', sock') \<Longrightarrow>
    process W E H L (kv, sock) (KilledFreed as es) (sys_store s', sock')"
| ended: "node_setup W f sock = (Inr n, sock1) \<Longrightarrow> system_run E H L (booted n kv pm bump) as s \<Longrightarrow>
    lnnode_shutdown (se_node E) H signal es removed s sock1 = (r, s', sock') \<Longrightarrow> r \<noteq> Waiting \<Longrightarrow>
    process W E H L (kv, sock) (Run as es r) (sys_store s', sock')"
| cleaned: "process W E H L (kv, sock) Cleaned (kv, False)"

text \<open>The steps of a run, its last events included.\<close>

fun steps_of :: "process_step \<Rightarrow> task_step list" where
  "steps_of (Run as es r) = as @ map Event es"
| "steps_of (Killed as) = as"
| "steps_of (KilledStopping as es) = as @ map Event es"
| "steps_of (KilledFreed as es) = as @ map Event es"
| "steps_of _ = []"

section \<open>The store over the runs\<close>

lemma booted_simps [simp]:
  "sys_store (booted n kv pm bump) = kv" "flow_calls (sys_flow (booted n kv pm bump)) = []"
  "sys_start (booted n kv pm bump) = Starting"
  by (simp_all add: booted_def)

lemma booted_inv: "store_good S good kv \<Longrightarrow> system_inv S good (booted n kv pm bump)"
  by (simp add: system_inv_def store_good_def)

lemma booted_run:
  assumes "store_laws (sys_env_store E)" and "writable (sys_env_store E) good" and "env_store H = sys_env_store E"
    and "system_run E H L (booted n kv pm bump) as s" and "store_good (sys_env_store E) good kv"
  shows "store_good (sys_env_store E) good (sys_store s)"
    and "outcome (st, i) (payments_view (sys_env_store E) (sys_store s)) \<Longrightarrow>
      outcome (st, i) (payments_view (sys_env_store E) kv) \<or> (\<exists>a \<in> set as. concludes i st a)"
  using system_run_inv(1) [OF assms(1-4) booted_inv [OF assms(5)]]
    system_run_inv(2) [OF assms(1-4) booted_inv [OF assms(5)]]
  by (auto simp: system_inv_def store_good_def outcome_def)

text \<open>A store in the middle of \<open>stop_node\<close>.\<close>

lemma stopping_store_cases:
  obtains x h ps where "run_events H (handler_of (sys_flow s)) es = (x, h)"
    and "stopping_store N H es k s = put_each add_peer (ne_store N) (node_store h) ps"
proof (cases "run_events H (handler_of (sys_flow s)) es")
  case (Pair x h)
  show thesis
  proof (cases x)
    case (Return y)
    with Pair show thesis
      by (intro that [OF Pair, of "addressed_peers (take k (pm_list_peers (ne_pm N) (n_peer_manager (sys_node s))))"])
        (simp add: stopping_store_def save_peers_put_each)
  next
    case (Panic m)
    with Pair show thesis by (intro that [OF Pair, of "[]"]) (simp add: stopping_store_def)
  qed
qed

lemma stopping_store_inv:
  assumes "store_laws (ne_store N)" and "writable (ne_store N) good" and "peers_writable (ne_store N) good"
    and "env_store H = ne_store N" and "store_good (ne_store N) good (sys_store s)"
  shows "store_good (ne_store N) good (stopping_store N H es k s) \<and>
    (has_status st (payments_view (ne_store N) (stopping_store N H es k s) i) \<longrightarrow>
       has_status st (payments_view (ne_store N) (sys_store s) i) \<or> (\<exists>e \<in> set es. concludes i st (Event e)))"
proof -
  have same: "node_store (handler_of (sys_flow s)) = sys_store s" by (simp add: handler_of_def)
  obtain x h ps where h: "run_events H (handler_of (sys_flow s)) es = (x, h)"
    and store: "stopping_store N H es k s = put_each add_peer (ne_store N) (node_store h) ps"
    by (rule stopping_store_cases)
  from run_events_inv [OF assms(1,2,4) _ h, unfolded same, OF assms(5), of st i] put_each_good [OF assms(1,3)]
    put_each_add_peer_payments [OF assms(1)]
  show ?thesis by (simp add: store)
qed

lemma process_inv:
  assumes "store_laws (sys_env_store E)" and "writable (sys_env_store E) good"
    and "peers_writable (sys_env_store E) good" and "env_store H = sys_env_store E"
    and "process W E H L p x p'" and "store_good (sys_env_store E) good (fst p)"
  shows "store_good (sys_env_store E) good (fst p') \<and>
    (outcome (st, i) (payments_view (sys_env_store E) (fst p')) \<longrightarrow>
      outcome (st, i) (payments_view (sys_env_store E) (fst p)) \<or> (\<exists>a \<in> set (steps_of x). concludes i st a))"
proof -
  note booted = booted_run [OF assms(1,2,4)]
  from assms(5) show ?thesis
  proof cases
    case (ended f sock n sock1 kv pm bump as s signal es removed r s' sock')
    from ended(1) assms(6) have kv: "store_good (sys_env_store E) good kv" by simp
    note run = booted [OF ended(5) kv]
    note down = lnnode_shutdown_inv [OF assms(1-4) run(1) ended(6)]
    from down [of st i] run(2) [of st i] ended(1-3) show ?thesis by (auto simp: outcome_def)
  next
    case (killed_freed f sock n sock1 kv pm bump as s signal es removed s' sock')
    from killed_freed(1) assms(6) have kv: "store_good (sys_env_store E) good kv" by simp
    note run = booted [OF killed_freed(5) kv]
    note down = lnnode_shutdown_inv [OF assms(1-4) run(1) killed_freed(6)]
    from down [of st i] run(2) [of st i] killed_freed(1-3) show ?thesis by (auto simp: outcome_def)
  next
    case (killed_stopping f sock n sock1 kv pm bump as s es k)
    from killed_stopping(1) assms(6) have kv: "store_good (sys_env_store E) good kv" by simp
    note run = booted [OF killed_stopping(5) kv]
    note down = stopping_store_inv [OF assms(1-4) run(1), of es k]
    from down [of st i] run(2) [of st i] killed_stopping(1-3) show ?thesis by (auto simp: outcome_def)
  next
    case (killed f sock n sock1 kv pm bump as s)
    from killed(1) assms(6) have kv: "store_good (sys_env_store E) good kv" by simp
    from booted [OF killed(5) kv] killed(1-3) show ?thesis by auto
  qed (use assms(6) in auto)
qed

definition process_laws :: "('g, 'sc, 'cm, 'mon, 'cmon, 'm, 'w, 'lkv, 'r, 't) world \<times> ('kv, 'cm, 'w, 'p, 'pm) server_env \<times>
    ('kv, 'cm, 'w, 'p, 'b) handler_env \<times> ('cm, 'cmon) listen_ops \<times> ('kv \<Rightarrow> bool) \<Rightarrow> bool" where
  "process_laws e = (case e of (W, E, H, L, good) \<Rightarrow> store_laws (sys_env_store E) \<and> writable (sys_env_store E) good \<and>
     peers_writable (sys_env_store E) good \<and> env_store H = sys_env_store E)"

interpretation process_runs: caused_steps process_laws "\<lambda>(W, E, H, L, good). process W E H L"
  "\<lambda>(W, E, H, L, good) p. store_good (sys_env_store E) good (fst p)"
  "\<lambda>(W, E, H, L, good) k p. outcome k (payments_view (sys_env_store E) (fst p))"
  "\<lambda>e (st, i) x. \<exists>a \<in> set (steps_of x). concludes i st a"
  by unfold_locales (auto simp: process_laws_def dest: process_inv)

section \<open>The socket over the runs\<close>

lemma setup_binds: "node_setup W f sock = (Inr n, sock') \<Longrightarrow> sock'"
  by (auto simp: node_setup_def lnnode_setup_def new_socket_server_def
      split: sum.splits outcome.splits prod.splits if_splits option.splits)

lemma setup_refused:
  assumes "node_setup W f True = (x, sock')"
  shows "sock' \<and> (\<exists>m. x = Inl m \<and> m \<noteq> Returned (Inr ()))"
  by (rule bound_socket_stays [OF assms [unfolded node_setup_def]])

lemma shutdown_socket:
  "lnnode_shutdown N H signal es removed s True = (r, s', sock') \<Longrightarrow> r \<noteq> Returned (Inr ()) \<Longrightarrow> sock'"
  by (auto simp: lnnode_shutdown_def finish_main_def split: prod.splits option.splits outcome.splits)

lemma setup_keeps: "node_setup W f sock = (Inl r, sock') \<Longrightarrow> sock' = sock \<and> r \<noteq> Waiting"
  by (auto simp: node_setup_def lnnode_setup_def new_socket_server_def
      split: sum.splits outcome.splits prod.splits if_splits option.splits)

text \<open>
  A run that has bound the socket leaves its file, unless \<open>main\<close> has removed it; a run that has not bound it leaves
  things as they were.
\<close>

fun leaves_socket :: "process_step \<Rightarrow> bool" where
  "leaves_socket (Run as es r) \<longleftrightarrow> r \<noteq> Returned (Inr ())"
| "leaves_socket (Killed as) \<longleftrightarrow> True"
| "leaves_socket (KilledStopping as es) \<longleftrightarrow> True"
| "leaves_socket _ \<longleftrightarrow> False"

fun before_socket :: "process_step \<Rightarrow> bool" where
  "before_socket (Refused r) \<longleftrightarrow> True"
| "before_socket KilledEarly \<longleftrightarrow> True"
| "before_socket _ \<longleftrightarrow> False"

lemma shutdown_frees:
  "lnnode_shutdown N H signal es removed s sock = (Returned (Inr ()), s', sock') \<Longrightarrow> \<not> sock'"
  by (auto simp: lnnode_shutdown_def finish_main_def split: prod.splits option.splits outcome.splits)

lemma process_socket:
  "process W E H L p x p' \<Longrightarrow> snd p' \<longleftrightarrow> leaves_socket x \<or> before_socket x \<and> snd p"
proof (induction rule: process.induct)
  case (refused f sock r sock' kv)
  with setup_keeps [OF refused] show ?case by simp
next
  case (ended f sock n sock1 kv pm bump as s signal es removed r s' sock')
  from setup_binds [OF ended(1)] shutdown_socket [of "se_node E" H signal es removed s r s' sock'] ended
    shutdown_frees [of "se_node E" H signal es removed s sock1 s' sock']
  show ?case by auto
qed (auto dest: setup_binds shutdown_frees)

lemma process_before_socket: "process W E H L p x p' \<Longrightarrow> before_socket x \<Longrightarrow> p' = p"
  by (induction rule: process.induct) (auto dest: setup_keeps)

text \<open>While the file is there, a run does not get past the binding of the socket.\<close>

lemma stale_socket_step:
  assumes "process W E H L p x p'" and "snd p" and "x \<noteq> Cleaned"
  shows "before_socket x \<and> x \<noteq> Refused (Returned (Inr ()))"
  using assms
proof (induction rule: process.induct)
  case (refused f sock r sock' kv)
  with setup_refused [of W f "Inl r" sock'] show ?case by auto
qed (auto dest: setup_refused)

lemma stale_socket_steps:
  assumes "steps (process W E H L) p xs p'"
  shows "snd p \<Longrightarrow> Cleaned \<notin> set xs \<Longrightarrow>
    p' = p \<and> (\<forall>x \<in> set xs. before_socket x \<and> x \<noteq> Refused (Returned (Inr ())))"
  using assms
proof induction
  case (steps_more p x p1 xs p')
  from stale_socket_step [OF steps_more.hyps(1) steps_more.prems(1)] steps_more.prems(2)
  have "before_socket x \<and> x \<noteq> Refused (Returned (Inr ()))" by auto
  with process_before_socket [OF steps_more.hyps(1)] steps_more.IH steps_more.prems show ?case by auto
qed simp

section \<open>A concrete machine for the witnesses\<close>

text \<open>A store and a wallet that exist already; LDK's formats hold nothing and the chain monitor is a tip.\<close>

definition sample_world ::
    "(bytes, bytes, cm_log, channel_id, best_block, string, u64, unit, unit, unit) world" where
  "sample_world =
     \<lparr>wo_libs =
        \<lparr>graph_key = (''g'', '''', ''g''), read_graph = Inr, new_graph = (\<lambda>n. []),
         scorer_key = (''s'', '''', ''s''), read_scorer = (\<lambda>g. Inr), new_scorer = (\<lambda>g. []),
         new_chain_monitor = ([], 0), new_manager = (\<lambda>c n best t. quiet_cm),
         read_manager = (\<lambda>c ms d. Inr (([], 0), quiet_cm)), monitor_channel_id = (\<lambda>m. m),
         watch_channel = (\<lambda>c i m. (Inr Completed, c)), node_id_of_keys = (\<lambda>seed. Inr (PublicKey seed)),
         peer_storage_key_of_keys = (\<lambda>seed. seed), base64_encode = (\<lambda>t. t)\<rparr>,
      wo_keys =
        \<lparr>parse_mnemonic = Inr, mnemonic_text = (\<lambda>m. m), from_entropy = (\<lambda>e. Inr ''a''), master_key_error = (\<lambda>m. None),
         load_wallet = (\<lambda>net db m. Inr db), create_wallet = (\<lambda>net m. Inr 700), ldk_seed = (\<lambda>m. Inr [2])\<rparr>,
      wo_kv = no_keys, wo_rpc = stateless_rpc (\<lambda>m args. Inl ''down''), wo_block_hash = (\<lambda>t. Some []),
      wo_ldk_default = sample_ldk_config, wo_home = Some ''/root'', wo_parse = (\<lambda>t. Inr sample_config)\<rparr>"

definition sample_found :: "(unit, u64, channel_id, unit, unit) found" where
  "sample_found =
     \<lparr>f_config_text = Inr (), f_entropy = ([0, 1], [5]), f_now = Inr 1000, f_monitors = Inr [],
      f_disk =
        \<lparr>node_dir = Inr True, create_dir_error = None,
         wallet_files = \<lparr>seed_file = Some ''ab'', seed_read_error = None, wallet_db = Some 700, db_open_error = None, seed_write_error = None\<rparr>,
         store_dir = Inr True, store_kv = (), manager_file = Inr [7]\<rparr>,
      f_rpc = (), f_bind_error = None\<rparr>"

definition sample_built :: "(bytes, bytes, cm_log, best_block, u64) built_node" where
  "sample_built = projr (fst (node_setup sample_world sample_found False))"

lemma sample_setup_ok: "node_setup sample_world sample_found False = (Inr sample_built, True)"
proof -
  have "(case node_setup sample_world sample_found False of (Inr n, sock) \<Rightarrow> sock | _ \<Rightarrow> False)" by code_simp
  then show ?thesis unfolding sample_built_def by (auto split: prod.splits sum.splits)
qed

definition sample_boot :: "mem_store \<Rightarrow> (mem_store, cm_log, u64, peer_details list, u8, best_block) system" where
  "sample_boot kv = booted sample_built kv [] 0"

definition boot_after :: "mem_store \<Rightarrow> task_step list \<Rightarrow> (mem_store, cm_log, u64, peer_details list, u8, best_block) system" where
  "boot_after kv as = (case system_exec_run sample_server sample_handler idle_listeners (sample_boot kv) as of
     None \<Rightarrow> sample_boot kv | Some s \<Rightarrow> s)"

lemma boot_afterI:
  "(case system_exec_run sample_server sample_handler idle_listeners (sample_boot kv) as of None \<Rightarrow> False | Some s \<Rightarrow> True) \<Longrightarrow>
     system_run sample_server sample_handler idle_listeners (booted sample_built kv [] 0) as (boot_after kv as)"
  by (simp add: system_exec_run_iff boot_after_def sample_boot_def split: option.splits)

abbreviation sample_process :: "mem_store \<times> bool \<Rightarrow> process_step \<Rightarrow> mem_store \<times> bool \<Rightarrow> bool" where
  "sample_process \<equiv> process sample_world sample_server sample_handler idle_listeners"

text \<open>A payment in a run that is killed; the file of the socket is removed; in the next run its success arrives before the
  shutdown.\<close>

definition first_steps :: "task_step list" where
  "first_steps = [StartDone (Inr ()) [], BeginPayment sample_invoice, EndPayment True]"

definition killed_store :: mem_store where
  "killed_store = sys_store (boot_after empty_store first_steps)"

definition second_end :: "main_end \<times> (mem_store, cm_log, u64, peer_details list, u8, best_block) system \<times> bool" where
  "second_end = lnnode_shutdown (se_node sample_server) sample_handler (Inr ()) [sent_event] (Inr ())
     (boot_after killed_store [StartDone (Inr ()) []]) True"

lemma boot_runs:
  "system_run sample_server sample_handler idle_listeners (booted sample_built empty_store [] 0) first_steps
     (boot_after empty_store first_steps)"
  "system_run sample_server sample_handler idle_listeners (booted sample_built killed_store [] 0) [StartDone (Inr ()) []]
     (boot_after killed_store [StartDone (Inr ()) []])"
  by (rule boot_afterI, code_simp)+

lemma sample_processes:
  "sample_process (empty_store, False) (Killed first_steps) (killed_store, True)"
  "fst second_end = Returned (Inr ()) \<Longrightarrow>
     sample_process (killed_store, False) (Run [StartDone (Inr ()) []] [sent_event] (Returned (Inr ())))
       (sys_store (fst (snd second_end)), snd (snd second_end))"
proof -
  show "sample_process (empty_store, False) (Killed first_steps) (killed_store, True)"
    unfolding killed_store_def by (rule process.killed [OF sample_setup_ok boot_runs(1)])
  assume success: "fst second_end = Returned (Inr ())"
  have "lnnode_shutdown (se_node sample_server) sample_handler (Inr ()) [sent_event] (Inr ())
      (boot_after killed_store [StartDone (Inr ()) []]) True =
      (Returned (Inr ()), fst (snd second_end), snd (snd second_end))"
    unfolding success [symmetric] by (simp add: second_end_def)
  from process.ended [OF sample_setup_ok boot_runs(2) this] show
    "sample_process (killed_store, False) (Run [StartDone (Inr ()) []] [sent_event] (Returned (Inr ())))
       (sys_store (fst (snd second_end)), snd (snd second_end))" by simp
qed

lemma sample_store_good: "store_good (sys_env_store sample_server) (\<lambda>kv. \<not> write_fails kv) empty_store"
proof -
  have store: "sys_store sample_system = empty_store" by (simp add: sample_system_def sample_flow_def)
  from sample_system_laws(4) show ?thesis unfolding system_inv_def store_good_def store by blast
qed

lemma sample_peers_writable: "peers_writable (sys_env_store sample_server) (\<lambda>kv. \<not> write_fails kv)"
  by (simp add: peers_writable_def sample_server_def add_peer_def ref_env_def mem_kv_def mem_write_def)

section \<open>Properties\<close>

text \<open>
  C1: outcomes over restarts: through any number of runs of the program on one machine, from the configuration
  file to the exit, each shut down in order or not or killed at any moment, the store stays typed, and a payment that ends up
  \<open>Succeeded\<close> or \<open>Failed\<close> and was not so at the beginning had an event with that outcome for its id handed over in
  one of the runs.
\<close>

theorem outcomes_over_restarts:
  assumes "store_laws (sys_env_store E)" and "writable (sys_env_store E) good"
    and "peers_writable (sys_env_store E) good" and "env_store H = sys_env_store E"
    and "store_good (sys_env_store E) good kv" and "steps (process W E H L) (kv, sock) xs (kv', sock')"
    and "st \<noteq> Pending"
  shows "payments_wf (sys_env_store E) kv' \<and> peers_wf (sys_env_store E) kv' \<and>
    (has_status st (payments_view (sys_env_store E) kv' i) \<longrightarrow>
       has_status st (payments_view (sys_env_store E) kv i) \<or>
       (\<exists>x e. x \<in> set xs \<and> Event e \<in> set (steps_of x) \<and> event_target e = Some i \<and> event_status e = st))"
  using process_runs.steps_inv [of "(W, E, H, L, good)" "(kv, sock)" xs "(kv', sock')"]
    process_runs.steps_cause [of "(W, E, H, L, good)" "(kv, sock)" xs "(kv', sock')" "(st, i)"]
    assms by (fastforce simp: process_laws_def store_good_def concludes_def outcome_def)

theorem outcomes_over_restarts_witness:
  "has_status Succeeded (payments_view (sys_env_store sample_server) (sys_store (fst (snd second_end))) (PaymentId [7, 1])) \<and>
   (\<exists>x e. x \<in> set [Killed first_steps, Cleaned, Run [StartDone (Inr ()) []] [sent_event] (Returned (Inr ()))] \<and>
      Event e \<in> set (steps_of x) \<and> event_target e = Some (PaymentId [7, 1]) \<and> event_status e = Succeeded)"
proof -
  let ?view = "\<lambda>kv. payments_view (sys_env_store sample_server) kv (PaymentId [7, 1])"
  have after: "has_status Succeeded (?view (sys_store (fst (snd second_end))))" by code_simp
  have before: "\<not> has_status Succeeded (?view empty_store)" by code_simp
  have "fst second_end = Returned (Inr ())" by code_simp
  from sample_processes(1) sample_processes(2) [OF this] process.cleaned
  have runs: "steps sample_process (empty_store, False)
      [Killed first_steps, Cleaned, Run [StartDone (Inr ()) []] [sent_event] (Returned (Inr ()))]
      (sys_store (fst (snd second_end)), snd (snd second_end))"
    unfolding steps_Cons steps_Nil by metis
  from outcomes_over_restarts [OF sample_system_laws(1,2) sample_peers_writable sample_system_laws(3) sample_store_good runs, of Succeeded "PaymentId [7, 1]"]
    after before show ?thesis by blast
qed

text \<open>
  C8: the file of the socket decides whether the program can run again. After a run the file is there exactly when the run had bound
  the socket and did not get to remove it (it was killed while its tasks ran or while it was being stopped, or it ended in any
  other way than with success), or when the run ended before binding it and the file was there already. And while it is there, until
  somebody removes it, every later run is over before its tasks begin (it is killed, or ends, with an error or a panic), and the
  store stays as it is, whatever the configuration, the disk and bitcoind are by then.
\<close>

theorem unclean_end_blocks_restart:
  assumes "process W E H L p x p1" and "steps (process W E H L) p1 xs p'" and "Cleaned \<notin> set xs"
  shows "(snd p1 \<longleftrightarrow>
      (case x of Run as es r \<Rightarrow> r \<noteq> Returned (Inr ()) | Killed as \<Rightarrow> True | KilledStopping as es \<Rightarrow> True
       | Refused r \<Rightarrow> snd p | KilledEarly \<Rightarrow> snd p | KilledFreed as es \<Rightarrow> False | Cleaned \<Rightarrow> False)) \<and>
    (snd p1 \<longrightarrow> p' = p1 \<and> (\<forall>y \<in> set xs. y = KilledEarly \<or> (\<exists>m. y = Refused m \<and> m \<noteq> Returned (Inr ()))))"
proof
  from process_socket [OF assms(1)] show "snd p1 \<longleftrightarrow>
      (case x of Run as es r \<Rightarrow> r \<noteq> Returned (Inr ()) | Killed as \<Rightarrow> True | KilledStopping as es \<Rightarrow> True
       | Refused r \<Rightarrow> snd p | KilledEarly \<Rightarrow> snd p | KilledFreed as es \<Rightarrow> False | Cleaned \<Rightarrow> False)"
    by (cases x) simp_all
  have "y = KilledEarly \<or> (\<exists>m. y = Refused m \<and> m \<noteq> Returned (Inr ()))"
    if "before_socket y \<and> y \<noteq> Refused (Returned (Inr ()))" for y
    using that by (cases y) auto
  with stale_socket_steps [OF assms(2) _ assms(3)] show "snd p1 \<longrightarrow> p' = p1 \<and>
      (\<forall>y \<in> set xs. y = KilledEarly \<or> (\<exists>m. y = Refused m \<and> m \<noteq> Returned (Inr ())))"
    by blast
qed

theorem unclean_end_blocks_restart_witness:
  "\<exists>r. sample_process (empty_store, False) (Killed first_steps) (killed_store, True) \<and>
     sample_process (killed_store, True) (Refused r) (killed_store, True) \<and> r \<noteq> Returned (Inr ())"
proof -
  obtain x sock' where again: "node_setup sample_world sample_found True = (x, sock')"
    by (cases "node_setup sample_world sample_found True")
  with setup_refused [OF again] obtain r where "node_setup sample_world sample_found True = (Inl r, True)" by auto
  from process.refused [OF this] have later: "sample_process (killed_store, True) (Refused r) (killed_store, True)" .
  then have "steps sample_process (killed_store, True) [Refused r] (killed_store, True)"
    by (simp add: steps_single)
  from unclean_end_blocks_restart [OF sample_processes(1) this] later sample_processes(1) show ?thesis by auto
qed

text \<open>
  C9: a start whose first synchronisation fails leaves a node that serves in vain. The server is still there unless a request of
  its own ended it, and every request that the node can answer is answered; but no event is ever handled, so that no payment
  of the run becomes \<open>Succeeded\<close> or \<open>Failed\<close>; and however the run is shut down, it ends with an error, nothing more is
  saved, and the socket's file stays.
\<close>

theorem failed_start_serves_in_vain:
  assumes "store_laws (sys_env_store E)" and "writable (sys_env_store E) good" and "env_store H = sys_env_store E"
    and "store_good (sys_env_store E) good kv" and "node_setup W f sock = (Inr n, sock1)"
    and "system_run E H L (booted n kv pm bump) as s" and "StartDone (Inl e) ns \<in> set as" and "st \<noteq> Pending"
    and "lnnode_shutdown (se_node E) H signal es removed s sock1 = (r, s', sock')"
  shows "((\<forall>a \<in> set as. \<not> serves a) \<longrightarrow> server_alive s) \<and>
    (server_alive s \<and> flow_calls (sys_flow s) = [] \<and> handle_connection E (sys_node s) data rand_id = (Answer v, n1) \<longrightarrow>
       (\<exists>s1. system_step E H L s (Request data rand_id (drawn_invoice E (sys_node s) data) True) s1 \<and>
          sys_node s1 = n1 \<and> server_alive s1 \<and> sys_start s1 = StartFailed e)) \<and>
    Event ev \<notin> set as \<and>
    (has_status st (payments_view (sys_env_store E) (sys_store s) i) \<longrightarrow> has_status st (payments_view (sys_env_store E) kv i)) \<and>
    (\<exists>m. r = Returned (Inl m)) \<and> sock' \<and> sys_store s' = sys_store s"
proof (intro conjI)
  have failed: "sys_start s = StartFailed e" and none: "\<And>ev. Event ev \<notin> set as"
    using failed_start_run [OF assms(6,7)] by auto
  show "(\<forall>a \<in> set as. \<not> serves a) \<longrightarrow> server_alive s"
    using system_run_serving [OF assms(6)] by (simp add: booted_def)
  show "server_alive s \<and> flow_calls (sys_flow s) = [] \<and> handle_connection E (sys_node s) data rand_id = (Answer v, n1) \<longrightarrow>
       (\<exists>s1. system_step E H L s (Request data rand_id (drawn_invoice E (sys_node s) data) True) s1 \<and>
          sys_node s1 = n1 \<and> server_alive s1 \<and> sys_start s1 = StartFailed e)"
  proof
    assume can: "server_alive s \<and> flow_calls (sys_flow s) = [] \<and> handle_connection E (sys_node s) data rand_id = (Answer v, n1)"
    then have "system_step E H L s (Request data rand_id (drawn_invoice E (sys_node s) data) True)
        ((set_node s n1)\<lparr>server_alive := answered (Answer v) \<and> True\<rparr>)"
      by (intro system_step.request) simp_all
    with failed show "\<exists>s1. system_step E H L s (Request data rand_id (drawn_invoice E (sys_node s) data) True) s1 \<and>
          sys_node s1 = n1 \<and> server_alive s1 \<and> sys_start s1 = StartFailed e"
      by (intro exI [of _ "(set_node s n1)\<lparr>server_alive := answered (Answer v) \<and> True\<rparr>"])
        (simp add: set_node_def answered_def)
  qed
  show "Event ev \<notin> set as" by (rule none)
  show "has_status st (payments_view (sys_env_store E) (sys_store s) i) \<longrightarrow> has_status st (payments_view (sys_env_store E) kv i)"
    using booted_run(2) [OF assms(1-3,6,4), of st i] none assms(8) by (auto simp: outcome_def concludes_def)
  from setup_binds [OF assms(5)] assms(9) have "lnnode_shutdown (se_node E) H signal es removed s True = (r, s', sock')" by simp
  with failed show "\<exists>m. r = Returned (Inl m)" and "sock'" and "sys_store s' = sys_store s"
    by (auto simp: lnnode_shutdown_def node_task_def finish_main_def)
qed

definition vain_steps :: "task_step list" where
  "vain_steps = [BeginPayment sample_invoice, StartDone (Inl ''bitcoind is down'') [], EndPayment True]"

definition vain_end :: "main_end \<times> (mem_store, cm_log, u64, peer_details list, u8, best_block) system \<times> bool" where
  "vain_end = lnnode_shutdown (se_node sample_server) sample_handler (Inr ()) [] (Inr ()) (boot_after empty_store vain_steps) True"

theorem failed_start_serves_in_vain_witness:
  "has_status Pending (payments_view (sys_env_store sample_server) (sys_store (boot_after empty_store vain_steps)) (PaymentId [7, 1])) \<and>
   (\<exists>s1. system_step sample_server sample_handler idle_listeners (boot_after empty_store vain_steps)
      (Request (Inr [123, 3, 125]) 1 None True) s1 \<and> server_alive s1) \<and>
   (\<exists>m. fst vain_end = Returned (Inl m)) \<and> snd (snd vain_end)"
proof -
  let ?s = "boot_after empty_store vain_steps"
  have run: "system_run sample_server sample_handler idle_listeners (booted sample_built empty_store [] 0) vain_steps ?s"
    by (rule boot_afterI) code_simp
  have down: "lnnode_shutdown (se_node sample_server) sample_handler (Inr ()) [] (Inr ()) ?s True =
      (fst vain_end, fst (snd vain_end), snd (snd vain_end))"
    by (simp add: vain_end_def)
  have fails: "StartDone (Inl ''bitcoind is down'') [] \<in> set vain_steps" by (simp add: vain_steps_def)
  have pending: "has_status Pending (payments_view (sys_env_store sample_server) (sys_store ?s) (PaymentId [7, 1]))"
    by code_simp
  have can: "server_alive ?s" "flow_calls (sys_flow ?s) = []" by code_simp+
  have "case fst (handle_connection sample_server (sys_node ?s) (Inr [123, 3, 125]) 1) of Answer v \<Rightarrow> True | _ \<Rightarrow> False"
    by code_simp
  then obtain v where "fst (handle_connection sample_server (sys_node ?s) (Inr [123, 3, 125]) 1) = Answer v"
    by (auto split: reply.splits)
  then obtain n1 where answer: "handle_connection sample_server (sys_node ?s) (Inr [123, 3, 125]) 1 = (Answer v, n1)"
    by (metis prod.collapse)
  have drawn: "drawn_invoice sample_server (sys_node ?s) (Inr [123, 3, 125]) = None" by code_simp
  note vain = failed_start_serves_in_vain [OF sample_system_laws(1-3) sample_store_good sample_setup_ok run fails _ down,
      of Succeeded "Inr [123, 3, 125]" 1 v n1]
  from vain [of sent_event "PaymentId [7, 1]"] can answer drawn have "\<exists>s1. system_step sample_server sample_handler idle_listeners ?s
      (Request (Inr [123, 3, 125]) 1 None True) s1 \<and> server_alive s1" "\<exists>m. fst vain_end = Returned (Inl m)" "snd (snd vain_end)"
    by (simp_all only: simp_thms, blast+)
  with pending show ?thesis by blast
qed

end
