(* ===== verification/RecordFrames.thy ===== *)
theory RecordFrames
  imports NodeLives
begin

text \<open>
  What can change the stored record of one payment, in any run of the program: an outcome event for it, a payment of an
  invoice with its hash, an invoice that LDK draws with that hash, and nothing else. The steps of the tasks, the shutdown and the restarts are followed
  through \<open>caused_steps\<close> again, now with "the record is no longer what it was" as the fact that has causes.
\<close>

section \<open>Causes\<close>

text \<open>The invoice that a request asks the server to pay, and the steps that may write the record of \<open>i\<close>.\<close>

definition asked_invoice :: "('kv, 'cm, 'w, 'p, 'pm) server_env \<Rightarrow> string + bytes \<Rightarrow> bolt11_invoice option" where
  "asked_invoice E data =
     Option.bind (asks_for E ''send_payment'' data) (\<lambda>j.
     Option.bind (json_as_str (param j ''invoice'')) (se_parse_invoice E))"

definition invoice_of :: "bolt11_invoice \<Rightarrow> payment_id" where
  "invoice_of invoice = PaymentId (invoice_payment_hash invoice)"

fun concerns :: "('kv, 'cm, 'w, 'p, 'pm) server_env \<Rightarrow> payment_id \<Rightarrow> task_step \<Rightarrow> bool" where
  "concerns E i (Event e) = (event_target e = Some i)"
| "concerns E i (BeginPayment invoice) = (invoice_of invoice = i)"
| "concerns E i (Request data rand_id drawn writes) =
     (map_option invoice_of (asked_invoice E data) = Some i \<or> map_option invoice_of drawn = Some i)"
| "concerns E i _ = False"

section \<open>One step\<close>

text \<open>A write of at most one record with another id.\<close>

definition writes_other :: "'kv store_env \<Rightarrow> payment_id \<Rightarrow> 'kv \<Rightarrow> 'kv \<Rightarrow> bool" where
  "writes_other S i kv kv' \<longleftrightarrow> kv' = kv \<or> (\<exists>p. payment_id p \<noteq> i \<and> kv' = snd (add_payment S kv p))"

lemma writes_other_view:
  assumes "store_laws S" and "writable S good" and "good kv" and "writes_other S i kv kv'"
  shows "payments_view S kv' i = payments_view S kv i"
proof -
  consider "kv' = kv" | p where "payment_id p \<noteq> i" "add_payment S kv p = (Inr (), kv')"
    using assms(4) writableD [OF assms(2,3)] unfolding writes_other_def by (metis snd_conv)
  then show ?thesis using payments.put_refines [OF assms(1)] by cases auto
qed

lemma writes_other_add: "payment_id p \<noteq> i \<Longrightarrow> writes_other S i kv (snd (add_payment S kv p))"
  unfolding writes_other_def by blast

lemma pay_writes_other:
  assumes "pay_bolt11_invoice N n invoice msat = (r, n')" and "invoice_of invoice \<noteq> i"
  shows "writes_other (ne_store N) i (n_node_store n) (n_node_store n')"
proof (cases rule: pay_bolt11_invoice_cases [of N n invoice msat])
  case (refused e s1)
  with assms(1) show ?thesis by (simp add: writes_other_def)
next
  case (sent p s1)
  obtain amount cm where "p = outbound_payment invoice amount" "s1 = n\<lparr>n_channel_manager := cm\<rparr>"
    by (rule send_invoice_Inr [OF sent(1)])
  with record_payment_adds [of N s1 p r n'] sent(2) assms writes_other_add [of p i] show ?thesis
    by (simp add: outbound_payment_def invoice_of_def)
qed

lemma create_writes_other:
  assumes "create_bolt11_invoice N n msat = (r, n')"
    and "\<And>invoice. fst (cm_create_bolt11_invoice (ne_cm N) (n_channel_manager n) msat) = Inr invoice \<Longrightarrow> invoice_of invoice \<noteq> i"
  shows "writes_other (ne_store N) i (n_node_store n) (n_node_store n')"
proof (cases "cm_create_bolt11_invoice (ne_cm N) (n_channel_manager n) msat")
  case (Pair x cm)
  show ?thesis
  proof (cases x)
    case (Inl e)
    with Pair assms(1) show ?thesis by (auto simp: create_bolt11_invoice_def writes_other_def)
  next
    case (Inr invoice)
    with Pair assms(2) [of invoice] have "payment_id (inbound_payment_of invoice msat) \<noteq> i"
      by (simp add: inbound_payment_of_def invoice_of_def)
    from writes_other_add [OF this, of "ne_store N" "n_node_store n"] Inr Pair assms(1) show ?thesis
      by (auto simp: create_bolt11_invoice_def split: prod.splits)
  qed
qed

lemma connection_writes:
  assumes "handle_connection E n data rand_id = (r, n')"
  shows "n_node_store n' = n_node_store n \<or>
    (\<exists>invoice x. asked_invoice E data = Some invoice \<and> pay_bolt11_invoice (se_node E) n invoice None = (x, n')) \<or>
    (\<exists>msat x. drawn_invoice E n data = result_ok (fst (cm_create_bolt11_invoice (ne_cm (se_node E)) (n_channel_manager n) (Some msat))) \<and>
       create_bolt11_invoice (se_node E) n (Some msat) = (x, n'))"
proof (cases "requested E data")
  case None
  with assms show ?thesis
    by (auto simp: requested_def handle_connection_def result_ok_def split: sum.splits)
next
  case (Some j)
  with assms handle_connection_requested [OF Some, of n rand_id] have served: "serve E rand_id n j = (r, n')" by simp
  let ?pays = "\<exists>invoice x. asked_invoice E data = Some invoice \<and> pay_bolt11_invoice (se_node E) n invoice None = (x, n')"
  let ?draws = "\<exists>msat x. drawn_invoice E n data =
      result_ok (fst (cm_create_bolt11_invoice (ne_cm (se_node E)) (n_channel_manager n) (Some msat))) \<and>
    create_bolt11_invoice (se_node E) n (Some msat) = (x, n')"
  have pays: "?pays \<or> n' = n" if "json_as_str (json_index j ''method'') = Some ''send_payment''"
      "serve_send_payment E n j = (r, n')"
    using that Some
    by (auto simp: asked_invoice_def asks_for_def serve_send_payment_def str_param_def bind_outcome_def unwrap_def
        split: outcome.splits option.splits prod.splits sum.splits)
  have draws: "?draws \<or> n' = n" if "json_as_str (json_index j ''method'') = Some ''receive''" "serve_receive E n j = (r, n')"
    using that Some
    by (auto simp: drawn_invoice_def asks_for_def serve_receive_def u64_param_def bind_outcome_def unwrap_def
        split: outcome.splits option.splits prod.splits)
  from served show ?thesis
    by (auto simp: serve_def serve_new_address_def serve_balance_def serve_open_channel_def serve_close_channel_def
        serve_get_payment_def serve_connect_def open_channel_def close_channel_def unwrap_def
        split: outcome.splits prod.splits sum.splits if_splits option.splits
        dest: pays draws new_onchain_address_frame)
qed

lemma handle_event_frame:
  assumes "store_laws S" and "writable S good" and "env_store H = S"
    and "payments_wf S (node_store h)" and "good (node_store h)" and "handle_event H h e = (r, h')"
    and "event_target e \<noteq> Some i"
  shows "payments_view S (node_store h') i = payments_view S (node_store h) i"
proof (cases r)
  case (Return x)
  from handle_event_view(1) [OF assms(1,3,2,4,5) assms(6) [unfolded Return], of i] assms(7) show ?thesis
    by (simp add: event_effect_other option.map_ident_strong)
next
  case (Panic m)
  with handle_event_panic_store [OF assms(6) [unfolded Panic]] show ?thesis by simp
qed

text \<open>The record of \<open>i\<close> is no longer \<open>v\<close>, or is about to be written by a payment call in progress.\<close>

definition moved :: "'kv store_env \<Rightarrow> payment_id \<Rightarrow> payment option \<Rightarrow> ('kv, 'cm, 'w, 'pm, 'b, 'mon) system \<Rightarrow> bool" where
  "moved S i v s \<longleftrightarrow> payments_view S (sys_store s) i \<noteq> v \<or> (\<exists>p \<in> set (flow_calls (sys_flow s)). payment_id p = i)"

lemma not_movedI:
  assumes "\<not> moved S i v s" and "payments_view S (sys_store s') i = payments_view S (sys_store s) i"
    and "\<And>p. p \<in> set (flow_calls (sys_flow s')) \<Longrightarrow> payment_id p \<noteq> i"
  shows "\<not> moved S i v s'"
  using assms by (auto simp: moved_def)

lemma system_step_moved:
  assumes "store_laws (sys_env_store E)" and "writable (sys_env_store E) good" and "env_store H = sys_env_store E"
    and "system_step E H L s a s'" and "system_inv (sys_env_store E) good s"
    and "moved (sys_env_store E) i v s'"
  shows "moved (sys_env_store E) i v s \<or> concerns E i a"
proof (rule ccontr)
  assume "\<not> (moved (sys_env_store E) i v s \<or> concerns E i a)"
  then have still: "\<not> moved (sys_env_store E) i v s" and free: "\<not> concerns E i a" by simp_all
  from still have calls: "payment_id p \<noteq> i" if "p \<in> set (flow_calls (sys_flow s))" for p
    using that by (auto simp: moved_def)
  from assms(5) have inv: "payments_wf (sys_env_store E) (sys_store s)" "good (sys_store s)"
    by (simp_all add: system_inv_def)
  have frame: "\<not> moved (sys_env_store E) i v s1"
    if "writes_other (sys_env_store E) i (sys_store s) (sys_store s1)"
      "\<And>p. p \<in> set (flow_calls (sys_flow s1)) \<Longrightarrow> payment_id p \<noteq> i" for s1
    by (rule not_movedI [OF still writes_other_view [OF assms(1,2) inv(2) that(1)] that(2)])
  from assms(4) have "\<not> moved (sys_env_store E) i v s'"
  proof cases
    case (event e r h)
    have "payments_view (sys_env_store E) (node_store h) i = payments_view (sys_env_store E) (sys_store s) i"
      using handle_event_frame [OF assms(1-3) _ _ event(5), of i] inv free event(1) by (simp add: handler_of_def)
    with event(2) show ?thesis by (intro not_movedI [OF still]) (use calls in \<open>auto simp: with_handler_def\<close>)
  next
    case (request data rand_id r n drawn writes)
    have "writes_other (sys_env_store E) i (sys_store s) (n_node_store n)"
      using connection_writes [OF request(5)]
    proof (elim disjE exE conjE)
      assume "n_node_store n = sys_store s"
      then show ?thesis by (simp add: writes_other_def)
    next
      fix invoice x
      assume asked: "asked_invoice E data = Some invoice"
        and paid: "pay_bolt11_invoice (se_node E) (sys_node s) invoice None = (x, n)"
      from asked free request(1) show ?thesis by (intro pay_writes_other [OF paid]) simp
    next
      fix msat x
      assume "drawn_invoice E (sys_node s) data =
          result_ok (fst (cm_create_bolt11_invoice (ne_cm (se_node E)) (n_channel_manager (sys_node s)) (Some msat)))"
        and made: "create_bolt11_invoice (se_node E) (sys_node s) (Some msat) = (x, n)"
      with free request(1,6) show ?thesis by (intro create_writes_other [OF made]) auto
    qed
    with request(2) calls show ?thesis by (intro frame) (auto simp: set_node_def)
  next
    case (begin_payment invoice p n)
    from send_invoice_frame [OF begin_payment(5)] have store: "n_node_store n = sys_store s" by simp
    obtain amount cm where "p = outbound_payment invoice amount"
      by (rule send_invoice_Inr [OF begin_payment(5)])
    then have "payment_id p = invoice_of invoice" by (simp add: outbound_payment_def invoice_of_def)
    with begin_payment(1,2) free store show ?thesis by (intro frame) (auto simp: writes_other_def)
  next
    case (end_payment p r n writes)
    from record_payment_adds [OF end_payment(5)] have "n_node_store n = snd (add_payment (sys_env_store E) (sys_store s) p)"
      by simp
    with end_payment(2) writes_other_add [OF calls, of p "sys_env_store E" "sys_store s"] end_payment(4) show ?thesis
      by (intro frame) auto
  next
    case (notified n r l)
    with calls show ?thesis by (intro frame) (auto simp: writes_other_def with_listener_def set_node_def)
  next
    case (start_done synced ns)
    with calls show ?thesis by (intro frame) (auto simp: writes_other_def set_node_def)
  next
    case (wallet_sync emitted r lock)
    with calls show ?thesis by (intro frame) (auto simp: writes_other_def set_node_def)
  next
    case (poll_failed e)
    with still show ?thesis by (simp add: moved_def)
  next
    case (background_failed e)
    with still show ?thesis by (simp add: moved_def)
  qed
  with assms(6) show False by contradiction
qed

section \<open>Runs, shutdowns and restarts\<close>

definition frame_laws :: "('kv, 'cm, 'w, 'p, 'pm) server_env \<times> ('kv, 'cm, 'w, 'p, 'b) handler_env \<times>
    ('cm, 'mon) listen_ops \<times> ('kv \<Rightarrow> bool) \<times> payment_id \<Rightarrow> bool" where
  "frame_laws e = (case e of (E, H, L, good, i) \<Rightarrow> store_laws (sys_env_store E) \<and> writable (sys_env_store E) good \<and>
     env_store H = sys_env_store E)"

interpretation node_frames: caused_steps frame_laws "\<lambda>(E, H, L, good, i). system_step E H L"
  "\<lambda>(E, H, L, good, i). system_inv (sys_env_store E) good"
  "\<lambda>(E, H, L, good, i) v. moved (sys_env_store E) i v" "\<lambda>(E, H, L, good, i) v. concerns E i"
  by unfold_locales (auto simp: frame_laws_def dest: system_step_inv system_step_moved)

lemma booted_run_frame:
  assumes "frame_laws (E, H, L, good, i)" and "system_run E H L (booted n kv pm bump) as s"
    and "store_good (sys_env_store E) good kv" and "\<forall>a \<in> set as. \<not> concerns E i a"
  shows "payments_view (sys_env_store E) (sys_store s) i = payments_view (sys_env_store E) kv i"
  using node_frames.steps_no_cause [OF assms(1), of "booted n kv pm bump" as s "payments_view (sys_env_store E) kv i"]
    assms(2-4) booted_inv [OF assms(3), of n pm bump]
  by (simp add: moved_def)

lemma run_events_frame:
  assumes "store_laws S" and "writable S good" and "env_store H = S"
  shows "store_good S good (node_store h) \<Longrightarrow> run_events H h es = (r, h') \<Longrightarrow> \<forall>e \<in> set es. event_target e \<noteq> Some i \<Longrightarrow>
    payments_view S (node_store h') i = payments_view S (node_store h) i"
proof (induction es arbitrary: h)
  case (Cons e es)
  obtain x h1 where x: "handle_event H h e = (x, h1)" by (cases "handle_event H h e")
  have wf: "payments_wf S (node_store h)" "good (node_store h)" "peers_wf S (node_store h)"
    using Cons.prems(1) by (simp_all add: store_good_def)
  from handle_event_inv [OF assms wf(1,2) x] wf(3) have good: "store_good S good (node_store h1)"
    by (simp add: store_good_def)
  from handle_event_frame [OF assms wf(1,2) x, of i] Cons.prems(3)
  have "payments_view S (node_store h1) i = payments_view S (node_store h) i" by simp
  with Cons.IH [OF good] Cons.prems(2,3) x show ?case by (cases x) simp_all
qed simp

text \<open>The same for a run that is killed while the node is being stopped.\<close>

lemma stopping_store_frame:
  assumes "store_laws (ne_store N)" and "writable (ne_store N) good" and "env_store H = ne_store N"
    and "store_good (ne_store N) good (sys_store s)" and "\<forall>e \<in> set es. event_target e \<noteq> Some i"
  shows "payments_view (ne_store N) (stopping_store N H es k s) i = payments_view (ne_store N) (sys_store s) i"
proof -
  have same: "node_store (handler_of (sys_flow s)) = sys_store s" by (simp add: handler_of_def)
  obtain x h ps where h: "run_events H (handler_of (sys_flow s)) es = (x, h)"
    and store: "stopping_store N H es k s = put_each add_peer (ne_store N) (node_store h) ps"
    by (rule stopping_store_cases)
  from run_events_frame [OF assms(1-3) _ h assms(5), unfolded same, OF assms(4)] put_each_add_peer_payments [OF assms(1)]
  show ?thesis by (simp add: store)
qed

lemma shutdown_frame:
  assumes "store_laws (ne_store N)" and "writable (ne_store N) good" and "env_store H = ne_store N"
    and "store_good (ne_store N) good (sys_store s)" and "lnnode_shutdown N H signal es removed s sock = (r, s', sock')"
    and "\<forall>e \<in> set es. event_target e \<noteq> Some i"
  shows "payments_view (ne_store N) (sys_store s') i = payments_view (ne_store N) (sys_store s) i"
proof -
  let ?h = "handler_of (sys_flow (signalled signal s))"
  have start: "store_good (ne_store N) good (node_store ?h)" "node_store ?h = sys_store s"
    using assms(4) by (simp_all add: handler_of_def)
  note frame = run_events_frame [OF assms(1-3) start(1) _ assms(6), unfolded start(2)]
  from lnnode_shutdown_store [OF assms(5)] show ?thesis
  proof (elim disjE exE conjE)
    fix x s1
    assume x: "stop_node N H es (signalled signal s) = (x, s1)" "sys_store s' = sys_store s1"
    from x(1) show ?thesis
    proof (cases rule: stop_node_cases)
      case 1
      with x(2) show ?thesis by simp
    next
      case (2 y h)
      with x(2) frame [OF 2(1)] show ?thesis by simp
    next
      case (3 y h)
      with x(2) frame [OF 3(1)] put_each_add_peer_payments [OF assms(1)] show ?thesis by simp
    qed
  qed simp
qed

lemma process_frame:
  assumes "frame_laws (E, H, L, good, i)" and "peers_writable (sys_env_store E) good"
    and "process W E H L p x p'" and "store_good (sys_env_store E) good (fst p)"
    and "\<forall>a \<in> set (steps_of x). \<not> concerns E i a"
  shows "payments_view (sys_env_store E) (fst p') i = payments_view (sys_env_store E) (fst p) i"
proof -
  have laws: "store_laws (sys_env_store E)" "writable (sys_env_store E) good" "env_store H = sys_env_store E"
    using assms(1) by (simp_all add: frame_laws_def)
  have split: "(\<forall>a \<in> set as. \<not> concerns E i a) \<and> (\<forall>e \<in> set es. event_target e \<noteq> Some i)"
    if "\<forall>a \<in> set (as @ map Event es). \<not> concerns E i a" for as es
    using that by (auto simp: ball_Un)
  from assms(3) show ?thesis
  proof cases
    case (ended f sock n sock1 kv pm bump as s signal es removed r s' sock')
    from ended(1) assms(4) have kv: "store_good (sys_env_store E) good kv" by simp
    from split [of as es] ended(2) assms(5) have free: "\<forall>a \<in> set as. \<not> concerns E i a" "\<forall>e \<in> set es. event_target e \<noteq> Some i"
      by simp_all
    from booted_run_frame [OF assms(1) ended(5) kv free(1)]
      shutdown_frame [OF laws booted_run(1) [OF laws ended(5) kv] ended(6) free(2)] ended(1,3)
    show ?thesis by simp
  next
    case (killed_freed f sock n sock1 kv pm bump as s signal es removed s' sock')
    from killed_freed(1) assms(4) have kv: "store_good (sys_env_store E) good kv" by simp
    from split [of as es] killed_freed(2) assms(5)
    have free: "\<forall>a \<in> set as. \<not> concerns E i a" "\<forall>e \<in> set es. event_target e \<noteq> Some i" by simp_all
    from booted_run_frame [OF assms(1) killed_freed(5) kv free(1)]
      shutdown_frame [OF laws booted_run(1) [OF laws killed_freed(5) kv] killed_freed(6) free(2)] killed_freed(1,3)
    show ?thesis by simp
  next
    case (killed_stopping f sock n sock1 kv pm bump as s es k)
    from killed_stopping(1) assms(4) have kv: "store_good (sys_env_store E) good kv" by simp
    from split [of as es] killed_stopping(2) assms(5)
    have free: "\<forall>a \<in> set as. \<not> concerns E i a" "\<forall>e \<in> set es. event_target e \<noteq> Some i" by simp_all
    from booted_run_frame [OF assms(1) killed_stopping(5) kv free(1)]
      stopping_store_frame [OF laws booted_run(1) [OF laws killed_stopping(5) kv] free(2)] killed_stopping(1,3)
    show ?thesis by simp
  next
    case (killed f sock n sock1 kv pm bump as s)
    from killed(1) assms(4) have kv: "store_good (sys_env_store E) good kv" by simp
    from booted_run_frame [OF assms(1) killed(5) kv] killed(1-3) assms(5) show ?thesis by simp
  qed simp_all
qed

definition process_frame_laws :: "('g, 'sc, 'cm, 'mon, 'cmon, 'm, 'w, 'lkv, 'r, 't) world \<times>
    ('kv, 'cm, 'w, 'p, 'pm) server_env \<times> ('kv, 'cm, 'w, 'p, 'b) handler_env \<times> ('cm, 'cmon) listen_ops \<times>
    ('kv \<Rightarrow> bool) \<times> payment_id \<Rightarrow> bool" where
  "process_frame_laws e = (case e of (W, E, H, L, good, i) \<Rightarrow>
     frame_laws (E, H, L, good, i) \<and> peers_writable (sys_env_store E) good)"

interpretation process_frames: caused_steps process_frame_laws "\<lambda>(W, E, H, L, good, i). process W E H L"
  "\<lambda>(W, E, H, L, good, i) p. store_good (sys_env_store E) good (fst p)"
  "\<lambda>(W, E, H, L, good, i) v p. payments_view (sys_env_store E) (fst p) i \<noteq> v"
  "\<lambda>(W, E, H, L, good, i) v x. \<exists>a \<in> set (steps_of x). concerns E i a"
proof (unfold_locales, goal_cases)
  case (1 e p x p')
  obtain W E H L good i where e: "e = (W, E, H, L, good, i)" by (cases e)
  from 1 show ?case unfolding e prod.case process_frame_laws_def frame_laws_def
    using process_inv [of E good H W L p x p'] by blast
next
  case (2 e p x p' v)
  obtain W E H L good i where e: "e = (W, E, H, L, good, i)" by (cases e)
  from 2 have "frame_laws (E, H, L, good, i)" "peers_writable (sys_env_store E) good" "process W E H L p x p'"
    "store_good (sys_env_store E) good (fst p)"
    by (simp_all add: e process_frame_laws_def)
  from process_frame [OF this] 2(4) show ?case unfolding e prod.case by metis
qed

section \<open>A run for the witness\<close>

text \<open>
  An invoice is made for a payment to receive, and the program killed; the next run pays another invoice, handles its
  failure and is told that the first payment arrived.
\<close>

definition receiving_server :: "(mem_store, cm_log, u64, (script \<times> u64) list, peer_details list) server_env" where
  "receiving_server = sample_server\<lparr>se_parse_json := (\<lambda>bs. Inr (request_with ''receive'' [(''amount'', json_u64 50)]))\<rparr>"

abbreviation receiving_process :: "mem_store \<times> bool \<Rightarrow> process_step \<Rightarrow> mem_store \<times> bool \<Rightarrow> bool" where
  "receiving_process \<equiv> process sample_world receiving_server sample_handler idle_listeners"

definition drawn_hash :: bytes where
  "drawn_hash = replicate 32 9"

definition receive_steps :: "task_step list" where
  "receive_steps =
     [StartDone (Inr ()) [],
      Request (Inr [1]) 1 (Some \<lparr>amount_milli_satoshis = Some 50, invoice_payment_hash = drawn_hash, invoice_text = ''lnbc''\<rparr>) True]"

definition other_invoice :: bolt11_invoice where
  "other_invoice = sample_invoice\<lparr>invoice_payment_hash := [8, 1]\<rparr>"

definition other_steps :: "task_step list" where
  "other_steps =
     [StartDone (Inr ()) [], BeginPayment other_invoice,
      Event (PaymentFailed (PaymentId [8, 1]) (Some (PaymentHash [8, 1])) None), EndPayment True,
      Event (PaymentClaimed (PaymentHash drawn_hash) 50)]"

definition received :: "mem_store \<Rightarrow> task_step list \<Rightarrow> mem_store" where
  "received kv as = (case system_exec_run receiving_server sample_handler idle_listeners (sample_boot kv) as of
     None \<Rightarrow> kv | Some s \<Rightarrow> sys_store s)"

definition receive_store :: mem_store where
  "receive_store = received empty_store receive_steps"

definition other_store :: mem_store where
  "other_store = received receive_store other_steps"

lemma received_process:
  assumes "(case system_exec_run receiving_server sample_handler idle_listeners (sample_boot kv) as of
      None \<Rightarrow> False | Some s \<Rightarrow> True)"
  shows "receiving_process (kv, False) (Killed as) (received kv as, True)"
proof -
  obtain s where s: "system_exec_run receiving_server sample_handler idle_listeners (sample_boot kv) as = Some s"
    using assms by (auto split: option.splits)
  then have "system_run receiving_server sample_handler idle_listeners (booted sample_built kv [] 0) as s"
    by (simp add: system_exec_run_iff sample_boot_def)
  from process.killed [OF sample_setup_ok this] s show ?thesis by (simp add: received_def)
qed

lemma received_processes:
  "receiving_process (empty_store, False) (Killed receive_steps) (receive_store, True)"
  "receiving_process (receive_store, False) (Killed other_steps) (other_store, True)"
  unfolding receive_store_def other_store_def by (rule received_process, code_simp)+

lemma receiving_store [simp]: "sys_env_store receiving_server = sys_env_store sample_server"
  by (simp add: receiving_server_def)

lemma other_unconcerned: "\<forall>a \<in> set other_steps. \<not> concerns receiving_server (PaymentId drawn_hash) a"
  by (auto simp: other_steps_def invoice_of_def other_invoice_def drawn_hash_def dest: arg_cong [where f = length])

section \<open>Properties\<close>

text \<open>
  C2: in a store that can be written a stored payment is durable, an incoming one like an outgoing one: through any number of runs of the program, ended or
  killed at any moment, whatever the tasks do in whatever order, its record (amount, hash, secrets, status, direction) stays exactly
  as it was, and is neither removed nor replaced, as long as in these runs no outcome event for its id is handled, nobody
  pays an invoice with its hash, and LDK does not draw this very hash again for a new invoice.
\<close>

theorem record_changes_have_cause:
  assumes "store_laws (sys_env_store E)" and "writable (sys_env_store E) good"
    and "peers_writable (sys_env_store E) good" and "env_store H = sys_env_store E"
    and "store_good (sys_env_store E) good kv" and "steps (process W E H L) (kv, sock) xs (kv', sock')"
    and "\<forall>x \<in> set xs. \<forall>a \<in> set (steps_of x). \<not> concerns E i a"
  shows "payments_view (sys_env_store E) kv' i = payments_view (sys_env_store E) kv i"
  using process_frames.steps_no_cause [of "(W, E, H, L, good, i)" "(kv, sock)" xs "(kv', sock')"
      "payments_view (sys_env_store E) kv i"] assms
  by (simp add: process_frame_laws_def frame_laws_def)

theorem record_changes_have_cause_witness:
  "\<exists>p. payments_view (sys_env_store receiving_server) receive_store (PaymentId drawn_hash) = Some p \<and>
     payments_view (sys_env_store receiving_server) other_store (PaymentId drawn_hash) = Some p \<and>
     direction p = Inbound \<and> amount_msat p = Some 50 \<and> status p = Pending \<and>
     payments_view (sys_env_store receiving_server) receive_store (PaymentId [8, 1]) = None \<and>
     payments_view (sys_env_store receiving_server) other_store (PaymentId [8, 1]) \<noteq> None"
proof -
  let ?S = "sys_env_store receiving_server"
  have laws: "store_laws ?S" "writable ?S (\<lambda>kv. \<not> write_fails kv)" "peers_writable ?S (\<lambda>kv. \<not> write_fails kv)"
    "env_store sample_handler = ?S" "store_good ?S (\<lambda>kv. \<not> write_fails kv) empty_store"
    using sample_system_laws(1-3) sample_peers_writable sample_store_good by simp_all
  have good: "store_good ?S (\<lambda>kv. \<not> write_fails kv) receive_store"
    using process_inv [OF laws(1-4) received_processes(1)] laws(5) by simp
  have runs: "steps receiving_process (receive_store, False) [Killed other_steps] (other_store, True)"
    by (simp add: steps_single received_processes(2))
  have "\<forall>x \<in> set [Killed other_steps]. \<forall>a \<in> set (steps_of x). \<not> concerns receiving_server (PaymentId drawn_hash) a"
    using other_unconcerned by simp
  from record_changes_have_cause [OF laws(1-4) good runs this]
  have same: "payments_view ?S other_store (PaymentId drawn_hash) = payments_view ?S receive_store (PaymentId drawn_hash)" .
  have "case payments_view ?S receive_store (PaymentId drawn_hash) of
      None \<Rightarrow> False | Some p \<Rightarrow> direction p = Inbound \<and> amount_msat p = Some 50 \<and> status p = Pending"
    by code_simp
  moreover have "payments_view ?S receive_store (PaymentId [8, 1]) = None" by code_simp
  moreover have "case payments_view ?S other_store (PaymentId [8, 1]) of None \<Rightarrow> False | Some p \<Rightarrow> True" by code_simp
  ultimately show ?thesis using same by (auto split: option.splits)
qed

end
