(* ===== verification/Logger.thy ===== *)
theory Logger
  imports Prelude
begin

text \<open>
  \<open>src/logger.rs\<close>: LDK's log records as lines of the \<open>log\<close> crate. The clock's text, the name of a
  level and the decimal text of a line number are parameters.
\<close>

datatype level = Gossip | Trace | Debug | Info | Warn | Error

datatype log_level = LogTrace | LogDebug | LogInfo | LogWarn | LogError

record log_record =
  rec_level :: level
  rec_args :: string
  rec_module_path :: string
  rec_line :: u32

text \<open>\<open>{:<5}\<close>: padded with blanks on the right to five characters, never cut.\<close>

definition pad_right :: "nat \<Rightarrow> string \<Rightarrow> string" where
  "pad_right n text = text @ replicate (n - length text) CHR '' ''"

definition log_line :: "string \<Rightarrow> (level \<Rightarrow> string) \<Rightarrow> (u32 \<Rightarrow> string) \<Rightarrow> log_record \<Rightarrow> string" where
  "log_line now level_text show_u32 record =
     now @ '' '' @ pad_right 5 (level_text (rec_level record)) @ '' ['' @ rec_module_path record @ '':''
       @ show_u32 (rec_line record) @ ''] '' @ rec_args record @ [CHR 0x0A]"

fun log_level_of :: "level \<Rightarrow> log_level" where
  "log_level_of Gossip = LogTrace"
| "log_level_of Trace = LogTrace"
| "log_level_of Debug = LogDebug"
| "log_level_of Info = LogInfo"
| "log_level_of Warn = LogWarn"
| "log_level_of Error = LogError"

definition node_log :: "string \<Rightarrow> (level \<Rightarrow> string) \<Rightarrow> (u32 \<Rightarrow> string) \<Rightarrow> log_record \<Rightarrow> log_level \<times> string" where
  "node_log now level_text show_u32 record =
     (log_level_of (rec_level record), log_line now level_text show_u32 record)"

text \<open>The message of a record starts at one column for every level whose name has at most five letters.\<close>

lemma length_pad_right [simp]: "length (pad_right n text) = max n (length text)"
  by (simp add: pad_right_def)

lemma log_line_columns:
  assumes "length (level_text (rec_level record)) \<le> 5"
  shows "drop (length now + 7) (log_line now level_text show_u32 record) =
    ''['' @ rec_module_path record @ '':'' @ show_u32 (rec_line record) @ ''] '' @ rec_args record @ [CHR 0x0A]"
  using assms by (simp add: log_line_def)

lemma level_kept_apart: "log_level_of l = log_level_of l' \<longleftrightarrow> l = l' \<or> {l, l'} = {Gossip, Trace}"
  by (cases l; cases l') auto

end
