(* ===== verification/Spec2Isabelle.thy ===== *)
theory Spec2Isabelle
  imports StoreRuns StoreRaces Signer RecordFrames Logger
begin

text \<open>
  A verification development for \<open>ln-node\<close>, a Lightning node in Rust built on LDK (channels and
  payments) and BDK (the on-chain wallet), with bitcoind as its source of blocks and fees.

  \<^bold>\<open>The program.\<close> \<open>src/bin/lnnode.rs\<close> builds a node from a configuration and runs three kinds of
  tasks: the tasks of \<open>Node::start\<close> (fee refresh, reconnection, LDK's background processor with the event
  handler, the task that follows the chain, the listener for peers), the Unix socket server, and the wait for
  ctrl-c. The client \<open>src/bin/lncli.rs\<close> sends one JSON request per run to the server, which calls the
  operations of \<open>Node\<close>. The event handler and those operations share the node store, the channel
  manager and the wallet.

  \<^bold>\<open>Theories.\<close> In the order of their imports:
  \<^item> \<open>Prelude\<close>: machine integers, results (\<open>Inl\<close> is \<open>Err\<close>), panics (\<open>outcome\<close>), locks with
    poisoning, arithmetic with and without overflow checks, log arguments. \<open>Runs\<close>: runs of a step relation, and as
    the locales \<open>caused_steps\<close> and \<open>observed_steps\<close> what carries over from steps to runs; the step relations of
    \<open>PaymentFlow\<close>, \<open>NodeSystem\<close>, \<open>NodeLives\<close> and \<open>RecordFrames\<close> interpret them.
  \<^item> \<open>Float64\<close>, \<open>Json\<close>, \<open>External\<close>: the parts of IEEE doubles, JSON values, and of the
    third-party libraries the program relies on. Library operations are records of functions, arguments of
    the definitions that call them; what is relied on is a named predicate (\<open>codec_laws\<close>,
    \<open>kv_laws\<close>, \<open>kv_write_atomic\<close>, \<open>builder_pays\<close>, \<open>key_laws\<close>, \<open>tracks\<close>).
  \<^item> \<open>Repository\<close>: the interface of a keyed store as the locales \<open>keyed_repo\<close> and
    \<open>listed_repo\<close>, with the lemmas its clients use. \<open>Namespaces\<close>: a namespace of the key-value store as a
    finite map. \<open>Reference_Store\<close>: an executable codec and store in memory that satisfy the laws.
  \<^item> \<open>Storage\<close> (\<open>src/storage.rs\<close>): payments and peers, their TLV encoding, every operation of
    \<open>NodeStore\<close>. \<open>payments_view\<close> and \<open>peers_view\<close> are the abstract maps, \<open>payments_wf\<close> and
    \<open>peers_wf\<close> the invariant; the interpretations \<open>payments\<close> and \<open>peers\<close> discharge the locale's laws.
    \<open>StoreRuns\<close>: runs of its operations against two finite maps, and the types of what is on disk.
  \<^item> \<open>FeeEstimation\<close>: the contract of a fee source as the locale \<open>fee_source\<close>. \<open>BitcoindClient\<close>
    (\<open>src/bitcoind_client.rs\<close>): fee cache, conversion of BTC per kilo-vbyte to satoshis per 1000 weight
    units with the roundings of doubles, refresh task, best block; the fee cache interprets \<open>fee_source\<close>.
  \<^item> \<open>OnchainWallet\<close> (\<open>src/onchain_wallet.rs\<close>): start-up over the seed file and the wallet
    database, funding transactions, scripts; its definitions work on the content of the wallet's lock.
    \<open>Signer\<close>: the traits through which LDK uses the wallet manager, with the lock and LDK's keys manager.
  \<^item> \<open>ChainListener\<close> (\<open>src/bitcoind_client.rs\<close>, \<open>src/node.rs\<close>): the listener and the task
    that feeds it. \<open>NodeConfig\<close> (\<open>src/config.rs\<close>, \<open>src/node.rs\<close>, \<open>src/bin/lnnode.rs\<close>): the
    configuration, its parsing, the builder's setters. \<open>NodeWiring\<close> (\<open>src/node.rs\<close>): the objects that
    \<open>NodeBuilder::build\<close> and \<open>Node::start\<close> make, as a state monad over a list of them in which an \<open>Arc\<close> is an
    index, and the tasks that \<open>start\<close> spawns. \<open>NodeStart\<close> (\<open>src/node.rs\<close>): what
    \<open>NodeBuilder::build\<close> does with the files it finds, once and over repeated starts, and the first synchronisation of
    \<open>Node::start\<close>. \<open>Logger\<close> (\<open>src/logger.rs\<close>): LDK's records as log lines.
  \<^item> \<open>ChannelManager\<close>: the operations of LDK's channel manager as a parameter, and managers that record their calls. \<open>EventHandler\<close> (\<open>src/event_handler.rs\<close>): every event, and runs of events.
  \<^item> \<open>NodeOperations\<close> (\<open>src/node.rs\<close>): the operations of \<open>Node\<close>. \<open>PaymentFlow\<close>: the steps
    of \<open>pay_bolt11_invoice\<close> and of the event handler interleaved on one store. \<open>StoreRaces\<close>: the handling of an outcome
    as its read and its write of the store (\<open>src/event_handler.rs\<close>, \<open>src/storage.rs\<close>), with steps of the server between.
  \<^item> \<open>Server\<close> (\<open>src/server.rs\<close>) and \<open>Cli\<close> (\<open>src/bin/lncli.rs\<close>): requests, replies, the accept
    loop, the client's commands, and both put together.
  \<^item> \<open>NodeSystem\<close>: the running node, a step relation (\<open>system_step\<close>) over one state with the steps of the
    start, the background processor, the chain task and the server, where a panic ends the task it happens in;
    \<open>system_exec\<close> is the same as a function. \<open>NodeProcess\<close> (\<open>src/bin/lnnode.rs\<close>, \<open>src/server.rs\<close>,
    \<open>src/node.rs\<close>): the two halves of \<open>main\<close> around it, the socket's file, the end of \<open>Node::start\<close>, the loop
    that accepts peers. \<open>NodeLives\<close>: \<open>main\<close> as a whole, with \<open>build\<close> in it, and runs of the program one after the
    other on one machine (\<open>process\<close>): refused, ended, or killed before the socket is bound, while the tasks run,
    while the shutdown saves the peers, or after the socket's file is removed. \<open>RecordFrames\<close>: what can change the record of one payment
    in any of these runs.

  \<^bold>\<open>What is shown.\<close> The store implements two finite maps, what is on disk is typed, encodings
  round-trip, listings are complete. The event handler refines the abstract effect of the payment events; with the
  node's own fee cache it panics exactly on the listed unwraps, on a poisoned lock of the wallet that it needs, and
  with LDK's fee-bumping handler. However the tasks interleave, and over restarts, a payment gets an outcome only
  from an event for it, a stored record changes only by such an event, by paying an invoice with its hash, or when
  LDK draws that hash again for a new invoice, a recorded payment keeps the last outcome, and an outcome that is
  handled before the payment is recorded is lost; the two halves of handling an outcome act as one unless the same
  payment is recorded between them. A paid invoice leaves exactly one record, which the theorem writes out, and an
  error of paying says how far it got. A run that finds no socket's file leaves one exactly when it bound it and was
  killed before it removed it or did not end with success, and then it is in the way of every later run; with a live
  handler the shutdown completes and saves the peers, which the next start dials again up to an attempt that never
  ends. A node whose start failed serves without ever handling an event. The parts of a node share one object of
  each kind. The first synchronisation works on copies of the channel monitors, so that the chain monitor misses the
  blocks of the time the node was down. A poisoned wallet ends every task that needs it and leaves signing alone; of
  the methods that LDK calls only those that use the wallet panic by it. Fee estimates are always available and at
  least the relay minimum, and the conversion is accurate to 1. Start-up restores what was there, never replaces a
  seed, also one it cannot read, and keeps the node's identity. The listeners agree on the tip if they did at first;
  errors of the wallet and of the polls end the chain task. The server answers the client's well-formed commands,
  and ends on the others; a channel id it prints leads back to that channel.

  \<^bold>\<open>Conventions.\<close> A stateful operation returns its outcome and the next state, also when it
  panics. Loops that wait for events (fee refresh, accept loop, connection attempts, polls) are recursions over the
  list of the events they see, so every run of them is a finite list and no fuel is used; a connection attempt that
  has not ended is \<open>None\<close>. Random values and clock readings are arguments; the label of a request also
  shows the invoice that LDK draws for it, so that what a run creates can be read off its steps. The wallet's lock
  is a \<open>mutex\<close> with its poison wherever it is taken; the locks of the store and the fee cache are never
  held across a panic. In proofs over the store, \<open>writable\<close> names a set of store states in which writes
  succeed; what a failed write leaves is not assumed. Steps of \<open>NodeSystem\<close> are whole handlers,
  requests and notifications; only \<open>send_payment\<close>, whose store write races with the event handler's, is
  also split; \<open>StoreRaces\<close> splits the handler. Values of objects that the code shares are one field of
  the state: that they are shared is what \<open>NodeWiring\<close> shows. A clone of a channel monitor is a value
  of its own.

  \<^bold>\<open>Not modelled.\<close> LDK's and BDK's internals;
  the inside of LDK's background processor, which appears as the events it hands over and as an error it may end with;
  \<open>src/lib.rs\<close>, which only declares the modules; the parsing of command line arguments and the printing of the client;
  partial reads and writes of sockets, beyond the buffer sizes.
\<close>

end
